(* ===== verification/Prelude.thy ===== *)
theory Prelude
  imports Main "HOL-Library.Word" "HOL-Library.Sublist"
begin

text \<open>
  Shared vocabulary of the development: the machine integer types of the Rust code at their
  widths on a 64-bit target, the saturating, checked and clamping operations of the standard
  library that the code calls, \<open>Result\<close> combinators (a result is a sum, \<open>Inl\<close> the
  error), the poisonable \<open>Mutex\<close>, and the lemma collections the component theories extend.
\<close>

unbundle bit_operations_syntax

named_theorems result_simps \<comment> \<open>unfolding of the \<open>Result\<close> combinators\<close>
named_theorems lock_simps \<comment> \<open>unfolding of the mutex operations\<close>

section \<open>Machine integers\<close>

type_synonym u8 = "8 word"
type_synonym u16 = "16 word"
type_synonym u32 = "32 word"
type_synonym u64 = "64 word"
type_synonym i32 = "32 word" \<comment> \<open>two's complement, read by \<open>sint\<close>\<close>
type_synonym i64 = "64 word" \<comment> \<open>two's complement, read by \<open>sint\<close>\<close>
type_synonym usize = "64 word"

text \<open>Rust's \<open>saturating_add\<close>, \<open>saturating_sub\<close>, \<open>checked_add\<close>, \<open>try_from\<close> and \<open>clamp\<close>.\<close>

definition saturating_add :: "'a::len word \<Rightarrow> 'a word \<Rightarrow> 'a word" where
  "saturating_add a b = (if unat a + unat b < 2 ^ LENGTH('a) then a + b else - 1)"

definition saturating_sub :: "'a::len word \<Rightarrow> 'a word \<Rightarrow> 'a word" where
  "saturating_sub a b = (if a < b then 0 else a - b)"

definition checked_add :: "'a::len word \<Rightarrow> 'a word \<Rightarrow> 'a word option" where
  "checked_add a b = (if unat a + unat b < 2 ^ LENGTH('a) then Some (a + b) else None)"

definition try_from :: "'a::len word \<Rightarrow> 'b::len word option" where
  "try_from x = (if unat x < 2 ^ LENGTH('b) then Some (ucast x) else None)"

definition clamp :: "'a::linorder \<Rightarrow> 'a \<Rightarrow> 'a \<Rightarrow> 'a" where
  "clamp lo hi x = (if x < lo then lo else if hi < x then hi else x)"

text \<open>The length of a vector as a \<open>usize\<close>; Rust keeps it at most \<open>isize::MAX\<close>.\<close>

definition vec_len :: "'a list \<Rightarrow> usize" where
  "vec_len xs = of_nat (length xs)"

definition vec_fits :: "'a list \<Rightarrow> bool" where
  "vec_fits xs \<longleftrightarrow> length xs < 2 ^ 63"

lemma unat_saturating_add:
  "unat (saturating_add a b) = min (unat a + unat b) (2 ^ LENGTH('a) - 1)"
  for a b :: "'a::len word"
  by (auto simp: saturating_add_def unat_word_ariths unsigned_minus_1_eq_mask mask_eq_exp_minus_1)

lemma unat_saturating_sub: "unat (saturating_sub a b) = unat a - unat b"
  by (auto simp: saturating_sub_def word_less_nat_alt unat_sub word_le_nat_alt)

lemma saturating_sub_le: "saturating_sub a b \<le> a"
  by (simp add: word_le_nat_alt unat_saturating_sub)

lemma saturating_sub_self [simp]: "saturating_sub a a = 0"
  by (simp add: saturating_sub_def)

lemma checked_add_Some:
  "checked_add a b = Some c \<longleftrightarrow> unat a + unat b < 2 ^ LENGTH('a) \<and> c = a + b"
  for a b :: "'a::len word"
  by (auto simp: checked_add_def)

lemma unat_checked_add: "checked_add a b = Some c \<Longrightarrow> unat c = unat a + unat b"
  by (auto simp: checked_add_def unat_word_ariths split: if_splits)

lemma unat_plus_no_overflow:
  "unat a + unat b < 2 ^ LENGTH('a) \<Longrightarrow> unat (a + b) = unat a + unat b"
  for a b :: "'a::len word"
  by (simp add: unat_word_ariths)

lemma unat_ucast_fits:
  "unat x < 2 ^ LENGTH('b) \<Longrightarrow> unat (ucast x :: 'b::len word) = unat x"
  for x :: "'a::len word"
  by (simp add: unsigned_ucast_eq take_bit_nat_eq_self)

lemma unat_ucast_up:
  "LENGTH('a) \<le> LENGTH('b) \<Longrightarrow> unat (ucast x :: 'b::len word) = unat x"
  for x :: "'a::len word"
  by (rule unat_ucast_fits) (rule less_le_trans [OF unsigned_less], simp)

lemma try_from_Some:
  "try_from x = Some y \<longleftrightarrow> unat x < 2 ^ LENGTH('b) \<and> y = ucast x"
  for x :: "'a::len word" and y :: "'b::len word"
  by (auto simp: try_from_def)

lemma try_from_ucast_up:
  "LENGTH('b) \<le> LENGTH('a) \<Longrightarrow> try_from (ucast y :: 'a::len word) = Some (y :: 'b::len word)"
proof -
  assume le: "LENGTH('b) \<le> LENGTH('a)"
  then have u: "unat (ucast y :: 'a word) = unat y"
    by (rule unat_ucast_up)
  moreover have "unat y < 2 ^ LENGTH('b)"
    by (rule unsigned_less)
  moreover have "unat (ucast (ucast y :: 'a word) :: 'b word) = unat y"
    using u calculation(2) by (simp add: unat_ucast_fits)
  then have "(ucast (ucast y :: 'a word) :: 'b word) = y"
    by (simp add: word_unat_eq_iff)
  ultimately show ?thesis
    by (simp add: try_from_def)
qed

lemma ucast_try_from:
  "try_from x = Some y \<Longrightarrow> LENGTH('b) \<le> LENGTH('a) \<Longrightarrow> ucast y = x"
  for x :: "'a::len word" and y :: "'b::len word"
  by (auto simp: try_from_Some word_unat_eq_iff unat_ucast_fits unat_ucast_up)

lemma sint_small: "unat w < 2 ^ (LENGTH('a) - 1) \<Longrightarrow> sint w = int (unat w)"
  for w :: "'a::len word"
proof -
  assume small: "unat w < 2 ^ (LENGTH('a) - 1)"
  have u: "uint w = int (unat w)"
    by simp
  have "int (unat w) < int (2 ^ (LENGTH('a) - 1))"
    using small by (simp only: of_nat_less_iff)
  then have lt: "uint w < 2 ^ (LENGTH('a) - 1)"
    by (simp only: u of_nat_power of_nat_numeral)
  have "signed_take_bit (LENGTH('a) - 1) (uint w) = uint w"
    by (rule signed_take_bit_int_eq_self) (use lt in \<open>simp_all add: order_trans [OF _ uint_ge_0]\<close>)
  then show ?thesis
    by (simp add: sint_uint)
qed

lemma clamp_bounds: "lo \<le> hi \<Longrightarrow> lo \<le> clamp lo hi x \<and> clamp lo hi x \<le> hi"
  by (auto simp: clamp_def)

lemma unat_clamp_bounds:
  "lo \<le> hi \<Longrightarrow> unat lo \<le> unat (clamp lo hi x) \<and> unat (clamp lo hi x) \<le> unat hi"
  for x :: "'a::len word"
  by (auto simp: clamp_def word_le_nat_alt word_less_nat_alt)

lemma clamp_id: "lo \<le> x \<Longrightarrow> x \<le> hi \<Longrightarrow> clamp lo hi x = x"
  by (auto simp: clamp_def)

lemma unat_vec_len: "vec_fits xs \<Longrightarrow> unat (vec_len xs) = length xs"
  by (simp add: vec_len_def vec_fits_def unat_of_nat take_bit_nat_eq_self)

lemma vec_fits_Nil [simp]: "vec_fits []"
  by (simp add: vec_fits_def)

lemma vec_fits_drop: "vec_fits xs \<Longrightarrow> vec_fits (drop n xs)"
  by (simp add: vec_fits_def)

lemma vec_fits_take: "vec_fits xs \<Longrightarrow> vec_fits (take n xs)"
  by (simp add: vec_fits_def)

lemma vec_len_eq_0_iff: "vec_fits xs \<Longrightarrow> vec_len xs = 0 \<longleftrightarrow> xs = []"
  using unat_vec_len [of xs] by (metis length_0_conv unat_0 unat_eq_zero)

section \<open>Results\<close>

text \<open>\<open>and_then r f\<close> is \<open>f(r?)\<close>: an error is returned early, a value is passed on.\<close>

definition and_then :: "'e + 'a \<Rightarrow> ('a \<Rightarrow> 'e + 'b) \<Rightarrow> 'e + 'b" where
  "and_then r f = (case r of Inl e \<Rightarrow> Inl e | Inr a \<Rightarrow> f a)"

definition map_err :: "('e \<Rightarrow> 'f) \<Rightarrow> 'e + 'a \<Rightarrow> 'f + 'a" where
  "map_err g r = (case r of Inl e \<Rightarrow> Inl (g e) | Inr a \<Rightarrow> Inr a)"

definition ok_or :: "'e \<Rightarrow> 'a option \<Rightarrow> 'e + 'a" where
  "ok_or e x = (case x of None \<Rightarrow> Inl e | Some a \<Rightarrow> Inr a)"

definition is_ok :: "'e + 'a \<Rightarrow> bool" where
  "is_ok r = (case r of Inl _ \<Rightarrow> False | Inr _ \<Rightarrow> True)"

lemma and_then_simps [simp, result_simps]:
  "and_then (Inl e) f = Inl e"
  "and_then (Inr a) f = f a"
  by (simp_all add: and_then_def)

lemma and_then_Inr_iff: "and_then r f = Inr b \<longleftrightarrow> (\<exists>a. r = Inr a \<and> f a = Inr b)"
  by (cases r) auto

lemma and_then_Inl_iff:
  "and_then r f = Inl e \<longleftrightarrow> r = Inl e \<or> (\<exists>a. r = Inr a \<and> f a = Inl e)"
  by (cases r) auto

lemma map_err_simps [simp, result_simps]:
  "map_err g (Inl e) = Inl (g e)"
  "map_err g (Inr a) = Inr a"
  by (simp_all add: map_err_def)

lemma map_err_Inr_iff [simp]: "map_err g r = Inr a \<longleftrightarrow> r = Inr a"
  by (cases r) auto

lemma ok_or_simps [simp, result_simps]:
  "ok_or e None = Inl e"
  "ok_or e (Some a) = Inr a"
  by (simp_all add: ok_or_def)

lemma is_ok_simps [simp, result_simps]:
  "\<not> is_ok (Inl e)"
  "is_ok (Inr a)"
  by (simp_all add: is_ok_def)

lemma is_ok_map_err [simp]: "is_ok (map_err g r) \<longleftrightarrow> is_ok r"
  by (cases r) simp_all

lemma is_ok_iff: "is_ok r \<longleftrightarrow> (\<exists>a. r = Inr a)"
  by (cases r) auto

text \<open>\<open>collect\<close> of an iterator of results: the first error wins.\<close>

fun collect_results :: "('e + 'a) list \<Rightarrow> 'e + 'a list" where
  "collect_results [] = Inr []"
| "collect_results (r # rs) =
     and_then r (\<lambda>a. and_then (collect_results rs) (\<lambda>as. Inr (a # as)))"

lemma collect_results_Inr_iff:
  "collect_results rs = Inr xs \<longleftrightarrow> rs = map Inr xs"
  by (induction rs arbitrary: xs) (auto simp: and_then_Inr_iff Cons_eq_map_conv)

section \<open>Mutexes\<close>

text \<open>
  A \<open>Mutex\<close> guards a value and is poisoned when a thread panicked while it held the lock.
  \<open>lock e m\<close> is \<open>m.lock().map_err(|_| e)\<close>: the guarded value, or the error \<open>e\<close>.
\<close>

record 'a mutex =
  guarded :: 'a
  poisoned :: bool

definition new_mutex :: "'a \<Rightarrow> 'a mutex" where
  "new_mutex a = \<lparr>guarded = a, poisoned = False\<rparr>"

definition lock :: "'e \<Rightarrow> 'a mutex \<Rightarrow> 'e + 'a" where
  "lock e m = (if poisoned m then Inl e else Inr (guarded m))"

definition set_guarded :: "'a \<Rightarrow> 'a mutex \<Rightarrow> 'a mutex" where
  "set_guarded a m = m\<lparr>guarded := a\<rparr>"

lemma lock_new [simp]: "lock e (new_mutex a) = Inr a"
  by (simp add: lock_def new_mutex_def)

lemma lock_poisoned [lock_simps]: "poisoned m \<Longrightarrow> lock e m = Inl e"
  by (simp add: lock_def)

lemma lock_sound [lock_simps]: "\<not> poisoned m \<Longrightarrow> lock e m = Inr (guarded m)"
  by (simp add: lock_def)

lemma lock_Inr_iff: "lock e m = Inr a \<longleftrightarrow> \<not> poisoned m \<and> a = guarded m"
  by (auto simp: lock_def)

lemma set_guarded_simps [simp]:
  "guarded (set_guarded a m) = a"
  "poisoned (set_guarded a m) = poisoned m"
  by (simp_all add: set_guarded_def)

section \<open>Calls that are retried\<close>

text \<open>
  The replies of the operating system are a script, a list consumed in order. A loop that retries
  an interrupted call runs down the script to the first conclusive reply; when there is none, the
  call has not returned yet, and the result is \<open>None\<close>.
\<close>

fun retry :: "('r \<Rightarrow> 'a option) \<Rightarrow> 'r list \<Rightarrow> ('a \<times> 'r list) option" where
  "retry conclude [] = None"
| "retry conclude (r # rs) =
     (case conclude r of None \<Rightarrow> retry conclude rs | Some a \<Rightarrow> Some (a, rs))"

lemma retry_None_iff: "retry f rs = None \<longleftrightarrow> (\<forall>r \<in> set rs. f r = None)"
  by (induction rs) (auto split: option.splits)

lemma retry_skip: "\<forall>r \<in> set skipped. f r = None \<Longrightarrow> retry f (skipped @ rs) = retry f rs"
  by (induction skipped) auto

lemma retry_Some:
  "retry f rs = Some (a, rest) \<longleftrightarrow>
     (\<exists>skipped r. rs = skipped @ r # rest \<and> (\<forall>s \<in> set skipped. f s = None) \<and> f r = Some a)"
proof (induction rs)
  case Nil
  then show ?case by simp
next
  case (Cons r rs)
  show ?case
  proof (cases "f r")
    case None
    with Cons show ?thesis by (fastforce simp: Cons_eq_append_conv)
  next
    case (Some b)
    then show ?thesis by (auto simp: Cons_eq_append_conv)
  qed
qed

lemma retry_shorter: "retry f rs = Some (a, rest) \<Longrightarrow> length rest < length rs"
  by (auto simp: retry_Some)

section \<open>Prefixes\<close>

lemma take_drop_append [simp]: "take n xs @ drop n xs @ ys = xs @ ys"
  by (metis append.assoc append_take_drop_id)

lemma prefix_concat_drop: "prefix xs ys \<Longrightarrow> xs @ drop (length xs) ys = ys"
  by (auto simp: prefix_def)

end
