(* ===== verification/Errors.thy ===== *)
theory Errors
  imports Prelude
begin

text \<open>
  The error values of \<open>native/src/error.rs\<close>, and what the code uses of \<open>std::io::Error\<close>
  and \<open>std::ffi::CString\<close>. An I/O error is its kind, its raw operating system number if it
  has one, and the text its \<open>Display\<close> prints.
\<close>

datatype PtyxErrorKind =
    Error
  | InvalidArgument
  | Unsupported
  | OutOfMemory
  | Closed
  | WouldBlock
  | BufferTooSmall
  | SpawnFailed
  | IoFailed
  | WaitFailed
  | BrokenPipe
  | PermissionDenied
  | Busy
  | NativeError

record PtyxError =
  err_kind :: PtyxErrorKind
  err_message :: string

definition PtyxError_new :: "PtyxErrorKind \<Rightarrow> string \<Rightarrow> PtyxError" where
  "PtyxError_new kind message = \<lparr>err_kind = kind, err_message = message\<rparr>"

text \<open>The kinds of \<open>std::io::ErrorKind\<close> the code distinguishes.\<close>

datatype IoErrorKind =
    Io_Interrupted
  | Io_WouldBlock
  | Io_BrokenPipe
  | Io_PermissionDenied
  | Io_WriteZero
  | Io_UnexpectedEof
  | Io_Unsupported
  | Io_Other

record io_error =
  io_kind :: IoErrorKind
  raw_os_error :: "i32 option"
  io_text :: string

definition io_error_new :: "IoErrorKind \<Rightarrow> string \<Rightarrow> io_error" where
  "io_error_new kind text = \<lparr>io_kind = kind, raw_os_error = None, io_text = text\<rparr>"

definition PtyxError_io :: "PtyxErrorKind \<Rightarrow> io_error \<Rightarrow> PtyxError" where
  "PtyxError_io kind error = PtyxError_new kind (io_text error)"

lemma PtyxError_new_simps [simp]:
  "err_kind (PtyxError_new k m) = k"
  "err_message (PtyxError_new k m) = m"
  by (simp_all add: PtyxError_new_def)

lemma PtyxError_new_eq_iff [simp]:
  "PtyxError_new k m = PtyxError_new k' m' \<longleftrightarrow> k = k' \<and> m = m'"
  by (auto simp: PtyxError_new_def)

lemma PtyxError_io_simps [simp]:
  "err_kind (PtyxError_io k e) = k"
  "err_message (PtyxError_io k e) = io_text e"
  by (simp_all add: PtyxError_io_def)

lemma io_error_new_simps [simp]:
  "io_kind (io_error_new k t) = k"
  "raw_os_error (io_error_new k t) = None"
  "io_text (io_error_new k t) = t"
  by (simp_all add: io_error_new_def)

text \<open>\<open>CString::new\<close> refuses a text with an interior NUL.\<close>

definition cstring_new :: "string \<Rightarrow> string option" where
  "cstring_new s = (if CHR 0x00 \<in> set s then None else Some s)"

definition cstring_or :: "string \<Rightarrow> string \<Rightarrow> string" where
  "cstring_or fallback s = (case cstring_new s of Some c \<Rightarrow> c | None \<Rightarrow> fallback)"

lemma cstring_new_Some: "cstring_new s = Some c \<longleftrightarrow> c = s \<and> CHR 0x00 \<notin> set s"
  by (auto simp: cstring_new_def)

lemma cstring_or_no_nul: "CHR 0x00 \<notin> set fb \<Longrightarrow> CHR 0x00 \<notin> set (cstring_or fb s)"
  by (auto simp: cstring_or_def cstring_new_def)

lemma cstring_or_id: "CHR 0x00 \<notin> set s \<Longrightarrow> cstring_or fb s = s"
  by (simp add: cstring_or_def cstring_new_def)

text \<open>
  \<open>BusyGuard\<close> of \<open>native/src/session.rs\<close>: entering swaps the flag from false to true or
  reports that the operation is active; dropping the guard clears the flag. Both give the flag
  afterwards.
\<close>

definition busy_error :: PtyxError where
  "busy_error = PtyxError_new Busy ''operation is already active''"

definition BusyGuard_enter :: "bool \<Rightarrow> (PtyxError + unit) \<times> bool" where
  "BusyGuard_enter busy = (if busy then (Inl busy_error, busy) else (Inr (), True))"

definition BusyGuard_drop :: bool where
  "BusyGuard_drop = False"

text \<open>Decimal printing, as \<open>format!\<close> prints an unsigned integer.\<close>

fun show_nat :: "nat \<Rightarrow> string" where
  "show_nat n =
     (if n < 10 then [char_of (48 + n)] else show_nat (n div 10) @ [char_of (48 + n mod 10)])"

declare show_nat.simps [simp del]

lemma show_nat_nonempty: "show_nat n \<noteq> []"
  by (subst show_nat.simps) simp

end
