(* ===== verification/Status.thy ===== *)
theory Status
  imports Errors
begin

text \<open>
  The status side of \<open>native/src/abi.rs\<close>: the status codes of the C ABI, their names, the
  status of an error kind, and the boundary \<open>ffi_status\<close> that every fallible export goes
  through with its thread-local last error.
\<close>

named_theorems abi_consts \<comment> \<open>the numeric constants of the ABI\<close>

section \<open>Status codes\<close>

definition PTYX_ABI_VERSION_MAJOR :: u32 where [abi_consts]: "PTYX_ABI_VERSION_MAJOR = 1"
definition PTYX_ABI_VERSION_MINOR :: u32 where [abi_consts]: "PTYX_ABI_VERSION_MINOR = 0"

definition PTYX_STATUS_OK :: u32 where [abi_consts]: "PTYX_STATUS_OK = 0"
definition PTYX_STATUS_ERROR :: u32 where [abi_consts]: "PTYX_STATUS_ERROR = 1"
definition PTYX_STATUS_INVALID_ARGUMENT :: u32 where [abi_consts]: "PTYX_STATUS_INVALID_ARGUMENT = 2"
definition PTYX_STATUS_UNSUPPORTED :: u32 where [abi_consts]: "PTYX_STATUS_UNSUPPORTED = 3"
definition PTYX_STATUS_OUT_OF_MEMORY :: u32 where [abi_consts]: "PTYX_STATUS_OUT_OF_MEMORY = 4"
definition PTYX_STATUS_CLOSED :: u32 where [abi_consts]: "PTYX_STATUS_CLOSED = 6"
definition PTYX_STATUS_WOULD_BLOCK :: u32 where [abi_consts]: "PTYX_STATUS_WOULD_BLOCK = 7"
definition PTYX_STATUS_BUFFER_TOO_SMALL :: u32 where [abi_consts]: "PTYX_STATUS_BUFFER_TOO_SMALL = 8"
definition PTYX_STATUS_SPAWN_FAILED :: u32 where [abi_consts]: "PTYX_STATUS_SPAWN_FAILED = 9"
definition PTYX_STATUS_IO_FAILED :: u32 where [abi_consts]: "PTYX_STATUS_IO_FAILED = 10"
definition PTYX_STATUS_WAIT_FAILED :: u32 where [abi_consts]: "PTYX_STATUS_WAIT_FAILED = 11"
definition PTYX_STATUS_TIMEOUT :: u32 where [abi_consts]: "PTYX_STATUS_TIMEOUT = 12"
definition PTYX_STATUS_EOF :: u32 where [abi_consts]: "PTYX_STATUS_EOF = 14"
definition PTYX_STATUS_BROKEN_PIPE :: u32 where [abi_consts]: "PTYX_STATUS_BROKEN_PIPE = 15"
definition PTYX_STATUS_PERMISSION_DENIED :: u32 where [abi_consts]: "PTYX_STATUS_PERMISSION_DENIED = 16"
definition PTYX_STATUS_BUSY :: u32 where [abi_consts]: "PTYX_STATUS_BUSY = 18"
definition PTYX_STATUS_NATIVE_ERROR :: u32 where [abi_consts]: "PTYX_STATUS_NATIVE_ERROR = 19"

definition status_string :: "u32 \<Rightarrow> string" where
  "status_string status =
    (if status = PTYX_STATUS_OK then ''OK''
     else if status = PTYX_STATUS_ERROR then ''ERROR''
     else if status = PTYX_STATUS_INVALID_ARGUMENT then ''INVALID_ARGUMENT''
     else if status = PTYX_STATUS_UNSUPPORTED then ''UNSUPPORTED''
     else if status = PTYX_STATUS_OUT_OF_MEMORY then ''OUT_OF_MEMORY''
     else if status = PTYX_STATUS_CLOSED then ''CLOSED''
     else if status = PTYX_STATUS_WOULD_BLOCK then ''WOULD_BLOCK''
     else if status = PTYX_STATUS_BUFFER_TOO_SMALL then ''BUFFER_TOO_SMALL''
     else if status = PTYX_STATUS_SPAWN_FAILED then ''SPAWN_FAILED''
     else if status = PTYX_STATUS_IO_FAILED then ''IO_FAILED''
     else if status = PTYX_STATUS_WAIT_FAILED then ''WAIT_FAILED''
     else if status = PTYX_STATUS_TIMEOUT then ''TIMEOUT''
     else if status = PTYX_STATUS_EOF then ''EOF''
     else if status = PTYX_STATUS_BROKEN_PIPE then ''BROKEN_PIPE''
     else if status = PTYX_STATUS_PERMISSION_DENIED then ''PERMISSION_DENIED''
     else if status = PTYX_STATUS_BUSY then ''BUSY''
     else if status = PTYX_STATUS_NATIVE_ERROR then ''NATIVE_ERROR''
     else ''UNKNOWN'')"

fun status_for_error_kind :: "PtyxErrorKind \<Rightarrow> u32" where
  "status_for_error_kind Error = PTYX_STATUS_ERROR"
| "status_for_error_kind InvalidArgument = PTYX_STATUS_INVALID_ARGUMENT"
| "status_for_error_kind Unsupported = PTYX_STATUS_UNSUPPORTED"
| "status_for_error_kind OutOfMemory = PTYX_STATUS_OUT_OF_MEMORY"
| "status_for_error_kind Closed = PTYX_STATUS_CLOSED"
| "status_for_error_kind WouldBlock = PTYX_STATUS_WOULD_BLOCK"
| "status_for_error_kind BufferTooSmall = PTYX_STATUS_BUFFER_TOO_SMALL"
| "status_for_error_kind SpawnFailed = PTYX_STATUS_SPAWN_FAILED"
| "status_for_error_kind IoFailed = PTYX_STATUS_IO_FAILED"
| "status_for_error_kind WaitFailed = PTYX_STATUS_WAIT_FAILED"
| "status_for_error_kind BrokenPipe = PTYX_STATUS_BROKEN_PIPE"
| "status_for_error_kind PermissionDenied = PTYX_STATUS_PERMISSION_DENIED"
| "status_for_error_kind Busy = PTYX_STATUS_BUSY"
| "status_for_error_kind NativeError = PTYX_STATUS_NATIVE_ERROR"

lemma status_for_error_kind_inj: "status_for_error_kind k = status_for_error_kind k' \<longleftrightarrow> k = k'"
  by (cases k; cases k'; simp add: abi_consts)

lemma status_for_error_kind_not_ok: "status_for_error_kind k \<noteq> PTYX_STATUS_OK"
  by (cases k) (simp_all add: abi_consts)

lemma status_for_error_kind_nonzero [simp]: "status_for_error_kind k \<noteq> 0"
  by (cases k) (simp_all add: abi_consts)

lemma status_for_error_kind_small: "unat (status_for_error_kind k) < 20"
  by (cases k) (simp_all add: abi_consts)

section \<open>The FFI boundary\<close>

text \<open>
  A closure run under \<open>catch_unwind\<close> either finishes with a result or panics.
  \<open>LAST_ERROR\<close> is the thread's last error message, \<open>None\<close> when it is clear.
\<close>

datatype 'a call_outcome = Finished "PtyxError + 'a" | Panicked

type_synonym last_error = "string option"

definition set_last_error :: "PtyxError \<Rightarrow> last_error \<Rightarrow> last_error" where
  "set_last_error error _ = Some (cstring_or ''ptyx error'' (err_message error))"

definition clear_last_error :: "last_error \<Rightarrow> last_error" where
  "clear_last_error _ = None"

definition last_error_message :: "last_error \<Rightarrow> string option" where
  "last_error_message cell = cell"

fun ffi_status :: "unit call_outcome \<Rightarrow> last_error \<Rightarrow> u32 \<times> last_error" where
  "ffi_status (Finished (Inr ())) cell = (PTYX_STATUS_OK, clear_last_error cell)"
| "ffi_status (Finished (Inl error)) cell =
     (status_for_error_kind (err_kind error), set_last_error error cell)"
| "ffi_status Panicked cell =
     (PTYX_STATUS_NATIVE_ERROR,
      set_last_error (PtyxError_new NativeError ''panic crossed native boundary'') cell)"

lemma ffi_status_ok_iff:
  "fst (ffi_status r cell) = PTYX_STATUS_OK \<longleftrightarrow> r = Finished (Inr ())"
  by (cases "(r, cell)" rule: ffi_status.cases)
    (auto simp: status_for_error_kind_not_ok abi_consts)

lemma ffi_status_cell_ok: "fst (ffi_status r cell) = PTYX_STATUS_OK \<Longrightarrow> snd (ffi_status r cell) = None"
  by (simp add: ffi_status_ok_iff clear_last_error_def)



text \<open>
  The status numbering is unambiguous: different error kinds have different statuses, none of
  them is \<open>PTYX_STATUS_OK\<close>, and every status an error can produce has a name of its own
  (never \<open>UNKNOWN\<close>), so a caller can recover the kind from the name.
\<close>

theorem status_codes_unambiguous:
  "inj status_for_error_kind
   \<and> PTYX_STATUS_OK \<notin> range status_for_error_kind
   \<and> inj (status_string \<circ> status_for_error_kind)
   \<and> ''UNKNOWN'' \<notin> range (status_string \<circ> status_for_error_kind)
   \<and> (\<forall>k. status_string (status_for_error_kind k) \<noteq> status_string PTYX_STATUS_OK)"
proof -
  have names: "status_string (status_for_error_kind k) = status_string (status_for_error_kind k')
      \<Longrightarrow> k = k'" for k k'
    by (cases k; cases k'; simp add: status_string_def abi_consts)
  moreover have "status_string (status_for_error_kind k) \<noteq> ''UNKNOWN''
      \<and> status_string (status_for_error_kind k) \<noteq> ''OK''" for k
    by (cases k) (simp_all add: status_string_def abi_consts)
  moreover have "status_string PTYX_STATUS_OK = ''OK''"
    by (simp add: status_string_def)
  ultimately show ?thesis
    by (auto simp: inj_def status_for_error_kind_inj status_for_error_kind_not_ok [symmetric]
        dest: sym)
qed

end
