(* ===== verification/DartApi.thy ===== *)
theory DartApi
  imports Errors
begin

text \<open>
  The Dart native API bindings of \<open>native/src/dart_api.rs\<close>. A C string pointer is the text it
  points to, and a data pointer the bytes it points to; lengths are separate fields, as in the C
  structs. The Dart VM itself is a parameter: \<open>Dart_InitializeApiDL\<close> is a function from the
  data pointer to its return code and the \<open>Dart_PostCObject_DL\<close> it installs, and posting
  answers from everything posted before.
\<close>

type_synonym DartPort = i64

datatype DartApiError =
    NullInitializeData
  | InitializeFailed i64

datatype DartValue =
    Int64 i64
  | String string
  | TypedData "u8 list" usize
  | ExternalTypedData "u8 list" usize nat \<comment> \<open>data, length, peer\<close>

definition length_fits_dart :: "DartValue \<Rightarrow> bool" where
  "length_fits_dart v =
    (case v of
       TypedData _ len \<Rightarrow> unat len < 2 ^ 63
     | ExternalTypedData _ len _ \<Rightarrow> unat len < 2 ^ 63
     | Int64 _ \<Rightarrow> True
     | String _ \<Rightarrow> True)"

section \<open>C objects\<close>

text \<open>
  \<open>DartCObject\<close> is a tag and an untagged union. A constructor of \<open>DartCObjectValue\<close> is the
  union's field that was written last.
\<close>

datatype DartCObjectType =
    T_Int64
  | T_String
  | T_Array
  | T_TypedData
  | T_UnmodifiableExternalTypedData

datatype DartTypedDataType = Uint8

datatype 'obj DartCObjectValue =
    As_int64 i64
  | As_string string
  | As_array i64 "'obj list"
  | As_typed_data DartTypedDataType i64 "u8 list"
  | As_external_typed_data DartTypedDataType i64 "u8 list" nat

datatype DartCObject = DartCObject (object_type: DartCObjectType) (object_value: "DartCObject DartCObjectValue")

fun object_type_tag :: "DartCObjectType \<Rightarrow> nat" where
  "object_type_tag T_Int64 = 3"
| "object_type_tag T_String = 5"
| "object_type_tag T_Array = 6"
| "object_type_tag T_TypedData = 7"
| "object_type_tag T_UnmodifiableExternalTypedData = 13"

fun cobject_from_value :: "DartValue \<Rightarrow> DartCObject" where
  "cobject_from_value (Int64 v) = DartCObject T_Int64 (As_int64 v)"
| "cobject_from_value (String s) = DartCObject T_String (As_string s)"
| "cobject_from_value (TypedData d len) = DartCObject T_TypedData (As_typed_data Uint8 len d)"
| "cobject_from_value (ExternalTypedData d len p) =
     DartCObject T_UnmodifiableExternalTypedData (As_external_typed_data Uint8 len d p)"

definition cobject_array :: "DartCObject list \<Rightarrow> i64 \<Rightarrow> DartCObject" where
  "cobject_array vs len = DartCObject T_Array (As_array len vs)"

section \<open>Posting\<close>

type_synonym dart_log = "(DartPort \<times> DartCObject \<times> bool) list"
type_synonym dart_post = "dart_log \<Rightarrow> DartPort \<Rightarrow> DartCObject \<Rightarrow> bool"

record dart_vm =
  dart_initialized :: bool
  dl_post :: "dart_post option" \<comment> \<open>\<open>Dart_PostCObject_DL\<close>\<close>
  dl_log :: dart_log \<comment> \<open>the posts so far and their answers\<close>

definition dart_init ::
    "(u64 \<Rightarrow> i64 \<times> dart_post option) \<Rightarrow> u64 \<Rightarrow> dart_vm \<Rightarrow> (DartApiError + unit) \<times> dart_vm" where
  "dart_init Dart_InitializeApiDL data vm =
    (if data = 0 then (Inl NullInitializeData, vm)
     else
       let (rc, post) = Dart_InitializeApiDL data; vm' = vm\<lparr>dl_post := post\<rparr> in
       if rc \<noteq> 0 then (Inl (InitializeFailed rc), vm')
       else (Inr (), vm'\<lparr>dart_initialized := True\<rparr>))"

definition is_initialized :: "dart_vm \<Rightarrow> bool" where
  "is_initialized vm = dart_initialized vm"

definition post_cobject :: "DartPort \<Rightarrow> DartCObject \<Rightarrow> dart_vm \<Rightarrow> bool \<times> dart_vm" where
  "post_cobject port obj vm =
    (case dl_post vm of
       None \<Rightarrow> (False, vm)
     | Some post \<Rightarrow>
         let answer = post (dl_log vm) port obj in
         (answer, vm\<lparr>dl_log := dl_log vm @ [(port, obj, answer)]\<rparr>))"

definition post_array :: "DartPort \<Rightarrow> DartValue list \<Rightarrow> dart_vm \<Rightarrow> bool \<times> dart_vm" where
  "post_array port vs vm =
    (if list_ex (\<lambda>v. \<not> length_fits_dart v) vs then (False, vm)
     else
       let objects = map cobject_from_value vs in
       post_cobject port (cobject_array objects (of_nat (length vs))) vm)"

section \<open>What the receiver reads\<close>

text \<open>
  The receiver dispatches on the tag and reads the union's field for it; reading a field that was
  not written has no value. Signed lengths must not be negative, an array has as many elements as
  its length says, and the data has at least as many bytes.
\<close>

fun read_scalar :: "DartCObject \<Rightarrow> DartValue option" where
  "read_scalar (DartCObject T_Int64 (As_int64 v)) = Some (Int64 v)"
| "read_scalar (DartCObject T_String (As_string s)) = Some (String s)"
| "read_scalar (DartCObject T_TypedData (As_typed_data Uint8 len d)) =
     (if 0 \<le> sint len \<and> unat len \<le> length d then Some (TypedData d len) else None)"
| "read_scalar (DartCObject T_UnmodifiableExternalTypedData (As_external_typed_data Uint8 len d p)) =
     (if 0 \<le> sint len \<and> unat len \<le> length d then Some (ExternalTypedData d len p) else None)"
| "read_scalar _ = None"

fun read_all :: "DartCObject list \<Rightarrow> DartValue list option" where
  "read_all [] = Some []"
| "read_all (obj # objs) =
     (case read_scalar obj of
        None \<Rightarrow> None
      | Some v \<Rightarrow> map_option (\<lambda>vs. v # vs) (read_all objs))"

fun read_array :: "DartCObject \<Rightarrow> DartValue list option" where
  "read_array (DartCObject T_Array (As_array len objs)) =
     (if 0 \<le> sint len \<and> unat len = length objs then read_all objs else None)"
| "read_array _ = None"

text \<open>A value whose pointer is good for its length.\<close>

fun backed :: "DartValue \<Rightarrow> bool" where
  "backed (TypedData d len) = (unat len \<le> length d)"
| "backed (ExternalTypedData d len p) = (unat len \<le> length d)"
| "backed _ = True"

lemma sint_nonneg_iff: "0 \<le> sint w \<longleftrightarrow> unat w < 2 ^ 63" for w :: "64 word"
proof
  assume "unat w < 2 ^ 63"
  then show "0 \<le> sint w" by (simp add: sint_small)
next
  assume "0 \<le> sint w"
  then have top: "\<not> bit (uint w) 63"
    by (simp add: sint_uint signed_take_bit_nonnegative_iff)
  have "uint w = take_bit (Suc 63) (uint w)"
    using uint_bounded [of w] by (simp add: take_bit_int_eq_self)
  also have "\<dots> = take_bit 63 (uint w)"
    using top by (simp only: take_bit_Suc_from_most) simp
  also have "\<dots> = sint w"
    using top by (simp add: sint_uint signed_take_bit_eq_if_positive)
  finally have "uint w = sint w" .
  moreover have "sint w < 2 ^ 63"
    using sint_lt [of w] by simp
  ultimately have "int (unat w) < 2 ^ 63" by simp
  then show "unat w < 2 ^ 63" by (simp only: of_nat_less_numeral_power_cancel_iff)
qed

lemma read_scalar_from_value:
  "length_fits_dart v \<Longrightarrow> backed v \<Longrightarrow> read_scalar (cobject_from_value v) = Some v"
  by (cases v) (simp_all add: length_fits_dart_def sint_nonneg_iff)

lemma read_all_map:
  "list_all length_fits_dart vs \<Longrightarrow> list_all backed vs \<Longrightarrow>
   read_all (map cobject_from_value vs) = Some vs"
  by (induction vs) (simp_all add: read_scalar_from_value)

lemma not_list_ex_iff: "\<not> list_ex (\<lambda>v. \<not> P v) vs \<longleftrightarrow> list_all P vs"
  by (induction vs) auto

text \<open>
  C35. The C objects are well typed. Whatever the code posts to the Dart VM, a receiver that
  dispatches on the tags reads back exactly the values that were posted: the tag of every object,
  the outer array's included, names the union field that was written, no length is negative as a
  signed C length, and the array length is the number of its elements. Values whose length would
  not fit are refused and nothing is posted.
\<close>

theorem posted_objects_read_back:
  assumes "list_all backed vs" "length vs < 2 ^ 63" "post_array port vs vm = (answer, vm')"
  shows "if list_all length_fits_dart vs
    then (\<exists>obj. read_array obj = Some vs
      \<and> (dl_post vm = None \<longrightarrow> \<not> answer \<and> vm' = vm)
      \<and> (dl_post vm \<noteq> None \<longrightarrow> dl_log vm' = dl_log vm @ [(port, obj, answer)]))
    else \<not> answer \<and> vm' = vm"
proof -
  let ?obj = "cobject_array (map cobject_from_value vs) (of_nat (length vs))"
  have "unat (of_nat (length vs) :: i64) = length vs"
    using assms(2) by (simp add: unat_of_nat take_bit_nat_eq_self)
  then have "read_array ?obj = Some vs" if "list_all length_fits_dart vs"
    using that assms(1,2) by (simp add: cobject_array_def sint_nonneg_iff read_all_map)
  then show ?thesis
    using assms(3) not_list_ex_iff [of length_fits_dart vs]
    by (auto simp: post_array_def post_cobject_def Let_def split: option.splits if_splits
        intro!: exI [of _ ?obj])
qed

theorem posted_objects_read_back_witness:
  "\<exists>obj. read_array obj = Some [Int64 1, TypedData [7, 8] 2]
     \<and> dl_log (snd (post_array 5 [Int64 1, TypedData [7, 8] 2]
         \<lparr>dart_initialized = True, dl_post = Some (\<lambda>_ _ _. True), dl_log = []\<rparr>)) = [(5, obj, True)]"
  using posted_objects_read_back [of "[Int64 1, TypedData [7, 8] 2]" 5
      "\<lparr>dart_initialized = True, dl_post = Some (\<lambda>_ _ _. True), dl_log = []\<rparr>"]
  by (simp add: length_fits_dart_def post_array_def post_cobject_def Let_def)

text \<open>The deliveries so far, as the receiver reads them: port, values and answer.\<close>

definition dart_posts :: "dart_vm \<Rightarrow> (DartPort \<times> DartValue list \<times> bool) list" where
  "dart_posts vm =
     List.map_filter (\<lambda>(port, obj, answer). map_option (\<lambda>vs. (port, vs, answer)) (read_array obj))
       (dl_log vm)"

lemma dart_posts_post_array:
  assumes "list_all backed vs" "length vs < 2 ^ 63" "list_all length_fits_dart vs"
    and "post_array port vs vm = (answer, vm')"
  shows "if dl_post vm = None then \<not> answer \<and> vm' = vm
    else dart_posts vm' = dart_posts vm @ [(port, vs, answer)] \<and> dl_post vm' = dl_post vm"
proof -
  let ?obj = "cobject_array (map cobject_from_value vs) (of_nat (length vs))"
  have "unat (of_nat (length vs) :: i64) = length vs"
    using assms(2) by (simp add: unat_of_nat take_bit_nat_eq_self)
  then have "read_array ?obj = Some vs"
    using assms(1,2,3) by (simp add: cobject_array_def sint_nonneg_iff read_all_map)
  then show ?thesis
    using assms(4) assms(3) not_list_ex_iff [of length_fits_dart vs]
    by (auto simp: post_array_def post_cobject_def Let_def dart_posts_def map_filter_def
        split: option.splits)
qed

text \<open>
  Initialisation is all or nothing. \<open>init\<close> reports success exactly for a non-null pointer
  and a zero return code, then and only then the library counts as initialised from then on, and a
  null pointer never reaches the Dart VM.
\<close>

theorem dart_init_sound:
  "(fst (dart_init api data vm) = Inr () \<longleftrightarrow> data \<noteq> 0 \<and> fst (api data) = 0)
   \<and> (is_initialized (snd (dart_init api data vm))
        \<longleftrightarrow> is_initialized vm \<or> fst (dart_init api data vm) = Inr ())
   \<and> dl_log (snd (dart_init api data vm)) = dl_log vm
   \<and> snd (dart_init api 0 vm) = vm"
  by (auto simp: dart_init_def is_initialized_def Let_def split: prod.splits)

end
