(* ===== verification/Message.thy ===== *)
theory Message
  imports Status DartApi
begin

text \<open>
  Message shapes: \<open>native/src/message.rs\<close>, \<open>native/src/term_mode.rs\<close> and the terminal mode
  struct of \<open>native/src/abi.rs\<close>. The state is the Dart VM, the counter of external output bytes
  and the heap of \<open>ExternalOutputPeer\<close> boxes by address (0 is null). What a receiver makes of the
  messages is \<open>output_message\<close> and \<open>event_of\<close>, which read the shapes back.
\<close>

section \<open>Constants\<close>

definition PTYX_MESSAGE_OUTPUT :: i64 where [abi_consts]: "PTYX_MESSAGE_OUTPUT = 1"
definition PTYX_MESSAGE_CLOSED :: i64 where [abi_consts]: "PTYX_MESSAGE_CLOSED = 2"
definition PTYX_EVENT_EXIT :: i64 where [abi_consts]: "PTYX_EVENT_EXIT = 1"
definition PTYX_EVENT_ERROR :: i64 where [abi_consts]: "PTYX_EVENT_ERROR = 2"
definition PTYX_EVENT_TERM_MODE :: i64 where [abi_consts]: "PTYX_EVENT_TERM_MODE = 3"
definition PTYX_ERROR_SOURCE_OUTPUT :: i64 where [abi_consts]: "PTYX_ERROR_SOURCE_OUTPUT = 1"
definition PTYX_ERROR_SOURCE_WRITE :: i64 where [abi_consts]: "PTYX_ERROR_SOURCE_WRITE = 2"
definition PTYX_ERROR_SOURCE_WAIT :: i64 where [abi_consts]: "PTYX_ERROR_SOURCE_WAIT = 3"
definition PTYX_ERROR_SOURCE_MODE :: i64 where [abi_consts]: "PTYX_ERROR_SOURCE_MODE = 4"
definition PTYX_TERM_MODE_CANONICAL_VALID :: u32 where [abi_consts]: "PTYX_TERM_MODE_CANONICAL_VALID = push_bit 0 1"
definition PTYX_TERM_MODE_ECHO_VALID :: u32 where [abi_consts]: "PTYX_TERM_MODE_ECHO_VALID = push_bit 1 1"
definition PTYX_TERM_MODE_SIGNALS_VALID :: u32 where [abi_consts]: "PTYX_TERM_MODE_SIGNALS_VALID = push_bit 2 1"

section \<open>Terminal modes\<close>

record TermMode =
  tm_canonical :: "bool option"
  tm_echo :: "bool option"
  tm_signals :: "bool option"

record ptyx_term_mode_t =
  valid_fields :: u32
  canonical :: bool
  echo :: bool
  signals :: bool

text \<open>
  The local flags of the terminal that the snapshot looks at. \<open>get_termios\<close> may have no answer.
\<close>

record local_flags =
  ICANON :: bool
  ECHO :: bool
  ISIG :: bool

definition term_mode_snapshot :: "local_flags option mutex \<Rightarrow> PtyxError + TermMode" where
  "term_mode_snapshot master =
     and_then (lock (PtyxError_new Error ''master lock poisoned'') master) (\<lambda>termios.
     and_then (ok_or (PtyxError_new Unsupported ''terminal mode unavailable'') termios) (\<lambda>flags.
     Inr \<lparr>tm_canonical = Some (ICANON flags), tm_echo = Some (ECHO flags), tm_signals = Some (ISIG flags)\<rparr>))"

definition term_mode_valid_fields :: "TermMode \<Rightarrow> u32" where
  "term_mode_valid_fields mode =
    (let fields = 0;
         fields = (if tm_canonical mode \<noteq> None then fields OR PTYX_TERM_MODE_CANONICAL_VALID else fields);
         fields = (if tm_echo mode \<noteq> None then fields OR PTYX_TERM_MODE_ECHO_VALID else fields)
     in if tm_signals mode \<noteq> None then fields OR PTYX_TERM_MODE_SIGNALS_VALID else fields)"

definition unwrap_or :: "'a \<Rightarrow> 'a option \<Rightarrow> 'a" where
  "unwrap_or d x = (case x of None \<Rightarrow> d | Some a \<Rightarrow> a)"

definition ptyx_term_mode_from :: "TermMode \<Rightarrow> ptyx_term_mode_t" where
  "ptyx_term_mode_from mode =
     \<lparr>valid_fields = term_mode_valid_fields mode,
      canonical = unwrap_or False (tm_canonical mode),
      echo = unwrap_or False (tm_echo mode),
      signals = unwrap_or False (tm_signals mode)\<rparr>"

definition write_term_mode ::
    "ptyx_term_mode_t option \<Rightarrow> TermMode \<Rightarrow> (PtyxError + unit) \<times> ptyx_term_mode_t option" where
  "write_term_mode out_mode mode =
    (case out_mode of
       None \<Rightarrow> (Inl (PtyxError_new InvalidArgument ''out_mode must not be null''), None)
     | Some _ \<Rightarrow> (Inr (), Some (ptyx_term_mode_from mode)))"

text \<open>How a caller reads the struct: a field counts only when its validity bit is set.\<close>

definition read_term_mode :: "u32 \<Rightarrow> bool \<Rightarrow> bool \<Rightarrow> bool \<Rightarrow> TermMode" where
  "read_term_mode valid c e sg =
     \<lparr>tm_canonical = (if bit valid 0 then Some c else None),
      tm_echo = (if bit valid 1 then Some e else None),
      tm_signals = (if bit valid 2 then Some sg else None)\<rparr>"

lemma bit_valid_fields:
  "bit (term_mode_valid_fields mode) 0 \<longleftrightarrow> tm_canonical mode \<noteq> None"
  "bit (term_mode_valid_fields mode) 1 \<longleftrightarrow> tm_echo mode \<noteq> None"
  "bit (term_mode_valid_fields mode) 2 \<longleftrightarrow> tm_signals mode \<noteq> None"
  by (auto simp: term_mode_valid_fields_def Let_def abi_consts bit_simps)

lemma read_term_mode_from:
  "read_term_mode (valid_fields (ptyx_term_mode_from mode)) (canonical (ptyx_term_mode_from mode))
     (echo (ptyx_term_mode_from mode)) (signals (ptyx_term_mode_from mode)) = mode"
  using bit_valid_fields [of mode]
  by (cases "tm_canonical mode"; cases "tm_echo mode"; cases "tm_signals mode")
    (simp_all add: read_term_mode_def ptyx_term_mode_from_def unwrap_or_def)

section \<open>Posting messages\<close>

datatype ErrorSource = Output | Write | Wait | Mode

record message_state =
  msg_vm :: dart_vm
  external_bytes :: usize
  peers :: "nat \<Rightarrow> u8 list option"
  next_peer :: nat

definition post_message :: "DartPort \<Rightarrow> DartValue list \<Rightarrow> 'z message_state_scheme \<Rightarrow> bool \<times> 'z message_state_scheme" where
  "post_message port vs s = (case post_array port vs (msg_vm s) of (b, vm) \<Rightarrow> (b, s\<lparr>msg_vm := vm\<rparr>))"

definition post_output_copied ::
    "DartPort \<Rightarrow> u8 list \<Rightarrow> usize \<Rightarrow> 'z message_state_scheme \<Rightarrow> bool \<times> 'z message_state_scheme" where
  "post_output_copied port data len s = post_message port [Int64 PTYX_MESSAGE_OUTPUT, TypedData data len] s"

text \<open>Dropping a peer's box takes its bytes off the counter, with \<open>fetch_sub\<close>'s wrap-around.\<close>

definition drop_peer :: "nat \<Rightarrow> 'z message_state_scheme \<Rightarrow> 'z message_state_scheme" where
  "drop_peer peer s =
    (case peers s peer of
       None \<Rightarrow> s
     | Some bytes \<Rightarrow> s\<lparr>external_bytes := external_bytes s - vec_len bytes, peers := (peers s)(peer := None)\<rparr>)"

definition external_output_finalizer :: "nat \<Rightarrow> 'z message_state_scheme \<Rightarrow> 'z message_state_scheme" where
  "external_output_finalizer peer s = (if peer = 0 then s else drop_peer peer s)"

definition post_output_external ::
    "DartPort \<Rightarrow> u8 list \<Rightarrow> 'z message_state_scheme \<Rightarrow> bool \<times> 'z message_state_scheme" where
  "post_output_external port bytes s =
    (let peer = next_peer s;
         s1 = s\<lparr>peers := (peers s)(peer \<mapsto> bytes), next_peer := Suc peer\<rparr> in
     case post_message port [Int64 PTYX_MESSAGE_OUTPUT, ExternalTypedData bytes (vec_len bytes) peer] s1 of
       (True, s2) \<Rightarrow> (True, s2)
     | (False, s2) \<Rightarrow> (False, drop_peer peer s2))"

definition post_output_closed :: "DartPort \<Rightarrow> 'z message_state_scheme \<Rightarrow> bool \<times> 'z message_state_scheme" where
  "post_output_closed port s = post_message port [Int64 PTYX_MESSAGE_CLOSED] s"

definition post_exit :: "DartPort \<Rightarrow> i32 \<Rightarrow> 'z message_state_scheme \<Rightarrow> bool \<times> 'z message_state_scheme" where
  "post_exit port exit_code s = post_message port [Int64 PTYX_EVENT_EXIT, Int64 (scast exit_code)] s"

fun error_source_value :: "ErrorSource \<Rightarrow> i64" where
  "error_source_value Output = PTYX_ERROR_SOURCE_OUTPUT"
| "error_source_value Write = PTYX_ERROR_SOURCE_WRITE"
| "error_source_value Wait = PTYX_ERROR_SOURCE_WAIT"
| "error_source_value Mode = PTYX_ERROR_SOURCE_MODE"

definition post_error_message ::
    "DartPort \<Rightarrow> i64 \<Rightarrow> i64 \<Rightarrow> string option \<Rightarrow> 'z message_state_scheme \<Rightarrow> bool \<times> 'z message_state_scheme" where
  "post_error_message port source status message s =
     post_message port
       [Int64 PTYX_EVENT_ERROR, Int64 source, Int64 status,
        String (case message of None \<Rightarrow> [] | Some m \<Rightarrow> m)] s"

definition post_error ::
    "DartPort \<Rightarrow> ErrorSource \<Rightarrow> PtyxError \<Rightarrow> 'z message_state_scheme \<Rightarrow> bool \<times> 'z message_state_scheme" where
  "post_error port source error s =
    (let status = status_for_error_kind (err_kind error);
         message = cstring_or ''error'' (err_message error) in
     post_error_message port (error_source_value source) (ucast status) (Some message) s)"

definition post_term_mode :: "DartPort \<Rightarrow> TermMode \<Rightarrow> 'z message_state_scheme \<Rightarrow> bool \<times> 'z message_state_scheme" where
  "post_term_mode port mode s =
    (let m = ptyx_term_mode_from mode in
     post_message port
       [Int64 PTYX_EVENT_TERM_MODE, Int64 (ucast (valid_fields m)), Int64 (of_bool (canonical m)),
        Int64 (of_bool (echo m)), Int64 (of_bool (signals m))] s)"

section \<open>What the receiver makes of them\<close>

datatype out_message = Chunk "u8 list" | End_of_output

fun output_message :: "DartValue list \<Rightarrow> out_message option" where
  "output_message [Int64 t] = (if t = PTYX_MESSAGE_CLOSED then Some End_of_output else None)"
| "output_message [Int64 t, TypedData d len] =
     (if t = PTYX_MESSAGE_OUTPUT then Some (Chunk (take (unat len) d)) else None)"
| "output_message [Int64 t, ExternalTypedData d len p] =
     (if t = PTYX_MESSAGE_OUTPUT then Some (Chunk (take (unat len) d)) else None)"
| "output_message _ = None"

datatype event_message =
    Exited i32
  | Failed i64 u32 string \<comment> \<open>source, status, text\<close>
  | Mode_changed TermMode

fun event_of :: "DartValue list \<Rightarrow> event_message option" where
  "event_of [Int64 t, Int64 code] =
     (if t = PTYX_EVENT_EXIT then Some (Exited (ucast code)) else None)"
| "event_of [Int64 t, Int64 source, Int64 status, String text] =
     (if t = PTYX_EVENT_ERROR then Some (Failed source (ucast status) text) else None)"
| "event_of [Int64 t, Int64 valid, Int64 c, Int64 e, Int64 sg] =
     (if t = PTYX_EVENT_TERM_MODE then
        Some (Mode_changed (read_term_mode (ucast valid) (c \<noteq> 0) (e \<noteq> 0) (sg \<noteq> 0)))
      else None)"
| "event_of _ = None"

text \<open>The output messages of a port, with the answers to their posts.\<close>

definition port_posts :: "DartPort \<Rightarrow> 'z message_state_scheme \<Rightarrow> (DartValue list \<times> bool) list" where
  "port_posts port s =
     List.map_filter (\<lambda>(p, vs, answer). if p = port then Some (vs, answer) else None) (dart_posts (msg_vm s))"

definition output_log :: "DartPort \<Rightarrow> 'z message_state_scheme \<Rightarrow> (out_message \<times> bool) list" where
  "output_log port s =
     List.map_filter (\<lambda>(vs, answer). map_option (\<lambda>m. (m, answer)) (output_message vs)) (port_posts port s)"

definition linked :: "'z message_state_scheme \<Rightarrow> bool" where
  "linked s \<longleftrightarrow> dl_post (msg_vm s) \<noteq> None"

definition sendable :: "DartValue list \<Rightarrow> bool" where
  "sendable vs \<longleftrightarrow> list_all backed vs \<and> list_all length_fits_dart vs \<and> length vs < 2 ^ 63"

lemma post_message_cases:
  assumes "sendable vs" "post_message port vs s = (answer, s')"
  obtains (sent) vm where "linked s" "s' = s\<lparr>msg_vm := vm\<rparr>" "dl_post vm = dl_post (msg_vm s)"
      "dart_posts vm = dart_posts (msg_vm s) @ [(port, vs, answer)]"
  | (unlinked) "\<not> linked s" "\<not> answer" "s' = s"
proof -
  obtain b vm where post: "post_array port vs (msg_vm s) = (b, vm)" by fastforce
  then have b: "answer = b" "s' = s\<lparr>msg_vm := vm\<rparr>"
    using assms(2) by (simp_all add: post_message_def)
  note posts = dart_posts_post_array [OF _ _ _ post]
  show thesis
  proof (cases "dl_post (msg_vm s)")
    case None
    then have "s' = s" "\<not> answer"
      using b posts assms(1) by (simp_all add: sendable_def)
    with None show thesis by (intro unlinked) (simp_all add: linked_def)
  next
    case (Some post)
    with b posts assms(1) show thesis
      by (intro sent [of vm]) (simp_all add: linked_def sendable_def)
  qed
qed

lemma port_posts_append:
  assumes "s' = s\<lparr>msg_vm := vm\<rparr>" "dart_posts vm = dart_posts (msg_vm s) @ [(port, vs, answer)]"
  shows "port_posts p s' = port_posts p s @ (if p = port then [(vs, answer)] else [])"
  using assms by (simp add: port_posts_def map_filter_def)

lemma post_message_port_posts:
  assumes "sendable vs" "linked s"
  shows "port_posts p (snd (post_message port vs s))
      = port_posts p s @ (if p = port then [(vs, fst (post_message port vs s))] else [])"
proof -
  obtain answer s' where post: "post_message port vs s = (answer, s')" by fastforce
  from assms(1) post show ?thesis
  proof (cases rule: post_message_cases)
    case (sent vm)
    show ?thesis using port_posts_append [OF sent(2,4), of p] post by simp
  qed (use assms in simp)
qed

lemma sendable_simps [simp]:
  "sendable [Int64 a]" "sendable [Int64 a, Int64 b]"
  "sendable [Int64 a, Int64 b, Int64 c, String t]" "sendable [Int64 a, Int64 b, Int64 c, Int64 d, Int64 e]"
  by (simp_all add: sendable_def length_fits_dart_def)

lemma sendable_data:
  "vec_fits d \<Longrightarrow> sendable [Int64 t, TypedData d (vec_len d)]"
  "vec_fits d \<Longrightarrow> sendable [Int64 t, ExternalTypedData d (vec_len d) p]"
  by (simp_all add: sendable_def length_fits_dart_def unat_vec_len) (simp_all add: vec_fits_def)

lemma ucast_scast_i32 [simp]: "ucast (scast (w :: i32) :: i64) = w"
  by (rule bit_word_eqI) (auto simp: bit_simps)

lemma ucast_ucast_u32 [simp]: "ucast (ucast (w :: u32) :: i64) = w"
  by (rule bit_word_eqI) (auto simp: bit_simps)

lemma error_source_value_inj: "error_source_value a = error_source_value b \<longleftrightarrow> a = b"
  by (cases a; cases b) (simp_all add: abi_consts)

text \<open>Each event is one message of its port, read back as itself.\<close>

lemma exit_message:
  "linked s \<Longrightarrow> \<exists>vs. event_of vs = Some (Exited code) \<and>
     (\<forall>p. port_posts p (snd (post_exit port code s))
       = port_posts p s @ (if p = port then [(vs, fst (post_exit port code s))] else []))"
  by (rule exI [of _ "[Int64 PTYX_EVENT_EXIT, Int64 (scast code)]"])
    (simp add: post_exit_def post_message_port_posts)

lemma error_message:
  "linked s \<Longrightarrow> \<exists>vs. event_of vs = Some (Failed (error_source_value source)
       (status_for_error_kind (err_kind error)) (cstring_or ''error'' (err_message error))) \<and>
     (\<forall>p. port_posts p (snd (post_error port source error s))
       = port_posts p s @ (if p = port then [(vs, fst (post_error port source error s))] else []))"
  by (rule exI [of _ "[Int64 PTYX_EVENT_ERROR, Int64 (error_source_value source),
        Int64 (ucast (status_for_error_kind (err_kind error))),
        String (cstring_or ''error'' (err_message error))]"])
    (simp add: post_error_def post_error_message_def post_message_port_posts)

lemma mode_message:
  assumes "linked s"
  shows "\<exists>vs. event_of vs = Some (Mode_changed mode) \<and>
     (\<forall>p. port_posts p (snd (post_term_mode port mode s))
       = port_posts p s @ (if p = port then [(vs, fst (post_term_mode port mode s))] else []))"
proof -
  have flags: "read_term_mode (valid_fields (ptyx_term_mode_from mode))
      (of_bool (canonical (ptyx_term_mode_from mode)) \<noteq> (0::i64))
      (of_bool (echo (ptyx_term_mode_from mode)) \<noteq> (0::i64))
      (of_bool (signals (ptyx_term_mode_from mode)) \<noteq> (0::i64)) = mode"
    using read_term_mode_from [of mode] by simp
  show ?thesis
    by (rule exI [of _ "[Int64 PTYX_EVENT_TERM_MODE, Int64 (ucast (valid_fields (ptyx_term_mode_from mode))),
          Int64 (of_bool (canonical (ptyx_term_mode_from mode))),
          Int64 (of_bool (echo (ptyx_term_mode_from mode))),
          Int64 (of_bool (signals (ptyx_term_mode_from mode)))]"])
      (simp only: post_term_mode_def Let_def post_message_port_posts assms sendable_simps
        event_of.simps ucast_ucast_u32 flags if_True simp_thms)
qed

lemma linked_post_message [simp]: "linked (snd (post_message port vs s)) = linked s"
  by (auto simp: linked_def post_message_def post_array_def post_cobject_def Let_def
      split: option.splits prod.splits)

lemma linked_posts [simp]:
  "linked (snd (post_exit port code s)) = linked s"
  "linked (snd (post_error port source error s)) = linked s"
  "linked (snd (post_term_mode port mode s)) = linked s"
  by (simp_all add: post_exit_def post_error_def post_error_message_def post_term_mode_def Let_def)

text \<open>The events of a port, with the answers to their posts.\<close>

definition event_log :: "DartPort \<Rightarrow> 'z message_state_scheme \<Rightarrow> (event_message \<times> bool) list" where
  "event_log port s =
     List.map_filter (\<lambda>(vs, answer). map_option (\<lambda>m. (m, answer)) (event_of vs)) (port_posts port s)"

lemma event_log_posts:
  assumes "linked s"
  shows "event_log port (snd (post_exit port code s)) =
      event_log port s @ [(Exited code, fst (post_exit port code s))]"
    "event_log port (snd (post_error port source error s)) =
      event_log port s @ [(Failed (error_source_value source) (status_for_error_kind (err_kind error))
        (cstring_or ''error'' (err_message error)), fst (post_error port source error s))]"
    "event_log port (snd (post_term_mode port mode s)) =
      event_log port s @ [(Mode_changed mode, fst (post_term_mode port mode s))]"
  using exit_message [OF assms, of code port] error_message [OF assms, of source error port]
    mode_message [OF assms, of mode port]
  by (auto simp: event_log_def map_filter_def)

text \<open>
  C36. Events survive the wire. An exit code, an error (its source, its status, and its text, or the
  text \<open>error\<close> where it has an interior NUL) and a terminal mode are each posted as one message on
  the given port and nowhere else, and the receiver reads back exactly the same event: exit codes
  keep their sign, sources and kinds stay distinguishable, an unknown mode field stays unknown.
\<close>

theorem events_read_back:
  fixes s :: message_state
  assumes "linked s"
  shows "(\<exists>vs. event_of vs = Some (Exited code) \<and>
        (\<forall>p. port_posts p (snd (post_exit port code s))
          = port_posts p s @ (if p = port then [(vs, fst (post_exit port code s))] else [])))
    \<and> (\<exists>vs. event_of vs = Some (Failed (error_source_value source)
            (status_for_error_kind (err_kind error)) (cstring_or ''error'' (err_message error))) \<and>
        (\<forall>p. port_posts p (snd (post_error port source error s))
          = port_posts p s @ (if p = port then [(vs, fst (post_error port source error s))] else [])))
    \<and> (\<exists>vs. event_of vs = Some (Mode_changed mode) \<and>
        (\<forall>p. port_posts p (snd (post_term_mode port mode s))
          = port_posts p s @ (if p = port then [(vs, fst (post_term_mode port mode s))] else [])))"
  by (intro conjI exit_message error_message mode_message assms)

theorem events_read_back_witness:
  "\<exists>vs b. event_of vs = Some (Exited (- 1)) \<and>
     port_posts 9 (snd (post_exit 9 (- 1)
       \<lparr>msg_vm = \<lparr>dart_initialized = True, dl_post = Some (\<lambda>_ _ _. True), dl_log = []\<rparr>,
        external_bytes = 0, peers = (\<lambda>_. None), next_peer = 1\<rparr>)) = [(vs, b)]"
  using events_read_back
      [of "\<lparr>msg_vm = \<lparr>dart_initialized = True, dl_post = Some (\<lambda>_ _ _. True), dl_log = []\<rparr>,
        external_bytes = 0, peers = (\<lambda>_. None), next_peer = 1\<rparr>" "- 1" 9 Wait
        "PtyxError_new Error []" "\<lparr>tm_canonical = None, tm_echo = None, tm_signals = None\<rparr>"]
  by (simp add: linked_def) (auto simp: port_posts_def dart_posts_def map_filter_def)

end
