(* ===== verification/Utf8.thy ===== *)
theory Utf8
  imports Errors
begin

text \<open>
  What the code uses of \<open>String::from_utf8\<close>: the UTF-8 validation of the standard library, which
  reports the index of the first invalid sequence and its length (\<open>None\<close> when the input ends
  inside a sequence), and the text its error prints.
\<close>

definition utf8_cont :: "u8 \<Rightarrow> bool" where
  "utf8_cont b \<longleftrightarrow> 0x80 \<le> b \<and> b \<le> 0xBF"

definition utf8_char_width :: "u8 \<Rightarrow> nat" where
  "utf8_char_width a =
    (if a \<le> 0x7F then 1
     else if 0xC2 \<le> a \<and> a \<le> 0xDF then 2
     else if 0xE0 \<le> a \<and> a \<le> 0xEF then 3
     else if 0xF0 \<le> a \<and> a \<le> 0xF4 then 4
     else 0)"

definition utf8_second_of_3 :: "u8 \<Rightarrow> u8 \<Rightarrow> bool" where
  "utf8_second_of_3 a b \<longleftrightarrow>
     a = 0xE0 \<and> 0xA0 \<le> b \<and> b \<le> 0xBF
   \<or> 0xE1 \<le> a \<and> a \<le> 0xEC \<and> utf8_cont b
   \<or> a = 0xED \<and> 0x80 \<le> b \<and> b \<le> 0x9F
   \<or> 0xEE \<le> a \<and> a \<le> 0xEF \<and> utf8_cont b"

definition utf8_second_of_4 :: "u8 \<Rightarrow> u8 \<Rightarrow> bool" where
  "utf8_second_of_4 a b \<longleftrightarrow>
     a = 0xF0 \<and> 0x90 \<le> b \<and> b \<le> 0xBF
   \<or> 0xF1 \<le> a \<and> a \<le> 0xF3 \<and> utf8_cont b
   \<or> a = 0xF4 \<and> 0x80 \<le> b \<and> b \<le> 0x8F"

text \<open>
  One character at the front of the input: \<open>Inr rest\<close> after a well-formed one, or the length of
  the invalid sequence.
\<close>

definition utf8_next :: "u8 \<Rightarrow> u8 list \<Rightarrow> nat option + u8 list" where
  "utf8_next a bs =
    (if utf8_char_width a = 1 then Inr bs
     else if utf8_char_width a = 2 then
       (case bs of [] \<Rightarrow> Inl None
        | b # bs' \<Rightarrow> if utf8_cont b then Inr bs' else Inl (Some 1))
     else if utf8_char_width a = 3 then
       (case bs of [] \<Rightarrow> Inl None
        | b # bs' \<Rightarrow> if \<not> utf8_second_of_3 a b then Inl (Some 1)
          else (case bs' of [] \<Rightarrow> Inl None
                | c # bs'' \<Rightarrow> if utf8_cont c then Inr bs'' else Inl (Some 2)))
     else if utf8_char_width a = 4 then
       (case bs of [] \<Rightarrow> Inl None
        | b # bs' \<Rightarrow> if \<not> utf8_second_of_4 a b then Inl (Some 1)
          else (case bs' of [] \<Rightarrow> Inl None
                | c # bs'' \<Rightarrow> if \<not> utf8_cont c then Inl (Some 2)
                  else (case bs'' of [] \<Rightarrow> Inl None
                        | d # bs''' \<Rightarrow> if utf8_cont d then Inr bs''' else Inl (Some 3))))
     else Inl (Some 1))"

lemma utf8_next_shorter: "utf8_next a bs = Inr rest \<Longrightarrow> length rest \<le> length bs"
  by (auto simp: utf8_next_def split: if_splits list.splits)

function utf8_error :: "nat \<Rightarrow> u8 list \<Rightarrow> (nat \<times> nat option) option" where
  "utf8_error i [] = None"
| "utf8_error i (a # bs) =
     (case utf8_next a bs of
        Inl n \<Rightarrow> Some (i, n)
      | Inr rest \<Rightarrow> utf8_error (i + (Suc (length bs) - length rest)) rest)"
  by pat_completeness auto
termination
  by (relation "measure (\<lambda>(i, bs). length bs)") (auto dest: utf8_next_shorter)

definition utf8_error_text :: "nat \<times> nat option \<Rightarrow> string" where
  "utf8_error_text e =
    (case snd e of
       Some n \<Rightarrow> ''invalid utf-8 sequence of '' @ show_nat n @ '' bytes from index '' @ show_nat (fst e)
     | None \<Rightarrow> ''incomplete utf-8 byte sequence from index '' @ show_nat (fst e))"

definition utf8_valid :: "u8 list \<Rightarrow> bool" where
  "utf8_valid bs \<longleftrightarrow> utf8_error 0 bs = None"

lemma utf8_next_ascii: "a \<le> 0x7F \<Longrightarrow> utf8_next a bs = Inr bs"
  by (simp add: utf8_next_def utf8_char_width_def)

lemma utf8_error_ascii: "\<forall>b \<in> set bs. b \<le> 0x7F \<Longrightarrow> utf8_error i bs = None"
  by (induction bs arbitrary: i) (auto simp: utf8_next_ascii)

lemma utf8_valid_ascii: "\<forall>b \<in> set bs. b \<le> 0x7F \<Longrightarrow> utf8_valid bs"
  by (simp add: utf8_valid_def utf8_error_ascii)

text \<open>
  \<open>to_string_lossy\<close> and \<open>String::from_utf8_lossy\<close>: every invalid sequence becomes U+FFFD.
\<close>

function utf8_lossy :: "u8 list \<Rightarrow> u8 list" where
  "utf8_lossy [] = []"
| "utf8_lossy (a # bs) =
     (case utf8_next a bs of
        Inr rest \<Rightarrow> take (Suc (length bs) - length rest) (a # bs) @ utf8_lossy rest
      | Inl (Some n) \<Rightarrow> [0xEF, 0xBF, 0xBD] @ utf8_lossy (drop (n - 1) bs)
      | Inl None \<Rightarrow> [0xEF, 0xBF, 0xBD])"
  by pat_completeness auto
termination
  by (relation "measure length") (auto dest: utf8_next_shorter)

lemma utf8_next_suffix: "utf8_next a bs = Inr rest \<Longrightarrow> rest = drop (length bs - length rest) bs"
  by (auto simp: utf8_next_def split: if_splits list.splits)

lemma utf8_lossy_valid: "utf8_error i bs = None \<Longrightarrow> utf8_lossy bs = bs"
proof (induction i bs rule: utf8_error.induct)
  case (2 i a bs)
  then obtain rest where next_eq: "utf8_next a bs = Inr rest" and ih: "utf8_lossy rest = rest"
    by (auto split: sum.splits)
  let ?n = "length bs - length rest"
  have "length rest \<le> length bs" "rest = drop ?n bs"
    using utf8_next_shorter [OF next_eq] utf8_next_suffix [OF next_eq] by simp_all
  then have "take (Suc (length bs) - length rest) (a # bs) @ rest = a # take ?n bs @ drop ?n bs"
    by (simp add: Suc_diff_le)
  then show ?case
    by (simp add: next_eq ih)
qed simp

end
