(* ===== verification/Options.thy ===== *)
theory Options
  imports Status Utf8
begin

text \<open>
  The argument side of \<open>native/src/abi.rs\<close> and the configuration records of
  \<open>native/src/config.rs\<close> and \<open>native/src/output.rs\<close>: the C option struct, its defaults, its
  validation and conversion, sizes, and the two-call string protocol of \<open>fill_string\<close>.

  Memory the caller lends is \<open>abi_memory\<close>: bytes and \<open>ptyx_string_t\<close> items by address. A
  pointer to a single struct is an option, \<open>None\<close> for null.
\<close>

section \<open>Structs\<close>

record ptyx_string_t =
  str_data :: u64
  str_len :: usize

record ptyx_size_t =
  rows :: u32
  columns :: u32
  pixel_width :: u32
  pixel_height :: u32

record PtySize =
  pty_rows :: u16
  pty_cols :: u16
  pty_pixel_width :: u16
  pty_pixel_height :: u16

record ptyx_session_options_t =
  opt_flags :: u32
  opt_executable :: ptyx_string_t
  opt_argv :: u64
  opt_argc :: usize
  opt_env_items :: u64
  opt_env_count :: usize
  opt_env_mode :: u32
  opt_cwd :: ptyx_string_t
  opt_initial_size :: ptyx_size_t
  opt_output_port :: i64
  opt_event_port :: i64
  opt_read_buffer_size :: u32
  opt_output_batch_max_bytes :: u32
  opt_output_batch_max_delay_us :: u32
  opt_mode_poll_interval_ms :: u32
  opt_max_inflight_bytes :: u64
  opt_max_external_output_bytes :: u64
  opt_write_queue_max_bytes :: u64

datatype EnvironmentMode = Inherit | Overlay | Replace | Clear

type_synonym Duration = nat \<comment> \<open>nanoseconds\<close>

definition from_micros :: "u64 \<Rightarrow> Duration" where
  "from_micros n = unat n * 1000"

definition from_millis :: "u64 \<Rightarrow> Duration" where
  "from_millis n = unat n * 1000000"

record SpawnConfig =
  sc_executable :: "u8 list"
  sc_argv :: "u8 list list"
  sc_env_items :: "u8 list list"
  sc_env_mode :: EnvironmentMode
  sc_cwd :: "u8 list"
  sc_size :: PtySize

record OutputConfig =
  oc_require_acks :: bool
  oc_max_inflight :: u64
  oc_read_buffer_size :: usize
  oc_output_batch_max_bytes :: usize
  oc_output_batch_max_delay :: Duration
  oc_use_external_output :: bool
  oc_max_external_output_bytes :: u64
  oc_output_port :: i64
  oc_event_port :: i64

record RuntimeConfig =
  rc_output :: OutputConfig
  rc_require_acks :: bool
  rc_enable_mode_events :: bool
  rc_mode_poll_interval :: Duration
  rc_write_queue_max_bytes :: usize

record SessionOptions =
  so_spawn :: SpawnConfig
  so_runtime :: RuntimeConfig

section \<open>Constants\<close>

definition KIB :: usize where [abi_consts]: "KIB = 1024"
definition MIB :: usize where [abi_consts]: "MIB = KIB * KIB"
definition DEFAULT_INITIAL_ROWS :: u32 where [abi_consts]: "DEFAULT_INITIAL_ROWS = 24"
definition DEFAULT_INITIAL_COLUMNS :: u32 where [abi_consts]: "DEFAULT_INITIAL_COLUMNS = 80"
definition DEFAULT_READ_BUFFER_SIZE :: u32 where
  [abi_consts]: "DEFAULT_READ_BUFFER_SIZE = ucast (256 * KIB)"
definition DEFAULT_OUTPUT_BATCH_MAX_BYTES :: u32 where
  [abi_consts]: "DEFAULT_OUTPUT_BATCH_MAX_BYTES = ucast (128 * KIB)"
definition DEFAULT_OUTPUT_BATCH_DELAY_US :: u32 where
  [abi_consts]: "DEFAULT_OUTPUT_BATCH_DELAY_US = 1000"
definition DEFAULT_MODE_POLL_INTERVAL_MS :: u32 where
  [abi_consts]: "DEFAULT_MODE_POLL_INTERVAL_MS = 50"
definition DEFAULT_MAX_INFLIGHT_BYTES :: u64 where
  [abi_consts]: "DEFAULT_MAX_INFLIGHT_BYTES = ucast (4 * MIB)"
definition DEFAULT_MAX_EXTERNAL_OUTPUT_BYTES :: u64 where
  [abi_consts]: "DEFAULT_MAX_EXTERNAL_OUTPUT_BYTES = ucast (64 * MIB)"
definition DEFAULT_WRITE_QUEUE_MAX_BYTES :: usize where
  [abi_consts]: "DEFAULT_WRITE_QUEUE_MAX_BYTES = 64 * MIB"

definition PTYX_ENV_INHERIT :: u32 where [abi_consts]: "PTYX_ENV_INHERIT = 0"
definition PTYX_ENV_OVERLAY :: u32 where [abi_consts]: "PTYX_ENV_OVERLAY = 1"
definition PTYX_ENV_REPLACE :: u32 where [abi_consts]: "PTYX_ENV_REPLACE = 2"
definition PTYX_ENV_CLEAR :: u32 where [abi_consts]: "PTYX_ENV_CLEAR = 3"

definition PTYX_SESSION_OUTPUT_EXTERNAL_TYPED_DATA :: u32 where
  [abi_consts]: "PTYX_SESSION_OUTPUT_EXTERNAL_TYPED_DATA = push_bit 0 1"
definition PTYX_SESSION_ENABLE_MODE_EVENTS :: u32 where
  [abi_consts]: "PTYX_SESSION_ENABLE_MODE_EVENTS = push_bit 1 1"
definition PTYX_SESSION_REQUIRE_OUTPUT_ACKS :: u32 where
  [abi_consts]: "PTYX_SESSION_REQUIRE_OUTPUT_ACKS = push_bit 2 1"
definition PTYX_SESSION_SUPPORTED_FLAGS :: u32 where
  [abi_consts]: "PTYX_SESSION_SUPPORTED_FLAGS =
     PTYX_SESSION_OUTPUT_EXTERNAL_TYPED_DATA OR PTYX_SESSION_ENABLE_MODE_EVENTS
       OR PTYX_SESSION_REQUIRE_OUTPUT_ACKS"

definition MIN_OUTPUT_BATCH_DELAY_US :: u32 where [abi_consts]: "MIN_OUTPUT_BATCH_DELAY_US = 1"
definition MAX_OUTPUT_BATCH_DELAY_US :: u32 where [abi_consts]: "MAX_OUTPUT_BATCH_DELAY_US = 1000000"
definition MIN_MODE_POLL_INTERVAL_MS :: u32 where [abi_consts]: "MIN_MODE_POLL_INTERVAL_MS = 25"
definition MAX_MODE_POLL_INTERVAL_MS :: u32 where [abi_consts]: "MAX_MODE_POLL_INTERVAL_MS = 60000"
definition MIN_READ_BUFFER_SIZE :: u32 where [abi_consts]: "MIN_READ_BUFFER_SIZE = ucast (4 * KIB)"
definition MAX_READ_BUFFER_SIZE :: u32 where [abi_consts]: "MAX_READ_BUFFER_SIZE = ucast MIB"
definition MIN_OUTPUT_BATCH_MAX_BYTES :: u32 where
  [abi_consts]: "MIN_OUTPUT_BATCH_MAX_BYTES = ucast (64 * KIB)"
definition MAX_OUTPUT_BATCH_MAX_BYTES :: u32 where
  [abi_consts]: "MAX_OUTPUT_BATCH_MAX_BYTES = ucast (256 * KIB)"
definition MIN_WRITE_QUEUE_MAX_BYTES :: usize where
  [abi_consts]: "MIN_WRITE_QUEUE_MAX_BYTES = 64 * KIB"
definition MAX_WRITE_QUEUE_MAX_BYTES :: usize where
  [abi_consts]: "MAX_WRITE_QUEUE_MAX_BYTES = 512 * MIB"

section \<open>Strings from the caller\<close>

record abi_memory =
  mem_u8 :: "u64 \<Rightarrow> u8"
  mem_string :: "u64 \<Rightarrow> ptyx_string_t"

definition string_bytes :: "abi_memory \<Rightarrow> u64 \<Rightarrow> usize \<Rightarrow> u8 list" where
  "string_bytes m data n = map (\<lambda>i. mem_u8 m (data + of_nat i)) [0..<unat n]"

definition string_items :: "abi_memory \<Rightarrow> u64 \<Rightarrow> usize \<Rightarrow> ptyx_string_t list" where
  "string_items m ptr count = map (\<lambda>i. mem_string m (ptr + of_nat (16 * i))) [0..<unat count]"

definition string_to_string :: "abi_memory \<Rightarrow> ptyx_string_t \<Rightarrow> PtyxError + u8 list" where
  "string_to_string m v =
    (if str_len v = 0 then Inr []
     else if str_data v = 0 then
       Inl (PtyxError_new InvalidArgument ''string data must not be null when length is non-zero'')
     else
       let bytes = string_bytes m (str_data v) (str_len v) in
       case utf8_error 0 bytes of
         None \<Rightarrow> Inr bytes
       | Some e \<Rightarrow> Inl (PtyxError_new InvalidArgument
                          (''string is not valid UTF-8: '' @ utf8_error_text e)))"

definition string_to_os_string :: "abi_memory \<Rightarrow> ptyx_string_t \<Rightarrow> PtyxError + u8 list" where
  "string_to_os_string m v = and_then (string_to_string m v) Inr"

definition string_array :: "abi_memory \<Rightarrow> u64 \<Rightarrow> usize \<Rightarrow> PtyxError + u8 list list" where
  "string_array m ptr count =
    (if count = 0 then Inr []
     else if ptr = 0 then
       Inl (PtyxError_new InvalidArgument
              ''string array pointer must not be null when count is non-zero'')
     else collect_results (map (string_to_os_string m) (string_items m ptr count)))"

definition bytes_from_ptr :: "abi_memory \<Rightarrow> u64 \<Rightarrow> usize \<Rightarrow> PtyxError + u8 list" where
  "bytes_from_ptr m data n =
    (if n = 0 then Inr []
     else if data = 0 then
       Inl (PtyxError_new InvalidArgument ''data must not be null when length is non-zero'')
     else Inr (string_bytes m data n))"

section \<open>Sizes\<close>

definition to_pty_size :: "ptyx_size_t \<Rightarrow> PtyxError + PtySize" where
  "to_pty_size s =
    (if rows s = 0 \<or> columns s = 0 then
       Inl (PtyxError_new InvalidArgument ''rows and columns must be positive'')
     else
       and_then (ok_or (PtyxError_new InvalidArgument ''rows exceed u16'') (try_from (rows s))) (\<lambda>r.
       and_then (ok_or (PtyxError_new InvalidArgument ''columns exceed u16'') (try_from (columns s))) (\<lambda>c.
       and_then (ok_or (PtyxError_new InvalidArgument ''pixel width exceeds u16'')
                   (try_from (pixel_width s))) (\<lambda>pw.
       and_then (ok_or (PtyxError_new InvalidArgument ''pixel height exceeds u16'')
                   (try_from (pixel_height s))) (\<lambda>ph.
       Inr \<lparr>pty_rows = r, pty_cols = c, pty_pixel_width = pw, pty_pixel_height = ph\<rparr>)))))"

definition ptyx_size_from :: "PtySize \<Rightarrow> ptyx_size_t" where
  "ptyx_size_from s =
     \<lparr>rows = ucast (pty_rows s), columns = ucast (pty_cols s),
      pixel_width = ucast (pty_pixel_width s), pixel_height = ucast (pty_pixel_height s)\<rparr>"

section \<open>Spawn and runtime configuration\<close>

definition environment_mode_from_abi :: "u32 \<Rightarrow> PtyxError + EnvironmentMode" where
  "environment_mode_from_abi value =
    (if value = PTYX_ENV_INHERIT then Inr Inherit
     else if value = PTYX_ENV_OVERLAY then Inr Overlay
     else if value = PTYX_ENV_REPLACE then Inr Replace
     else if value = PTYX_ENV_CLEAR then Inr Clear
     else Inl (PtyxError_new InvalidArgument ''unknown environment mode''))"

definition default_u32 :: "u32 \<Rightarrow> u32 \<Rightarrow> u32" where
  "default_u32 value dflt = (if value = 0 then dflt else value)"

definition default_u64 :: "u64 \<Rightarrow> u64 \<Rightarrow> u64" where
  "default_u64 value dflt = (if value = 0 then dflt else value)"

definition spawn_config_from_options ::
    "abi_memory \<Rightarrow> ptyx_session_options_t \<Rightarrow> PtyxError + SpawnConfig" where
  "spawn_config_from_options m o' =
     and_then (string_to_os_string m (opt_executable o')) (\<lambda>executable.
       if executable = [] then
         Inl (PtyxError_new InvalidArgument ''executable must not be empty'')
       else
         and_then (string_array m (opt_argv o') (opt_argc o')) (\<lambda>argv.
         and_then (string_array m (opt_env_items o') (opt_env_count o')) (\<lambda>env_items.
         and_then (environment_mode_from_abi (opt_env_mode o')) (\<lambda>env_mode.
         and_then (string_to_os_string m (opt_cwd o')) (\<lambda>cwd.
         and_then (to_pty_size (opt_initial_size o')) (\<lambda>sz.
         Inr \<lparr>sc_executable = executable, sc_argv = argv, sc_env_items = env_items,
              sc_env_mode = env_mode, sc_cwd = cwd, sc_size = sz\<rparr>))))))"

definition runtime_config_from_options :: "ptyx_session_options_t \<Rightarrow> RuntimeConfig" where
  "runtime_config_from_options o' =
    (let output_batch_max_delay_us =
           clamp MIN_OUTPUT_BATCH_DELAY_US MAX_OUTPUT_BATCH_DELAY_US
             (default_u32 (opt_output_batch_max_delay_us o') DEFAULT_OUTPUT_BATCH_DELAY_US);
         mode_poll_interval_ms =
           clamp MIN_MODE_POLL_INTERVAL_MS MAX_MODE_POLL_INTERVAL_MS
             (default_u32 (opt_mode_poll_interval_ms o') DEFAULT_MODE_POLL_INTERVAL_MS);
         require_acks = (opt_flags o' AND PTYX_SESSION_REQUIRE_OUTPUT_ACKS \<noteq> 0)
     in \<lparr>rc_output =
           \<lparr>oc_require_acks = require_acks,
            oc_max_inflight = default_u64 (opt_max_inflight_bytes o') DEFAULT_MAX_INFLIGHT_BYTES,
            oc_read_buffer_size =
              ucast (clamp MIN_READ_BUFFER_SIZE MAX_READ_BUFFER_SIZE
                (default_u32 (opt_read_buffer_size o') DEFAULT_READ_BUFFER_SIZE)),
            oc_output_batch_max_bytes =
              ucast (clamp MIN_OUTPUT_BATCH_MAX_BYTES MAX_OUTPUT_BATCH_MAX_BYTES
                (default_u32 (opt_output_batch_max_bytes o') DEFAULT_OUTPUT_BATCH_MAX_BYTES)),
            oc_output_batch_max_delay = from_micros (ucast output_batch_max_delay_us),
            oc_use_external_output = (opt_flags o' AND PTYX_SESSION_OUTPUT_EXTERNAL_TYPED_DATA \<noteq> 0),
            oc_max_external_output_bytes =
              default_u64 (opt_max_external_output_bytes o') DEFAULT_MAX_EXTERNAL_OUTPUT_BYTES,
            oc_output_port = opt_output_port o',
            oc_event_port = opt_event_port o'\<rparr>,
         rc_require_acks = require_acks,
         rc_enable_mode_events = (opt_flags o' AND PTYX_SESSION_ENABLE_MODE_EVENTS \<noteq> 0),
         rc_mode_poll_interval = from_millis (ucast mode_poll_interval_ms),
         rc_write_queue_max_bytes =
           clamp MIN_WRITE_QUEUE_MAX_BYTES MAX_WRITE_QUEUE_MAX_BYTES
             (case try_from (default_u64 (opt_write_queue_max_bytes o') (ucast DEFAULT_WRITE_QUEUE_MAX_BYTES))
              of Some n \<Rightarrow> n | None \<Rightarrow> - 1)\<rparr>)"

definition session_options_from_abi ::
    "abi_memory \<Rightarrow> ptyx_session_options_t \<Rightarrow> PtyxError + SessionOptions" where
  "session_options_from_abi m o' =
    (if opt_flags o' AND NOT PTYX_SESSION_SUPPORTED_FLAGS \<noteq> 0 then
       Inl (PtyxError_new Unsupported ''session option flags are unsupported'')
     else if opt_output_port o' = 0 \<or> opt_event_port o' = 0 then
       Inl (PtyxError_new InvalidArgument ''output and event ports must be valid'')
     else
       and_then (spawn_config_from_options m o') (\<lambda>spawn.
         Inr \<lparr>so_spawn = spawn, so_runtime = runtime_config_from_options o'\<rparr>))"

definition copy_session_options_from_ptr ::
    "ptyx_session_options_t option \<Rightarrow> PtyxError + ptyx_session_options_t" where
  "copy_session_options_from_ptr ptr =
     ok_or (PtyxError_new InvalidArgument ''session options must not be null'') ptr"

definition session_options_from_ptr ::
    "abi_memory \<Rightarrow> ptyx_session_options_t option \<Rightarrow> PtyxError + SessionOptions" where
  "session_options_from_ptr m ptr =
     and_then (copy_session_options_from_ptr ptr) (session_options_from_abi m)"

definition default_string :: ptyx_string_t where
  "default_string = \<lparr>str_data = 0, str_len = 0\<rparr>"

definition default_session_options :: ptyx_session_options_t where
  "default_session_options =
     \<lparr>opt_flags = PTYX_SESSION_OUTPUT_EXTERNAL_TYPED_DATA OR PTYX_SESSION_ENABLE_MODE_EVENTS
                   OR PTYX_SESSION_REQUIRE_OUTPUT_ACKS,
      opt_executable = default_string, opt_argv = 0, opt_argc = 0, opt_env_items = 0,
      opt_env_count = 0, opt_env_mode = PTYX_ENV_OVERLAY, opt_cwd = default_string,
      opt_initial_size = \<lparr>rows = DEFAULT_INITIAL_ROWS, columns = DEFAULT_INITIAL_COLUMNS,
                          pixel_width = 0, pixel_height = 0\<rparr>,
      opt_output_port = 0, opt_event_port = 0,
      opt_read_buffer_size = DEFAULT_READ_BUFFER_SIZE,
      opt_output_batch_max_bytes = DEFAULT_OUTPUT_BATCH_MAX_BYTES,
      opt_output_batch_max_delay_us = DEFAULT_OUTPUT_BATCH_DELAY_US,
      opt_mode_poll_interval_ms = DEFAULT_MODE_POLL_INTERVAL_MS,
      opt_max_inflight_bytes = DEFAULT_MAX_INFLIGHT_BYTES,
      opt_max_external_output_bytes = DEFAULT_MAX_EXTERNAL_OUTPUT_BYTES,
      opt_write_queue_max_bytes = ucast DEFAULT_WRITE_QUEUE_MAX_BYTES\<rparr>"

definition session_options_init ::
    "ptyx_session_options_t option \<Rightarrow> ptyx_session_options_t option" where
  "session_options_init options =
     (case options of None \<Rightarrow> None | Some _ \<Rightarrow> Some default_session_options)"

section \<open>Results to the caller\<close>

text \<open>An out pointer is an option; the functions return the result and the cell afterwards.\<close>

definition write_size ::
    "ptyx_size_t option \<Rightarrow> PtySize \<Rightarrow> (PtyxError + unit) \<times> ptyx_size_t option" where
  "write_size out_size sz =
    (case out_size of
       None \<Rightarrow> (Inl (PtyxError_new InvalidArgument ''out_size must not be null''), None)
     | Some _ \<Rightarrow> (Inr (), Some (ptyx_size_from sz)))"

definition write_u64 :: "u64 option \<Rightarrow> u64 \<Rightarrow> string \<Rightarrow> (PtyxError + unit) \<times> u64 option" where
  "write_u64 out_value value name =
    (case out_value of
       None \<Rightarrow> (Inl (PtyxError_new InvalidArgument (name @ '' must not be null'')), None)
     | Some _ \<Rightarrow> (Inr (), Some value))"

definition fill_string ::
    "u8 list \<Rightarrow> u8 list option \<Rightarrow> usize option
     \<Rightarrow> (PtyxError + unit) \<times> u8 list option \<times> usize option" where
  "fill_string bytes buffer inout_len =
    (case inout_len of
       None \<Rightarrow> (Inl (PtyxError_new InvalidArgument ''inout_len must not be null''), buffer, None)
     | Some capacity \<Rightarrow>
         let required_len = vec_len bytes + 1 in
         case buffer of
           None \<Rightarrow> (Inl (PtyxError_new BufferTooSmall ''buffer is too small''), None, Some required_len)
         | Some buf \<Rightarrow>
             if capacity < required_len then
               (Inl (PtyxError_new BufferTooSmall ''buffer is too small''), Some buf, Some required_len)
             else (Inr (), Some (bytes @ [0] @ drop (length bytes + 1) buf), Some required_len))"

section \<open>Sizes: lossless both ways\<close>

lemma ptyx_size_from_simps [simp]:
  "rows (ptyx_size_from p) = ucast (pty_rows p)"
  "columns (ptyx_size_from p) = ucast (pty_cols p)"
  "pixel_width (ptyx_size_from p) = ucast (pty_pixel_width p)"
  "pixel_height (ptyx_size_from p) = ucast (pty_pixel_height p)"
  by (simp_all add: ptyx_size_from_def)

lemma u16_widen_eq_0_iff [simp]: "ucast x = (0 :: u32) \<longleftrightarrow> x = 0" for x :: u16
  by (simp add: word_unat_eq_iff unat_ucast_up)

lemma to_pty_size_Inr_iff:
  "to_pty_size s = Inr p \<longleftrightarrow> rows s \<noteq> 0 \<and> columns s \<noteq> 0
     \<and> try_from (rows s) = Some (pty_rows p) \<and> try_from (columns s) = Some (pty_cols p)
     \<and> try_from (pixel_width s) = Some (pty_pixel_width p)
     \<and> try_from (pixel_height s) = Some (pty_pixel_height p)"
  by (cases p) (auto simp: to_pty_size_def and_then_Inr_iff ok_or_def split: option.splits)

text \<open>
  Terminal sizes cross the ABI without loss. A size is accepted exactly when it has at least
  one row and one column and every dimension fits 16 bits; an accepted size converts back to the
  caller's numbers, and a size read from the PTY (with rows and columns) is accepted again as the
  same size.
\<close>

theorem pty_size_roundtrip:
  "(is_ok (to_pty_size s) \<longleftrightarrow> 0 < unat (rows s) \<and> unat (rows s) < 65536
      \<and> 0 < unat (columns s) \<and> unat (columns s) < 65536
      \<and> unat (pixel_width s) < 65536 \<and> unat (pixel_height s) < 65536)
   \<and> (to_pty_size s = Inr p \<longrightarrow> ptyx_size_from p = s)
   \<and> (pty_rows p \<noteq> 0 \<and> pty_cols p \<noteq> 0 \<longrightarrow> to_pty_size (ptyx_size_from p) = Inr p)"
proof (intro conjI impI)
  have "is_ok (to_pty_size s) \<longleftrightarrow> rows s \<noteq> 0 \<and> columns s \<noteq> 0
      \<and> unat (rows s) < 2 ^ 16 \<and> unat (columns s) < 2 ^ 16
      \<and> unat (pixel_width s) < 2 ^ 16 \<and> unat (pixel_height s) < 2 ^ 16"
    by (auto simp: to_pty_size_def and_then_def ok_or_def try_from_def split: if_splits)
  then show "is_ok (to_pty_size s) \<longleftrightarrow> 0 < unat (rows s) \<and> unat (rows s) < 65536
      \<and> 0 < unat (columns s) \<and> unat (columns s) < 65536
      \<and> unat (pixel_width s) < 65536 \<and> unat (pixel_height s) < 65536"
    by (auto simp: unat_gt_0)
next
  assume "to_pty_size s = Inr p"
  then show "ptyx_size_from p = s"
    by (cases s) (auto simp: to_pty_size_Inr_iff ptyx_size_from_def intro: ucast_try_from)
next
  assume "pty_rows p \<noteq> 0 \<and> pty_cols p \<noteq> 0"
  then show "to_pty_size (ptyx_size_from p) = Inr p"
    by (simp add: to_pty_size_Inr_iff try_from_ucast_up)
qed

theorem pty_size_roundtrip_witness:
  "is_ok (to_pty_size \<lparr>rows = 24, columns = 80, pixel_width = 0, pixel_height = 0\<rparr>)
   \<and> \<not> is_ok (to_pty_size \<lparr>rows = 65536, columns = 80, pixel_width = 0, pixel_height = 0\<rparr>)
   \<and> to_pty_size (ptyx_size_from \<lparr>pty_rows = 24, pty_cols = 80, pty_pixel_width = 0, pty_pixel_height = 7\<rparr>)
      = Inr \<lparr>pty_rows = 24, pty_cols = 80, pty_pixel_width = 0, pty_pixel_height = 7\<rparr>"
  using pty_size_roundtrip [of "\<lparr>rows = 24, columns = 80, pixel_width = 0, pixel_height = 0\<rparr>"]
    pty_size_roundtrip [of "\<lparr>rows = 65536, columns = 80, pixel_width = 0, pixel_height = 0\<rparr>"]
    pty_size_roundtrip [of undefined
      "\<lparr>pty_rows = 24, pty_cols = 80, pty_pixel_width = 0, pty_pixel_height = 7\<rparr>"]
  by simp

section \<open>Runtime configuration: every setting in range\<close>

lemma default_nonzero [simp]:
  "d \<noteq> 0 \<Longrightarrow> default_u64 v d \<noteq> 0"
  "e \<noteq> 0 \<Longrightarrow> default_u32 w e \<noteq> 0"
  by (simp_all add: default_u64_def default_u32_def)

lemma unat_clamp_u32_widen:
  "lo \<le> hi \<Longrightarrow> unat lo \<le> unat (ucast (clamp lo hi x) :: u64)
     \<and> unat (ucast (clamp lo hi x) :: u64) \<le> unat hi"
  for x :: u32
  using unat_clamp_bounds [of lo hi x] by (simp add: unat_ucast_up)

lemma write_queue_limit:
  "65536 \<le> unat (rc_write_queue_max_bytes (runtime_config_from_options options))"
  "unat (rc_write_queue_max_bytes (runtime_config_from_options options)) \<le> 536870912"
  using unat_clamp_bounds [of MIN_WRITE_QUEUE_MAX_BYTES MAX_WRITE_QUEUE_MAX_BYTES
      "case try_from (default_u64 (opt_write_queue_max_bytes options)
          (ucast DEFAULT_WRITE_QUEUE_MAX_BYTES)) of Some n \<Rightarrow> n | None \<Rightarrow> - 1"]
  unfolding runtime_config_from_options_def Let_def
  by (simp_all add: MIN_WRITE_QUEUE_MAX_BYTES_def MAX_WRITE_QUEUE_MAX_BYTES_def KIB_def MIB_def)

lemma parsed_write_queue_limit:
  assumes "session_options_from_ptr m ptr = Inr opts"
  shows "unat (rc_write_queue_max_bytes (so_runtime opts)) < 2 ^ 63"
proof -
  obtain options where "so_runtime opts = runtime_config_from_options options"
    using assms
    by (auto simp: session_options_from_ptr_def session_options_from_abi_def and_then_def split: if_splits sum.splits)
  then show ?thesis
    using write_queue_limit(2) [of options] by simp
qed

lemma output_limits:
  fixes options :: ptyx_session_options_t
  defines "rc \<equiv> runtime_config_from_options options"
  defines "out \<equiv> rc_output rc"
  shows "4096 \<le> unat (oc_read_buffer_size out) \<and> unat (oc_read_buffer_size out) \<le> 1048576"
    and "65536 \<le> unat (oc_output_batch_max_bytes out) \<and> unat (oc_output_batch_max_bytes out) \<le> 262144"
    and "oc_max_inflight out \<noteq> 0" "oc_max_external_output_bytes out \<noteq> 0"
    and "oc_require_acks out = rc_require_acks rc"
proof -
  note bounds = unat_clamp_u32_widen
      [of MIN_READ_BUFFER_SIZE MAX_READ_BUFFER_SIZE
        "default_u32 (opt_read_buffer_size options) DEFAULT_READ_BUFFER_SIZE"]
    unat_clamp_u32_widen
      [of MIN_OUTPUT_BATCH_MAX_BYTES MAX_OUTPUT_BATCH_MAX_BYTES
        "default_u32 (opt_output_batch_max_bytes options) DEFAULT_OUTPUT_BATCH_MAX_BYTES"]
  have nz: "DEFAULT_MAX_INFLIGHT_BYTES \<noteq> 0" "DEFAULT_MAX_EXTERNAL_OUTPUT_BYTES \<noteq> 0"
    by (simp_all add: abi_consts)
  show "4096 \<le> unat (oc_read_buffer_size out) \<and> unat (oc_read_buffer_size out) \<le> 1048576"
    "65536 \<le> unat (oc_output_batch_max_bytes out) \<and> unat (oc_output_batch_max_bytes out) \<le> 262144"
    "oc_max_inflight out \<noteq> 0" "oc_max_external_output_bytes out \<noteq> 0" "oc_require_acks out = rc_require_acks rc"
    using bounds nz unfolding rc_def out_def runtime_config_from_options_def Let_def
    by (simp_all add: MIN_READ_BUFFER_SIZE_def MAX_READ_BUFFER_SIZE_def MIN_OUTPUT_BATCH_MAX_BYTES_def
        MAX_OUTPUT_BATCH_MAX_BYTES_def KIB_def MIB_def)
qed

text \<open>
  C38. Whatever numbers the caller puts in the option struct, the runtime is started with settings
  in their documented ranges: a read buffer of 4 KiB to 1 MiB, batches of 64 KiB to 256 KiB, a
  batching delay of 1 microsecond to 1 second, a mode poll interval of 25 milliseconds to 60
  seconds, a write queue of 64 KiB to 512 MiB, non-zero output limits, and one and the same ACK
  requirement in the reader's and in the session's configuration.
\<close>

theorem runtime_config_in_range:
  fixes options :: ptyx_session_options_t
  defines "rc \<equiv> runtime_config_from_options options"
  defines "out \<equiv> rc_output rc"
  shows "4096 \<le> unat (oc_read_buffer_size out) \<and> unat (oc_read_buffer_size out) \<le> 1048576
    \<and> 65536 \<le> unat (oc_output_batch_max_bytes out) \<and> unat (oc_output_batch_max_bytes out) \<le> 262144
    \<and> 1000 \<le> oc_output_batch_max_delay out \<and> oc_output_batch_max_delay out \<le> 1000000000
    \<and> 25000000 \<le> rc_mode_poll_interval rc \<and> rc_mode_poll_interval rc \<le> 60000000000
    \<and> 65536 \<le> unat (rc_write_queue_max_bytes rc) \<and> unat (rc_write_queue_max_bytes rc) \<le> 536870912
    \<and> oc_max_inflight out \<noteq> 0 \<and> oc_max_external_output_bytes out \<noteq> 0
    \<and> oc_require_acks out = rc_require_acks rc"
proof -
  note bounds = unat_clamp_u32_widen
      [of MIN_OUTPUT_BATCH_DELAY_US MAX_OUTPUT_BATCH_DELAY_US
        "default_u32 (opt_output_batch_max_delay_us options) DEFAULT_OUTPUT_BATCH_DELAY_US"]
    unat_clamp_u32_widen
      [of MIN_MODE_POLL_INTERVAL_MS MAX_MODE_POLL_INTERVAL_MS
        "default_u32 (opt_mode_poll_interval_ms options) DEFAULT_MODE_POLL_INTERVAL_MS"]
  have "1000 \<le> oc_output_batch_max_delay out \<and> oc_output_batch_max_delay out \<le> 1000000000
    \<and> 25000000 \<le> rc_mode_poll_interval rc \<and> rc_mode_poll_interval rc \<le> 60000000000"
    using bounds unfolding rc_def out_def runtime_config_from_options_def Let_def
    by (simp add: from_micros_def from_millis_def MIN_OUTPUT_BATCH_DELAY_US_def MAX_OUTPUT_BATCH_DELAY_US_def
        MIN_MODE_POLL_INTERVAL_MS_def MAX_MODE_POLL_INTERVAL_MS_def)
  then show ?thesis
    using output_limits [of options] write_queue_limit [of options] unfolding rc_def out_def by blast
qed

section \<open>The two-call string protocol\<close>

definition cstr_read :: "u8 list \<Rightarrow> u8 list" where
  "cstr_read buf = takeWhile (\<lambda>b. b \<noteq> 0) buf"

lemma cstr_read_terminated: "0 \<notin> set s \<Longrightarrow> cstr_read (s @ 0 # rest) = s"
  unfolding cstr_read_def by (induction s) auto

text \<open>
  The two-call protocol of \<open>ptyx_get_tty_name\<close>. A first call with a null buffer fails
  with \<open>BufferTooSmall\<close> and reports a length; a second call with any buffer of at least that
  length succeeds, leaves the reported length unchanged, keeps the size of the buffer and every
  byte behind the terminator, and the buffer then reads back as exactly the name. A buffer that is
  too small is refused without touching it.
\<close>

theorem fill_string_two_calls:
  assumes name: "0 \<notin> set name" "length name + 1 < 2 ^ 63"
    and query: "fill_string name None (Some cap0) = (r0, b0, Some required)"
    and buf: "capacity = vec_len buf" "vec_fits buf"
  shows "r0 = Inl (PtyxError_new BufferTooSmall ''buffer is too small'')
    \<and> unat required = length name + 1
    \<and> (if required \<le> capacity
       then \<exists>buf'. fill_string name (Some buf) (Some capacity) = (Inr (), Some buf', Some required)
             \<and> cstr_read buf' = name \<and> length buf' = length buf
             \<and> drop (unat required) buf' = drop (unat required) buf
       else fill_string name (Some buf) (Some capacity)
             = (Inl (PtyxError_new BufferTooSmall ''buffer is too small''), Some buf, Some required))"
proof -
  have fits: "vec_fits name" "vec_fits (0 # name)"
    using name(2) by (simp_all add: vec_fits_def)
  from query have r0: "r0 = Inl (PtyxError_new BufferTooSmall ''buffer is too small'')"
    and required: "required = vec_len name + 1"
    by (simp_all add: fill_string_def Let_def)
  have req: "unat required = length name + 1"
    using fits name(2) required by (simp add: unat_plus_no_overflow unat_vec_len)
  have le: "required \<le> capacity \<longleftrightarrow> length name + 1 \<le> length buf"
    using req buf by (simp add: word_le_nat_alt unat_vec_len)
  show ?thesis
    using r0 req required name(1) le
    by (auto simp: fill_string_def Let_def cstr_read_terminated not_le)
qed

theorem fill_string_two_calls_witness:
  "fill_string [116, 116, 121] None (Some 0)
     = (Inl (PtyxError_new BufferTooSmall ''buffer is too small''), None, Some 4)
   \<and> (\<exists>buf'. fill_string [116, 116, 121] (Some [9, 9, 9, 9, 9]) (Some 5) = (Inr (), Some buf', Some 4)
        \<and> cstr_read buf' = [116, 116, 121])"
proof -
  have q: "fill_string [116, 116, 121] None (Some 0)
      = (Inl (PtyxError_new BufferTooSmall ''buffer is too small''), None, Some 4)"
    by (simp add: fill_string_def vec_len_def)
  show ?thesis
    using fill_string_two_calls [OF _ _ q, of 5 "[9, 9, 9, 9, 9]"] q
    by (auto simp: vec_len_def vec_fits_def)
qed

end
