(* ===== verification/Output.thy ===== *)
theory Output
  imports Message Options
begin

text \<open>
  Output batching and backpressure: \<open>native/src/output.rs\<close>, with the ACK of
  \<open>runtime::ack_output\<close>. The buffer belongs to the reader thread; the in-flight counter, the
  external byte counter, the stop flag and the Dart VM are shared. What other threads, the receiver
  and the clock do is a script, \<open>env\<close>: at each access to shared state the next entry of the
  script happens first, all its events in order. A wait on the condition variable consumes an entry
  per wakeup (a notification or the 10 ms timeout) and has not returned, \<open>None\<close>, when the script
  ends first. The lock of the in-flight counter is held from the check to the wait, which nothing
  but the stop flag can slip into, and a stop there acts as one at the check.
\<close>

definition IDLE_POLL_INTERVAL :: Duration where
  "IDLE_POLL_INTERVAL = from_millis 50"

datatype env_event =
    Ack u64 \<comment> \<open>any ACK, right or wrong\<close>
  | Ack_next \<comment> \<open>the receiver acknowledges its oldest unacknowledged chunk\<close>
  | Stop_request
  | Finalize nat \<comment> \<open>the Dart VM finalizes an external chunk\<close>
  | Elapse Duration
  | Poison
  | Event_exit i32
  | Event_error ErrorSource PtyxError
  | Event_mode TermMode

record out_sys = message_state +
  inflight :: "u64 mutex"
  stop :: bool
  now :: Duration
  acked_chunks :: nat \<comment> \<open>chunks the receiver has acknowledged by \<open>Ack_next\<close>\<close>
  env :: "env_event list list"

record OutputBuffer =
  ob_config :: OutputConfig
  ob_batch :: "u8 list"
  ob_first_pending_at :: "Duration option"

definition OutputBuffer_new :: "OutputConfig \<Rightarrow> OutputBuffer" where
  "OutputBuffer_new config = \<lparr>ob_config = config, ob_batch = [], ob_first_pending_at = None\<rparr>"

definition chunks_of :: "(out_message \<times> bool) list \<Rightarrow> u8 list list" where
  "chunks_of log =
     List.map_filter (\<lambda>(msg, answer). case msg of Chunk c \<Rightarrow> if answer then Some c else None | End_of_output \<Rightarrow> None) log"

definition delivered_chunks :: "DartPort \<Rightarrow> 'z message_state_scheme \<Rightarrow> u8 list list" where
  "delivered_chunks port s = chunks_of (output_log port s)"

definition delivered_bytes :: "DartPort \<Rightarrow> 'z message_state_scheme \<Rightarrow> u8 list" where
  "delivered_bytes port s = concat (delivered_chunks port s)"

section \<open>The other threads\<close>

definition inflight_poisoned_error :: PtyxError where
  "inflight_poisoned_error = PtyxError_new Error ''inflight lock poisoned''"

text \<open>\<open>runtime::ack_output\<close> on the counter.\<close>

definition ack_inflight :: "bool \<Rightarrow> u64 \<Rightarrow> out_sys \<Rightarrow> (PtyxError + unit) \<times> out_sys" where
  "ack_inflight require_acks byte_count s =
    (if require_acks then
       (case lock inflight_poisoned_error (inflight s) of
          Inl e \<Rightarrow> (Inl e, s)
        | Inr bytes \<Rightarrow> (Inr (), s\<lparr>inflight := set_guarded (saturating_sub bytes byte_count) (inflight s)\<rparr>))
     else (Inr (), s))"

fun apply_event :: "OutputConfig \<Rightarrow> out_sys \<Rightarrow> env_event \<Rightarrow> out_sys" where
  "apply_event cfg s (Ack n) = snd (ack_inflight (oc_require_acks cfg) n s)"
| "apply_event cfg s Ack_next =
     (case drop (acked_chunks s) (delivered_chunks (oc_output_port cfg) s) of
        [] \<Rightarrow> s
      | c # _ \<Rightarrow> snd (ack_inflight (oc_require_acks cfg) (vec_len c) s)\<lparr>acked_chunks := Suc (acked_chunks s)\<rparr>)"
| "apply_event cfg s Stop_request = s\<lparr>stop := True\<rparr>"
| "apply_event cfg s (Finalize p) = external_output_finalizer p s"
| "apply_event cfg s (Elapse d) = s\<lparr>now := now s + d\<rparr>"
| "apply_event cfg s Poison = s\<lparr>inflight := (inflight s)\<lparr>poisoned := True\<rparr>\<rparr>"
| "apply_event cfg s (Event_exit c) = snd (post_exit (oc_event_port cfg) c s)"
| "apply_event cfg s (Event_error source e) = snd (post_error (oc_event_port cfg) source e s)"
| "apply_event cfg s (Event_mode m) = snd (post_term_mode (oc_event_port cfg) m s)"

definition apply_events :: "OutputConfig \<Rightarrow> env_event list \<Rightarrow> out_sys \<Rightarrow> out_sys" where
  "apply_events cfg evs s = foldl (apply_event cfg) s evs"

definition interfere :: "OutputConfig \<Rightarrow> out_sys \<Rightarrow> out_sys" where
  "interfere cfg s = (case env s of [] \<Rightarrow> s | evs # rest \<Rightarrow> apply_events cfg evs (s\<lparr>env := rest\<rparr>))"

section \<open>Capacity\<close>

fun capacity_loop ::
    "OutputConfig \<Rightarrow> env_event list list \<Rightarrow> out_sys \<Rightarrow> ((PtyxError + bool) \<times> out_sys) option" where
  "capacity_loop cfg [] s =
     (if guarded (inflight s) \<ge> oc_max_inflight cfg \<and> \<not> stop s then None
      else Some (Inr (\<not> stop s), s))"
| "capacity_loop cfg (evs # rest) s =
     (if guarded (inflight s) \<ge> oc_max_inflight cfg \<and> \<not> stop s then
        let s' = apply_events cfg evs (s\<lparr>env := rest\<rparr>) in
        if poisoned (inflight s') then Some (Inl inflight_poisoned_error, s')
        else capacity_loop cfg rest s'
      else Some (Inr (\<not> stop s), s))"

definition wait_for_inflight_capacity ::
    "OutputConfig \<Rightarrow> out_sys \<Rightarrow> ((PtyxError + bool) \<times> out_sys) option" where
  "wait_for_inflight_capacity cfg s =
    (if \<not> oc_require_acks cfg then Some (Inr True, s)
     else
       let s1 = interfere cfg s in
       case lock inflight_poisoned_error (inflight s1) of
         Inl e \<Rightarrow> Some (Inl e, s1)
       | Inr _ \<Rightarrow> capacity_loop cfg (env s1) s1)"

definition reserve_inflight :: "OutputConfig \<Rightarrow> u64 \<Rightarrow> out_sys \<Rightarrow> (PtyxError + unit) \<times> out_sys" where
  "reserve_inflight cfg len s =
    (if \<not> oc_require_acks cfg then (Inr (), s)
     else
       let s1 = interfere cfg s in
       case lock inflight_poisoned_error (inflight s1) of
         Inl e \<Rightarrow> (Inl e, s1)
       | Inr bytes \<Rightarrow> (Inr (), s1\<lparr>inflight := set_guarded (saturating_add bytes len) (inflight s1)\<rparr>))"

definition release_inflight :: "OutputConfig \<Rightarrow> u64 \<Rightarrow> out_sys \<Rightarrow> (PtyxError + unit) \<times> out_sys" where
  "release_inflight cfg len s =
    (if \<not> oc_require_acks cfg then (Inr (), s)
     else
       let s1 = interfere cfg s in
       case lock inflight_poisoned_error (inflight s1) of
         Inl e \<Rightarrow> (Inl e, s1)
       | Inr bytes \<Rightarrow> (Inr (), s1\<lparr>inflight := set_guarded (saturating_sub bytes len) (inflight s1)\<rparr>))"

definition reserve_external_bytes :: "OutputConfig \<Rightarrow> u64 \<Rightarrow> u64 \<Rightarrow> out_sys \<Rightarrow> bool \<times> out_sys" where
  "reserve_external_bytes cfg max_bytes len_u64 s =
    (case try_from len_u64 :: usize option of
       None \<Rightarrow> (False, s)
     | Some len \<Rightarrow>
         let limit = (case try_from max_bytes of Some m \<Rightarrow> m | None \<Rightarrow> - 1) in
         if len = 0 \<or> len > limit then (False, s)
         else
           let s1 = interfere cfg s in
           case checked_add (external_bytes s1) len of
             None \<Rightarrow> (False, s1)
           | Some next \<Rightarrow> if next \<le> limit then (True, s1\<lparr>external_bytes := next\<rparr>) else (False, s1))"

section \<open>Flushing and appending\<close>

definition post_failed_error :: PtyxError where
  "post_failed_error = PtyxError_new Closed ''failed to post output''"

definition post_batch :: "OutputBuffer \<Rightarrow> out_sys \<Rightarrow> bool \<times> OutputBuffer \<times> out_sys" where
  "post_batch b s =
    (let cfg = ob_config b; len = vec_len (ob_batch b);
         (external, s1) =
           (if oc_use_external_output cfg
            then reserve_external_bytes cfg (oc_max_external_output_bytes cfg) len s
            else (False, s)) in
     if external then
       (case post_output_external (oc_output_port cfg) (ob_batch b) (interfere cfg s1) of
          (posted, s2) \<Rightarrow> (posted, b\<lparr>ob_batch := []\<rparr>, s2))
     else
       (case post_output_copied (oc_output_port cfg) (ob_batch b) len (interfere cfg s1) of
          (posted, s2) \<Rightarrow> (posted, if posted then b\<lparr>ob_batch := []\<rparr> else b, s2)))"

definition flush :: "OutputBuffer \<Rightarrow> out_sys \<Rightarrow> ((PtyxError + unit) \<times> OutputBuffer \<times> out_sys) option" where
  "flush b s =
    (if ob_batch b = [] then Some (Inr (), b\<lparr>ob_first_pending_at := None\<rparr>, s)
     else
       let cfg = ob_config b; len = vec_len (ob_batch b) in
       case wait_for_inflight_capacity cfg s of
         None \<Rightarrow> None
       | Some (Inl e, s1) \<Rightarrow> Some (Inl e, b, s1)
       | Some (Inr False, s1) \<Rightarrow> Some (Inr (), b, s1)
       | Some (Inr True, s1) \<Rightarrow>
           (case reserve_inflight cfg len s1 of
              (Inl e, s2) \<Rightarrow> Some (Inl e, b, s2)
            | (Inr _, s2) \<Rightarrow>
                (case post_batch b s2 of
                   (False, b', s3) \<Rightarrow>
                     (case release_inflight cfg len s3 of
                        (Inl e, s4) \<Rightarrow> Some (Inl e, b', s4)
                      | (Inr _, s4) \<Rightarrow> Some (Inl post_failed_error, b', s4))
                 | (True, b', s3) \<Rightarrow> Some (Inr (), b'\<lparr>ob_first_pending_at := None\<rparr>, s3))))"

text \<open>The part of \<open>append\<close>'s loop body before the flush: how many bytes join the batch.\<close>

definition start_batch :: "OutputBuffer \<Rightarrow> out_sys \<Rightarrow> OutputBuffer \<times> out_sys" where
  "start_batch b s =
    (if ob_batch b = [] then
       let s1 = interfere (ob_config b) s in (b\<lparr>ob_first_pending_at := Some (now s1)\<rparr>, s1)
     else (b, s))"

definition batch_take :: "OutputBuffer \<Rightarrow> u8 list \<Rightarrow> nat" where
  "batch_take b data =
    (let available = saturating_sub (oc_output_batch_max_bytes (ob_config b)) (vec_len (ob_batch b)) in
     min (length data) (max (unat available) 1))"

definition batch_full :: "OutputBuffer \<Rightarrow> bool" where
  "batch_full b \<longleftrightarrow> vec_len (ob_batch b) \<ge> oc_output_batch_max_bytes (ob_config b)"

function append_output ::
    "OutputBuffer \<Rightarrow> u8 list \<Rightarrow> out_sys \<Rightarrow> ((PtyxError + unit) \<times> OutputBuffer \<times> out_sys) option" where
  "append_output b data s =
    (if data = [] then Some (Inr (), b, s)
     else
       let (b1, s1) = start_batch b s; k = batch_take b1 data;
           b2 = b1\<lparr>ob_batch := ob_batch b1 @ take k data\<rparr> in
       if batch_full b2 then
         (case flush b2 s1 of
            None \<Rightarrow> None
          | Some (Inl e, b3, s2) \<Rightarrow> Some (Inl e, b3, s2)
          | Some (Inr _, b3, s2) \<Rightarrow> append_output b3 (drop k data) s2)
       else append_output b2 (drop k data) s1)"
  by pat_completeness auto
termination
  by (relation "measure (\<lambda>(b, data, s). length data)") (auto simp: batch_take_def Let_def)

declare append_output.simps [simp del]

definition poll_timeout :: "OutputBuffer \<Rightarrow> Duration \<Rightarrow> Duration option" where
  "poll_timeout b instant =
    Some (case ob_first_pending_at b of
            Some started \<Rightarrow> oc_output_batch_max_delay (ob_config b) - (instant - started)
          | None \<Rightarrow> IDLE_POLL_INTERVAL)"

definition should_flush_for_delay :: "OutputBuffer \<Rightarrow> Duration \<Rightarrow> bool" where
  "should_flush_for_delay b instant =
    (case ob_first_pending_at b of
       Some started \<Rightarrow> instant - started \<ge> oc_output_batch_max_delay (ob_config b)
     | None \<Rightarrow> False)"

definition close_ports :: "OutputBuffer \<Rightarrow> out_sys \<Rightarrow> out_sys" where
  "close_ports b s = snd (post_output_closed (oc_output_port (ob_config b)) (interfere (ob_config b) s))"

definition output_post_error :: "OutputBuffer \<Rightarrow> PtyxError \<Rightarrow> out_sys \<Rightarrow> out_sys" where
  "output_post_error b e s = snd (post_error (oc_event_port (ob_config b)) Output e (interfere (ob_config b) s))"

definition flush_and_post_error ::
    "OutputBuffer \<Rightarrow> PtyxError \<Rightarrow> out_sys \<Rightarrow> (OutputBuffer \<times> out_sys) option" where
  "flush_and_post_error b e s =
     map_option (\<lambda>(_, b', s'). (b', output_post_error b' e s')) (flush b s)"

section \<open>What the other threads can do\<close>

lemma post_message_frame:
  obtains vm where "post_message port vs s = (fst (post_message port vs s), s\<lparr>msg_vm := vm\<rparr>)"
    "dl_post vm = dl_post (msg_vm s)"
proof -
  obtain b vm where post: "post_array port vs (msg_vm s) = (b, vm)" by fastforce
  then have "dl_post vm = dl_post (msg_vm s)"
    by (auto simp: post_array_def post_cobject_def Let_def split: if_splits option.splits)
  with post show thesis by (intro that [of vm]) (simp_all add: post_message_def)
qed

lemma post_message_fields [simp]:
  "peers (snd (post_message port vs s)) = peers s"
  "next_peer (snd (post_message port vs s)) = next_peer s"
  "external_bytes (snd (post_message port vs s)) = external_bytes s"
  "linked (snd (post_message port vs s)) = linked s"
  by (rule post_message_frame [of port vs s], simp add: linked_def prod_eq_iff)+

lemma post_message_out_fields [simp]:
  fixes s :: out_sys
  shows "inflight (snd (post_message port vs s)) = inflight s"
    "stop (snd (post_message port vs s)) = stop s"
    "env (snd (post_message port vs s)) = env s"
    "acked_chunks (snd (post_message port vs s)) = acked_chunks s"
    "now (snd (post_message port vs s)) = now s"
  by (rule post_message_frame [of port vs s], simp add: prod_eq_iff)+

definition logged :: "DartPort \<Rightarrow> DartPort \<Rightarrow> DartValue list \<Rightarrow> bool \<Rightarrow> (out_message \<times> bool) list" where
  "logged p port vs answer =
     (if p = port then (case output_message vs of None \<Rightarrow> [] | Some m \<Rightarrow> [(m, answer)]) else [])"

lemma post_message_log:
  assumes "sendable vs"
  shows "output_log p (snd (post_message port vs s)) =
      output_log p s @ (if linked s then logged p port vs (fst (post_message port vs s)) else [])"
    and "\<not> linked s \<Longrightarrow> \<not> fst (post_message port vs s)"
proof -
  obtain answer s' where post: "post_message port vs s = (answer, s')" by fastforce
  from assms post show "output_log p (snd (post_message port vs s)) =
      output_log p s @ (if linked s then logged p port vs (fst (post_message port vs s)) else [])"
  proof (cases rule: post_message_cases)
    case (sent vm)
    then show ?thesis
      using port_posts_append [OF sent(2,4), of p] post
      by (simp add: output_log_def logged_def map_filter_def split: option.split)
  qed (use post in simp)
  from assms post show "\<not> linked s \<Longrightarrow> \<not> fst (post_message port vs s)"
    by (cases rule: post_message_cases) (use post in auto)
qed

lemma logged_event [simp]:
  "logged p port [Int64 a, Int64 b] answer = []"
  "logged p port [Int64 a, Int64 b, Int64 c, String t] answer = []"
  "logged p port [Int64 a, Int64 b, Int64 c, Int64 d, Int64 e] answer = []"
  by (simp_all add: logged_def)

text \<open>The output messages depend on the Dart VM only.\<close>

lemma output_log_vm:
  "msg_vm s = msg_vm s' \<Longrightarrow> output_log p s = output_log p s'"
  "msg_vm s = msg_vm s' \<Longrightarrow> delivered_chunks p s = delivered_chunks p s'"
  by (simp_all add: output_log_def port_posts_def delivered_chunks_def)

definition others :: "out_sys \<Rightarrow> out_sys \<Rightarrow> bool" where
  "others s s' \<longleftrightarrow>
     (\<forall>port. output_log port s' = output_log port s)
   \<and> linked s' = linked s
   \<and> (stop s \<longrightarrow> stop s') \<and> (poisoned (inflight s) \<longrightarrow> poisoned (inflight s'))
   \<and> guarded (inflight s') \<le> guarded (inflight s)"

lemma others_refl [simp]: "others s s"
  by (simp add: others_def)

lemma others_trans: "others s s' \<Longrightarrow> others s' s'' \<Longrightarrow> others s s''"
  by (auto simp: others_def)

lemma others_vm_same:
  "msg_vm s' = msg_vm s \<Longrightarrow> (stop s \<longrightarrow> stop s') \<Longrightarrow> (poisoned (inflight s) \<longrightarrow> poisoned (inflight s')) \<Longrightarrow>
   guarded (inflight s') \<le> guarded (inflight s) \<Longrightarrow> others s s'"
  using output_log_vm(1) [of s' s] by (simp add: others_def linked_def)

lemma others_post:
  "sendable vs \<Longrightarrow> (\<And>p answer. logged p port vs answer = []) \<Longrightarrow> others s (snd (post_message port vs s))"
  by (simp add: others_def post_message_log)

lemma others_ack: "others s (snd (ack_inflight acks n s))"
  by (rule others_vm_same) (auto simp: ack_inflight_def lock_def saturating_sub_le)

lemma drop_peer_fields [simp]:
  "msg_vm (drop_peer p s) = msg_vm s" "linked (drop_peer p s) = linked s"
  "next_peer (drop_peer p s) = next_peer s"
  by (simp_all add: drop_peer_def linked_def split: option.split)

lemma drop_peer_out_fields [simp]:
  fixes s :: out_sys
  shows "inflight (drop_peer p s) = inflight s" "stop (drop_peer p s) = stop s"
    "env (drop_peer p s) = env s" "acked_chunks (drop_peer p s) = acked_chunks s"
  by (simp_all add: drop_peer_def split: option.split)

lemma others_event: "others s (apply_event cfg s ev)"
proof (cases ev)
  case Ack_next
  have "others s (snd (ack_inflight b n s)\<lparr>acked_chunks := k\<rparr>)" for b n k
    using others_ack [of s b n] by (rule others_trans) (rule others_vm_same, simp_all)
  then show ?thesis using Ack_next by (simp split: list.split)
next
  case (Finalize p)
  have "others s (drop_peer p s)" by (rule others_vm_same) simp_all
  then show ?thesis using Finalize by (simp add: external_output_finalizer_def)
qed (auto simp: others_ack post_exit_def post_error_def post_error_message_def post_term_mode_def Let_def
      intro!: others_post intro: others_vm_same)

lemma others_events: "others s (apply_events cfg evs s)"
  unfolding apply_events_def
  by (induction evs arbitrary: s) (auto intro: others_trans [OF others_event])

lemma others_interfere: "others s (interfere cfg s)"
proof (cases "env s")
  case (Cons evs rest)
  have "others s (s\<lparr>env := rest\<rparr>)" by (rule others_vm_same) simp_all
  from others_trans [OF this others_events] Cons show ?thesis
    by (simp add: interfere_def)
qed (simp add: interfere_def)

lemma others_capacity_loop: "capacity_loop cfg script s = Some (r, s') \<Longrightarrow> others s s'"
proof (induction cfg script s rule: capacity_loop.induct)
  case (2 cfg evs rest s)
  have step: "others s (apply_events cfg evs (s\<lparr>env := rest\<rparr>))"
    by (rule others_trans [OF others_vm_same others_events]) simp_all
  show ?case
    using 2 step by (auto simp: Let_def split: if_splits intro: others_trans)
qed (auto split: if_splits)

lemma capacity_loop_True:
  "capacity_loop cfg script s = Some (Inr True, s') \<Longrightarrow>
   guarded (inflight s') < oc_max_inflight cfg \<and> \<not> stop s'"
  by (induction cfg script s rule: capacity_loop.induct) (auto simp: Let_def split: if_splits)

lemma capacity_loop_False:
  "capacity_loop cfg script s = Some (Inr False, s') \<Longrightarrow> stop s'"
  by (induction cfg script s rule: capacity_loop.induct) (auto simp: Let_def split: if_splits)

lemma wait_capacity_others: "wait_for_inflight_capacity cfg s = Some (r, s') \<Longrightarrow> others s s'"
  by (auto simp: wait_for_inflight_capacity_def Let_def lock_def split: if_splits
      intro: others_interfere others_trans [OF others_interfere others_capacity_loop])

lemma wait_capacity_True:
  "wait_for_inflight_capacity cfg s = Some (Inr True, s') \<Longrightarrow> oc_require_acks cfg \<Longrightarrow>
   guarded (inflight s') < oc_max_inflight cfg \<and> \<not> stop s'"
  by (auto simp: wait_for_inflight_capacity_def Let_def lock_def split: if_splits
      dest: capacity_loop_True)

lemma capacity_loop_Inl:
  "capacity_loop cfg script s = Some (Inl e, s') \<Longrightarrow> poisoned (inflight s')"
  by (induction cfg script s rule: capacity_loop.induct) (auto simp: Let_def split: if_splits)

lemma wait_capacity_Inl:
  "wait_for_inflight_capacity cfg s = Some (Inl e, s') \<Longrightarrow> poisoned (inflight s')"
  by (auto simp: wait_for_inflight_capacity_def Let_def lock_def split: if_splits
      dest: capacity_loop_Inl)

lemma wait_capacity_False:
  "wait_for_inflight_capacity cfg s = Some (Inr False, s') \<Longrightarrow> stop s'"
  by (auto simp: wait_for_inflight_capacity_def Let_def lock_def split: if_splits
      dest: capacity_loop_False)

section \<open>What a flush does\<close>

text \<open>The chunk \<open>c\<close> was posted to \<open>port\<close> once, with the answer \<open>posted\<close>, among events of others.\<close>

definition posts_chunk :: "u8 list \<Rightarrow> DartPort \<Rightarrow> bool \<Rightarrow> out_sys \<Rightarrow> out_sys \<Rightarrow> bool" where
  "posts_chunk c port posted s s' \<longleftrightarrow>
     (\<forall>p. output_log p s' = output_log p s @ (if linked s \<and> p = port then [(Chunk c, posted)] else []))
   \<and> linked s' = linked s \<and> (posted \<longrightarrow> linked s) \<and> (stop s \<longrightarrow> stop s')
   \<and> (poisoned (inflight s) \<longrightarrow> poisoned (inflight s'))"

lemma posts_chunk_others:
  "others s s1 \<Longrightarrow> posts_chunk c port posted s1 s2 \<Longrightarrow> others s2 s3 \<Longrightarrow> posts_chunk c port posted s s3"
  by (auto simp: posts_chunk_def others_def)

lemma posts_chunk_delivered:
  "posts_chunk c port posted s s' \<Longrightarrow>
   delivered_chunks p s' = delivered_chunks p s @ (if posted \<and> p = port then [c] else [])"
  by (auto simp: posts_chunk_def delivered_chunks_def chunks_of_def map_filter_def)

lemma others_delivered: "others s s' \<Longrightarrow> delivered_chunks p s' = delivered_chunks p s"
  by (simp add: others_def delivered_chunks_def)

lemma chunk_message [simp]:
  "vec_fits d \<Longrightarrow> logged p port [Int64 PTYX_MESSAGE_OUTPUT, TypedData d (vec_len d)] answer
     = (if p = port then [(Chunk d, answer)] else [])"
  "vec_fits d \<Longrightarrow> logged p port [Int64 PTYX_MESSAGE_OUTPUT, ExternalTypedData d (vec_len d) pr] answer
     = (if p = port then [(Chunk d, answer)] else [])"
  by (simp_all add: logged_def unat_vec_len)

lemma post_output_copied_posts:
  assumes "vec_fits d" "post_output_copied port d (vec_len d) s = (posted, s')"
  shows "posts_chunk d port posted s s' \<and> inflight s' = inflight s"
proof -
  have eq: "posted = fst (post_message port [Int64 PTYX_MESSAGE_OUTPUT, TypedData d (vec_len d)] s)"
    "s' = snd (post_message port [Int64 PTYX_MESSAGE_OUTPUT, TypedData d (vec_len d)] s)"
    using assms(2) by (simp_all add: post_output_copied_def)
  have send: "sendable [Int64 PTYX_MESSAGE_OUTPUT, TypedData d (vec_len d)]"
    by (rule sendable_data) fact
  show ?thesis
    unfolding eq posts_chunk_def
    using post_message_log(1) [OF send, of _ port s] post_message_log(2) [OF send, of s port] assms(1)
    by auto
qed

lemma post_output_external_posts:
  assumes "vec_fits d" "post_output_external port d s = (posted, s')"
  shows "posts_chunk d port posted s s' \<and> inflight s' = inflight s"
proof -
  define s1 where "s1 = s\<lparr>peers := (peers s)(next_peer s \<mapsto> d), next_peer := Suc (next_peer s)\<rparr>"
  define vs where "vs = [Int64 PTYX_MESSAGE_OUTPUT, ExternalTypedData d (vec_len d) (next_peer s)]"
  obtain s2 where post: "post_message port vs s1 = (posted, s2)"
    and s': "s' = (if posted then s2 else drop_peer (next_peer s) s2)"
    using assms(2) by (auto simp: post_output_external_def s1_def vs_def Let_def split: prod.splits bool.splits)
  have eqs: "posted = fst (post_message port vs s1)" "s2 = snd (post_message port vs s1)"
    using post by simp_all
  have send: "sendable vs"
    unfolding vs_def by (rule sendable_data) fact
  have same: "others s s1" "others s2 s'"
    using s' by (auto simp: s1_def intro!: others_vm_same)
  have "posts_chunk d port posted s1 s2 \<and> inflight s2 = inflight s1"
    unfolding posts_chunk_def eqs
    using post_message_log(1) [OF send, of _ port s1] post_message_log(2) [OF send, of s1 port] assms(1)
    by (auto simp: vs_def)
  moreover have "inflight s1 = inflight s" "inflight s' = inflight s2"
    by (simp_all add: s1_def s')
  ultimately show ?thesis
    using posts_chunk_others same by metis
qed

lemma interfere_inflight: "guarded (inflight (interfere cfg s)) \<le> guarded (inflight s)"
  using others_interfere [of s cfg] by (simp add: others_def)

lemma reserve_external_others: "reserve_external_bytes cfg m len s = (ok, s') \<Longrightarrow> others s s'"
proof -
  assume "reserve_external_bytes cfg m len s = (ok, s')"
  moreover have "others s ((interfere cfg s)\<lparr>external_bytes := n\<rparr>)" for n
    by (rule others_trans [OF others_interfere [of s cfg] others_vm_same]) simp_all
  ultimately show ?thesis
    by (auto simp: reserve_external_bytes_def Let_def split: option.splits if_splits
        intro: others_interfere)
qed

lemma post_batch_posts:
  assumes "vec_fits (ob_batch b)" "post_batch b s = (posted, b', s')"
  shows "posts_chunk (ob_batch b) (oc_output_port (ob_config b)) posted s s'
    \<and> guarded (inflight s') \<le> guarded (inflight s)
    \<and> ob_batch b' = (if posted then [] else ob_batch b') \<and> ob_batch b' \<in> {[], ob_batch b}
    \<and> ob_config b' = ob_config b"
proof -
  let ?cfg = "ob_config b"
  obtain ext s1 where res: "(if oc_use_external_output ?cfg
      then reserve_external_bytes ?cfg (oc_max_external_output_bytes ?cfg) (vec_len (ob_batch b)) s
      else (False, s)) = (ext, s1)"
    by fastforce
  have s1: "others s s1"
    using res by (auto split: if_splits intro: reserve_external_others)
  have s1': "others s (interfere ?cfg s1)"
    by (rule others_trans [OF s1 others_interfere])
  have "posts_chunk (ob_batch b) (oc_output_port ?cfg) posted (interfere ?cfg s1) s'
      \<and> inflight s' = inflight (interfere ?cfg s1)"
    using assms(2) res post_output_external_posts [OF assms(1)] post_output_copied_posts [OF assms(1)]
    by (auto simp: post_batch_def Let_def split: prod.splits if_splits)
  then show ?thesis
    using posts_chunk_others [OF s1' _ others_refl] s1' assms(2) res
    by (auto simp: post_batch_def Let_def others_def split: prod.splits if_splits)
qed

lemma reserve_inflight_others:
  assumes "reserve_inflight cfg len s = (Inr u, s')"
  shows "(\<forall>port. output_log port s' = output_log port s) \<and> linked s' = linked s \<and> (stop s \<longrightarrow> stop s')
      \<and> (poisoned (inflight s) \<longrightarrow> poisoned (inflight s'))"
    and "unat (guarded (inflight s')) \<le> unat (guarded (inflight s)) + (if oc_require_acks cfg then unat len else 0)"
proof -
  let ?s1 = "interfere cfg s"
  have s1: "others s ?s1" by (rule others_interfere)
  have le: "unat (guarded (inflight ?s1)) \<le> unat (guarded (inflight s))"
    using interfere_inflight by (simp add: word_le_nat_alt)
  have cases: "s' = (if oc_require_acks cfg then
      ?s1\<lparr>inflight := set_guarded (saturating_add (guarded (inflight ?s1)) len) (inflight ?s1)\<rparr> else s)"
    using assms by (auto simp: reserve_inflight_def Let_def lock_def split: if_splits)
  show "(\<forall>port. output_log port s' = output_log port s) \<and> linked s' = linked s \<and> (stop s \<longrightarrow> stop s')
      \<and> (poisoned (inflight s) \<longrightarrow> poisoned (inflight s'))"
    using s1 output_log_vm(1) [of s' ?s1]
    by (auto simp: cases others_def linked_def output_log_def port_posts_def)
  show "unat (guarded (inflight s')) \<le> unat (guarded (inflight s)) + (if oc_require_acks cfg then unat len else 0)"
    using le by (auto simp: cases unat_saturating_add intro: min.coboundedI1)
qed

lemma reserve_inflight_Inl_others: "reserve_inflight cfg len s = (Inl e, s') \<Longrightarrow> others s s'"
  by (auto simp: reserve_inflight_def Let_def lock_def others_interfere split: if_splits)

lemma reserve_inflight_Inl_poisoned: "reserve_inflight cfg len s = (Inl e, s') \<Longrightarrow> poisoned (inflight s')"
  by (auto simp: reserve_inflight_def Let_def lock_def split: if_splits)

lemma release_inflight_others:
  assumes "release_inflight cfg len s = (r, s')"
  shows "others s s'"
    and "r = Inr u \<Longrightarrow> oc_require_acks cfg \<Longrightarrow>
      unat (guarded (inflight s')) \<le> unat (guarded (inflight s)) - unat len"
proof -
  let ?s1 = "interfere cfg s"
  have s1: "others s ?s1" by (rule others_interfere)
  have "others s (?s1\<lparr>inflight := set_guarded (saturating_sub (guarded (inflight ?s1)) len) (inflight ?s1)\<rparr>)"
    by (rule others_trans [OF s1 others_vm_same]) (simp_all add: saturating_sub_le)
  then show "others s s'"
    using assms s1 by (auto simp: release_inflight_def Let_def lock_def split: if_splits)
  have "unat (guarded (inflight ?s1)) \<le> unat (guarded (inflight s))"
    using interfere_inflight by (simp add: word_le_nat_alt)
  then show "r = Inr u \<Longrightarrow> oc_require_acks cfg \<Longrightarrow>
      unat (guarded (inflight s')) \<le> unat (guarded (inflight s)) - unat len"
    using assms by (auto simp: release_inflight_def Let_def lock_def unat_saturating_sub split: if_splits)
qed

lemma flush_cases:
  assumes "flush b s = Some (r, b', s')" "vec_fits (ob_batch b)"
  obtains (empty) "ob_batch b = []" "r = Inr ()" "b' = b\<lparr>ob_first_pending_at := None\<rparr>" "s' = s"
  | (stopped) "ob_batch b \<noteq> []" "r = Inr ()" "b' = b" "others s s'" "stop s'" "oc_require_acks (ob_config b)"
  | (failed) e where "ob_batch b \<noteq> []" "r = Inl e" "b' = b" "others s s'" "poisoned (inflight s')"
  | (posted) "ob_batch b \<noteq> []" "r = Inr ()" "ob_batch b' = []" "ob_config b' = ob_config b"
      "posts_chunk (ob_batch b) (oc_output_port (ob_config b)) True s s'"
      "oc_require_acks (ob_config b) \<Longrightarrow> \<not> stop s"
      "oc_require_acks (ob_config b) \<Longrightarrow>
        unat (guarded (inflight s')) < unat (oc_max_inflight (ob_config b)) + length (ob_batch b)"
  | (rejected) e where "ob_batch b \<noteq> []" "r = Inl e" "ob_batch b' \<in> {[], ob_batch b}" "ob_config b' = ob_config b"
      "posts_chunk (ob_batch b) (oc_output_port (ob_config b)) False s s'"
      "oc_require_acks (ob_config b) \<Longrightarrow> \<not> stop s"
      "oc_require_acks (ob_config b) \<Longrightarrow>
        unat (guarded (inflight s')) < unat (oc_max_inflight (ob_config b)) + length (ob_batch b)"
      "oc_require_acks (ob_config b) \<Longrightarrow> e = post_failed_error \<Longrightarrow> guarded (inflight s') \<le> guarded (inflight s)"
proof (cases "ob_batch b = []")
  case True
  then show thesis
    using assms(1) by (intro empty) (simp_all add: flush_def)
next
  case ne: False
  let ?cfg = "ob_config b" and ?len = "vec_len (ob_batch b)"
  obtain w s1 where wait: "wait_for_inflight_capacity ?cfg s = Some (w, s1)"
    using assms(1) ne by (cases "wait_for_inflight_capacity ?cfg s") (auto simp: flush_def Let_def)
  have o1: "others s s1" by (rule wait_capacity_others [OF wait])
  show thesis
  proof (cases "w = Inr True")
    case False
    have bad: "poisoned (inflight s1)" if "w = Inl e" for e
      using wait that wait_capacity_Inl by blast
    from False consider e where "w = Inl e" | "w = Inr False" by (cases w) auto
    then show thesis
    proof cases
      case 1
      then show thesis using assms(1) ne wait o1 bad by (intro failed [of e]) (auto simp: flush_def Let_def)
    next
      case 2
      then have "oc_require_acks ?cfg" "stop s1"
        using wait wait_capacity_False by (auto simp: wait_for_inflight_capacity_def split: if_splits)
      then show thesis using 2 assms(1) ne wait o1 by (intro stopped) (simp_all add: flush_def Let_def)
    qed
  next
    case True
    note free = wait_capacity_True [OF wait [unfolded True]]
    have unstopped: "oc_require_acks ?cfg \<Longrightarrow> \<not> stop s"
      using free o1 by (auto simp: others_def)
    obtain u s2 where res: "reserve_inflight ?cfg ?len s1 = (u, s2)" by fastforce
    show thesis
    proof (cases u)
      case (Inl e)
      then show thesis
        using assms(1) ne wait True res o1 others_trans [OF o1 reserve_inflight_Inl_others] reserve_inflight_Inl_poisoned
        by (intro failed [of e]) (auto simp: flush_def Let_def)
    next
      case (Inr v)
      note r2 = reserve_inflight_others [OF res [unfolded Inr]]
      obtain p b3 s3 where post: "post_batch b s2 = (p, b3, s3)" by (metis prod_cases3)
      note p3 = post_batch_posts [OF assms(2) post]
      have chunk: "posts_chunk (ob_batch b) (oc_output_port ?cfg) p s s3"
        using p3 r2 o1 by (auto simp: posts_chunk_def others_def)
      have fits: "unat ?len = length (ob_batch b)"
        using assms(2) by (rule unat_vec_len)
      have low: "unat (guarded (inflight s3)) < unat (oc_max_inflight ?cfg) + length (ob_batch b)"
        if "oc_require_acks ?cfg"
        using that free r2(2) p3 fits by (simp add: word_less_nat_alt word_le_nat_alt)
      show thesis
      proof (cases p)
        case p: True
        have out: "r = Inr ()" "b' = b3\<lparr>ob_first_pending_at := None\<rparr>" "s' = s3"
          using assms(1) ne wait True res Inr post p by (simp_all add: flush_def Let_def)
        show thesis
          by (rule posted) (use out ne p p3 chunk low unstopped in auto)
      next
        case p: False
        obtain v' s4 where rel: "release_inflight ?cfg ?len s3 = (v', s4)" by fastforce
        note r4 = release_inflight_others [OF rel]
        have chunk4: "posts_chunk (ob_batch b) (oc_output_port ?cfg) False s s4"
          using posts_chunk_others [OF others_refl chunk r4(1)] p by simp
        have low4: "unat (guarded (inflight s4)) \<le> unat (guarded (inflight s3))"
          using r4(1) by (simp add: others_def word_le_nat_alt)
        have undone: "guarded (inflight s4) \<le> guarded (inflight s)"
          if "oc_require_acks ?cfg" and "v' = Inr x" for x
        proof -
          have "unat (guarded (inflight s4)) \<le> unat (guarded (inflight s3)) - length (ob_batch b)"
            using r4(2) [OF that(2,1)] fits by simp
          moreover have "unat (guarded (inflight s3)) \<le> unat (guarded (inflight s)) + length (ob_batch b)"
            using that(1) r2(2) p3 o1 fits by (simp add: others_def word_le_nat_alt)
          ultimately show ?thesis by (simp add: word_le_nat_alt)
        qed
        have undone_error: "e \<noteq> post_failed_error" if "v' = Inl e" "oc_require_acks ?cfg" for e
          using that rel
          by (auto simp: release_inflight_def Let_def lock_def post_failed_error_def
              inflight_poisoned_error_def split: if_splits)
        define e where "e = (case v' of Inl e \<Rightarrow> e | Inr _ \<Rightarrow> post_failed_error)"
        have "flush b s = Some (Inl e, b3, s4)"
          using ne wait True res Inr post p rel by (cases v') (simp_all add: flush_def Let_def e_def)
        then have out: "r = Inl e" "b' = b3" "s' = s4"
          using assms(1) by simp_all
        show thesis
        proof (rule rejected [of e])
          show "oc_require_acks ?cfg \<Longrightarrow> e = post_failed_error \<Longrightarrow> guarded (inflight s') \<le> guarded (inflight s)"
            using undone undone_error out by (cases v') (auto simp: e_def)
          show "oc_require_acks ?cfg \<Longrightarrow> unat (guarded (inflight s')) < unat (oc_max_inflight ?cfg) + length (ob_batch b)"
            using low low4 out by fastforce
        qed (use ne out chunk4 p3 unstopped in auto)
      qed
    qed
  qed
qed

section \<open>What appending does\<close>

lemma chunks_of_simps [simp]:
  "chunks_of [] = []"
  "chunks_of (log @ log') = chunks_of log @ chunks_of log'"
  "chunks_of ((Chunk c, True) # log) = c # chunks_of log"
  "chunks_of ((m, False) # log) = chunks_of log"
  "chunks_of ((End_of_output, answer) # log) = chunks_of log"
  by (simp_all add: chunks_of_def map_filter_def split: out_message.split)

definition batch_max :: "OutputConfig \<Rightarrow> nat" where
  "batch_max cfg = unat (oc_output_batch_max_bytes cfg)"

text \<open>
  Between operations the batch is below the limit, except after a stop under acknowledgements, when
  nothing is posted any more.
\<close>

definition batch_ok :: "OutputBuffer \<Rightarrow> out_sys \<Rightarrow> bool" where
  "batch_ok b s \<longleftrightarrow> length (ob_batch b) < batch_max (ob_config b) \<or> (oc_require_acks (ob_config b) \<and> stop s)"

definition inflight_ok :: "OutputConfig \<Rightarrow> out_sys \<Rightarrow> bool" where
  "inflight_ok cfg s \<longleftrightarrow>
     (oc_require_acks cfg \<longrightarrow> unat (guarded (inflight s)) < unat (oc_max_inflight cfg) + batch_max cfg)"

definition chunk_message_ok :: "OutputConfig \<Rightarrow> out_message \<times> bool \<Rightarrow> bool" where
  "chunk_message_ok cfg m \<longleftrightarrow> (\<exists>c. fst m = Chunk c \<and> c \<noteq> [] \<and> length c \<le> batch_max cfg)"

definition emits :: "OutputConfig \<Rightarrow> u8 list \<Rightarrow> out_sys \<Rightarrow> PtyxError + unit \<Rightarrow> OutputBuffer \<Rightarrow> out_sys \<Rightarrow> bool" where
  "emits cfg whole s r b' s' \<longleftrightarrow>
     ob_config b' = cfg \<and> length (ob_batch b') \<le> length whole
   \<and> (\<exists>ms. output_log (oc_output_port cfg) s' = output_log (oc_output_port cfg) s @ ms
        \<and> list_all (chunk_message_ok cfg) ms
        \<and> (r = Inr () \<longrightarrow> concat (chunks_of ms) @ ob_batch b' = whole \<and> batch_ok b' s'
             \<and> list_all snd ms)
        \<and> (r \<noteq> Inr () \<longrightarrow> poisoned (inflight s') \<or> \<not> linked s \<or> \<not> list_all snd ms)
        \<and> prefix (concat (chunks_of ms)) whole)
   \<and> linked s' = linked s \<and> (stop s \<longrightarrow> stop s') \<and> (inflight_ok cfg s \<longrightarrow> inflight_ok cfg s')
   \<and> (poisoned (inflight s) \<longrightarrow> poisoned (inflight s'))"

lemma emits_Inr_trans:
  assumes "emits cfg t s (Inr u) b1 s1" "emits cfg (ob_batch b1 @ d) s1 r b' s'"
  shows "emits cfg (t @ d) s r b' s'"
proof -
  from assms(1) obtain ms1 where 1: "output_log (oc_output_port cfg) s1 = output_log (oc_output_port cfg) s @ ms1"
    "list_all (chunk_message_ok cfg) ms1" "concat (chunks_of ms1) @ ob_batch b1 = t" "list_all snd ms1"
    by (auto simp: emits_def)
  from assms(2) obtain ms2 where 2: "output_log (oc_output_port cfg) s' = output_log (oc_output_port cfg) s1 @ ms2"
    "list_all (chunk_message_ok cfg) ms2" "prefix (concat (chunks_of ms2)) (ob_batch b1 @ d)"
    "r = Inr () \<longrightarrow> concat (chunks_of ms2) @ ob_batch b' = ob_batch b1 @ d \<and> batch_ok b' s' \<and> list_all snd ms2"
    by (auto simp: emits_def)
  have "length (ob_batch b') \<le> length (t @ d)"
    using assms by (auto simp: emits_def)
  moreover have "prefix (concat (chunks_of (ms1 @ ms2))) (t @ d)"
    using 1(3) 2(3) by auto
  moreover have "r = Inr () \<longrightarrow> concat (chunks_of (ms1 @ ms2)) @ ob_batch b' = t @ d"
    using 1(3) 2(4) by auto
  ultimately show ?thesis
    using assms 1 2 unfolding emits_def by (intro conjI exI [of _ "ms1 @ ms2"]) auto
qed

lemma emits_Inl_extend:
  assumes "emits cfg t s (Inl e) b' s'"
  shows "emits cfg (t @ d) s (Inl e) b' s'"
proof -
  have "prefix xs t \<Longrightarrow> prefix xs (t @ d)" for xs
    by (auto simp: prefix_def)
  then show ?thesis
    using assms unfolding emits_def by fastforce
qed

lemma emits_others:
  assumes "others s s1" "emits cfg t s1 r b' s'"
  shows "emits cfg t s r b' s'"
proof -
  have "output_log (oc_output_port cfg) s1 = output_log (oc_output_port cfg) s" "linked s1 = linked s"
    "stop s \<longrightarrow> stop s1" "poisoned (inflight s) \<longrightarrow> poisoned (inflight s1)"
    "guarded (inflight s1) \<le> guarded (inflight s)"
    using assms(1) by (simp_all add: others_def)
  moreover from this have "inflight_ok cfg s \<longrightarrow> inflight_ok cfg s1"
    by (auto simp: inflight_ok_def word_le_nat_alt)
  ultimately show ?thesis
    using assms(2) by (auto simp: emits_def)
qed

lemma emits_nothing:
  assumes "others s s'" "ob_config b' = cfg" "ob_batch b' = whole" "r = Inr () \<Longrightarrow> batch_ok b' s'"
    "r \<noteq> Inr () \<Longrightarrow> poisoned (inflight s')"
  shows "emits cfg whole s r b' s'"
  by (rule emits_others [OF assms(1)]) (use assms in \<open>auto simp: emits_def\<close>)

lemma flush_emits:
  assumes "flush b s = Some (r, b', s')" "vec_fits (ob_batch b)"
    and small: "length (ob_batch b) \<le> batch_max (ob_config b) \<or> (oc_require_acks (ob_config b) \<and> stop s)"
    and pos: "0 < batch_max (ob_config b)"
  shows "emits (ob_config b) (ob_batch b) s r b' s'"
proof -
  have chunk: "emits (ob_config b) (ob_batch b) s r b' s'"
    if ne: "ob_batch b \<noteq> []" and cfg: "ob_config b' = ob_config b"
      and posts: "posts_chunk (ob_batch b) (oc_output_port (ob_config b)) answer s s'"
      and go: "oc_require_acks (ob_config b) \<Longrightarrow> \<not> stop s"
      and low: "oc_require_acks (ob_config b) \<Longrightarrow>
        unat (guarded (inflight s')) < unat (oc_max_inflight (ob_config b)) + length (ob_batch b)"
      and r: "(r = Inr ()) = answer" and b': "ob_batch b' \<in> {[], ob_batch b}" "answer \<Longrightarrow> ob_batch b' = []" for answer
  proof -
    have len: "length (ob_batch b) \<le> batch_max (ob_config b)"
      using small go by auto
    have "inflight_ok (ob_config b) s'"
      using low len by (auto simp: inflight_ok_def)
    moreover have "batch_ok b' s'" if "r = Inr ()"
      using that r b' cfg pos by (simp add: batch_ok_def)
    moreover define ms where "ms = (if linked s then [(Chunk (ob_batch b), answer)] else [])"
    have "output_log (oc_output_port (ob_config b)) s' = output_log (oc_output_port (ob_config b)) s @ ms"
      using posts by (simp add: posts_chunk_def ms_def)
    moreover have "list_all (chunk_message_ok (ob_config b)) ms"
      using ne len by (simp add: ms_def chunk_message_ok_def)
    moreover have "chunks_of ms = (if answer then [ob_batch b] else [])"
      using posts by (cases answer) (auto simp: ms_def posts_chunk_def)
    moreover have "r = Inr () \<longrightarrow> list_all snd ms" "r \<noteq> Inr () \<longrightarrow> \<not> linked s \<or> \<not> list_all snd ms"
      using r by (simp_all add: ms_def)
    moreover have "linked s' = linked s" "stop s \<longrightarrow> stop s'" "poisoned (inflight s) \<longrightarrow> poisoned (inflight s')"
      using posts by (auto simp: posts_chunk_def)
    moreover have "length (ob_batch b') \<le> length (ob_batch b)"
      using b' by auto
    ultimately show ?thesis
      unfolding emits_def using r b' cfg by (intro conjI exI [of _ ms]) auto
  qed
  from assms(1,2) show ?thesis
  proof (cases rule: flush_cases)
    case empty
    then show ?thesis using pos by (intro emits_nothing) (auto simp: batch_ok_def)
  next
    case stopped
    then show ?thesis by (intro emits_nothing) (auto simp: batch_ok_def)
  next
    case (failed e)
    then show ?thesis by (intro emits_nothing) auto
  next
    case posted
    then show ?thesis by (intro chunk [of True]) auto
  next
    case (rejected e)
    then show ?thesis by (intro chunk [of False]) auto
  qed
qed

lemma start_batch_others:
  "start_batch b s = (b1, s1) \<Longrightarrow>
   others s s1 \<and> ob_batch b1 = ob_batch b \<and> ob_config b1 = ob_config b"
  by (auto simp: start_batch_def Let_def others_interfere split: if_splits)

lemma batch_take_bounds:
  assumes "vec_fits (ob_batch b)" "data \<noteq> []" "length (ob_batch b) < batch_max (ob_config b)"
  shows "0 < batch_take b data" "length (ob_batch b) + batch_take b data \<le> batch_max (ob_config b)"
  using assms by (auto simp: batch_take_def Let_def unat_saturating_sub unat_vec_len batch_max_def)

lemma batch_full_iff: "vec_fits (ob_batch b) \<Longrightarrow> batch_full b \<longleftrightarrow> batch_max (ob_config b) \<le> length (ob_batch b)"
  by (simp add: batch_full_def batch_max_def word_le_nat_alt unat_vec_len)

lemma vec_fits_append1: "vec_fits (xs @ ys) \<Longrightarrow> vec_fits (xs @ take n ys)"
  by (auto simp: vec_fits_def)

lemma vec_fits_shorter: "vec_fits xs \<Longrightarrow> length ys \<le> length xs \<Longrightarrow> vec_fits ys"
  by (simp add: vec_fits_def)

lemma append_emits:
  assumes "append_output b data s = Some (r, b', s')" "vec_fits (ob_batch b @ data)"
    and "batch_ok b s" "0 < batch_max (ob_config b)"
  shows "emits (ob_config b) (ob_batch b @ data) s r b' s'"
  using assms
proof (induction b data s arbitrary: r b' s' rule: append_output.induct)
  case (1 b data s)
  show ?case
  proof (cases "data = []")
    case True
    then show ?thesis
      using 1(3-) by (simp add: append_output.simps) (intro emits_nothing, auto)
  next
    case False
    obtain b1 s1 where start: "start_batch b s = (b1, s1)" by fastforce
    note st = start_batch_others [OF start]
    define k where "k = batch_take b1 data"
    define b2 where "b2 = b1\<lparr>ob_batch := ob_batch b1 @ take k data\<rparr>"
    have b2: "ob_config b2 = ob_config b" "ob_batch b2 = ob_batch b @ take k data"
      using st by (simp_all add: b2_def)
    have fits2: "vec_fits (ob_batch b2)"
      using 1(4) b2 vec_fits_append1 by simp
    have fits_b: "vec_fits (ob_batch b)"
      using 1(4) by (rule vec_fits_shorter) simp
    have small: "length (ob_batch b2) \<le> batch_max (ob_config b) \<or> (oc_require_acks (ob_config b) \<and> stop s1)"
      using 1(5) st batch_take_bounds(2) [of b1 data] fits_b False b2
      by (auto simp: batch_ok_def others_def k_def)
    show ?thesis
    proof (cases "batch_full b2")
      case full: True
      obtain r3 b3 s3 where fl: "flush b2 s1 = Some (r3, b3, s3)"
        using 1(3) False start full
        by (cases "flush b2 s1") (auto simp: append_output.simps [of b data s] k_def b2_def Let_def)
      have em: "emits (ob_config b) (ob_batch b @ take k data) s r3 b3 s3"
        using flush_emits [OF fl fits2] small 1(6) b2 st by (auto intro: emits_others)
      show ?thesis
      proof (cases r3)
        case (Inl e)
        then have "r = Inl e" "b' = b3" "s' = s3"
          using 1(3) False start full fl
          by (simp_all add: append_output.simps [of b data s] k_def b2_def Let_def)
        then show ?thesis
          using emits_Inl_extend [OF em [unfolded Inl], of "drop k data"] by simp
      next
        case (Inr u)
        then have rest: "append_output b3 (drop k data) s3 = Some (r, b', s')"
          using 1(3) False start full fl
          by (simp add: append_output.simps [of b data s] k_def b2_def Let_def)
        have "vec_fits (ob_batch b3 @ drop k data)"
          using em 1(4) by (auto simp: emits_def vec_fits_def)
        moreover have "batch_ok b3 s3" "ob_config b3 = ob_config b"
          using em Inr by (auto simp: emits_def)
        ultimately have "emits (ob_config b) (ob_batch b3 @ drop k data) s3 r b' s'"
          using 1(1) [OF False refl start [symmetric] k_def b2_def full fl refl Inr refl rest] 1(6) by simp
        then show ?thesis
          using emits_Inr_trans [OF em [unfolded Inr], of "drop k data"] by simp
      qed
    next
      case part: False
      then have rest: "append_output b2 (drop k data) s1 = Some (r, b', s')"
        using 1(3) False start by (simp add: append_output.simps [of b data s] k_def b2_def Let_def)
      have "batch_ok b2 s1"
        using part fits2 b2 by (simp add: batch_full_iff batch_ok_def not_le)
      then have "emits (ob_config b) (ob_batch b2 @ drop k data) s1 r b' s'"
        using 1(2) [OF False refl start [symmetric] k_def b2_def part rest] 1(4,6) b2 by simp
      then show ?thesis
        using emits_others [of s s1] st b2 by simp
    qed
  qed
qed

text \<open>
  C11. Output is neither lost, duplicated, reordered nor invented. Whatever acknowledgements, stops,
  finalisations and posts of other threads happen meanwhile, an \<open>append\<close> that returns has
  posted only non-empty chunks of at most the batch limit to the output port, and no other output
  message. If it succeeded, every post was accepted, and the bytes of the new chunks followed by
  the bytes still batched are exactly the bytes batched before followed by the data. If it failed,
  the bytes delivered are a prefix of them.
\<close>

theorem output_delivery:
  fixes b :: OutputBuffer and cfg :: OutputConfig and port :: DartPort
  defines "cfg \<equiv> ob_config b" and "port \<equiv> oc_output_port (ob_config b)"
  assumes "append_output b data s = Some (r, b', s')" "vec_fits (ob_batch b @ data)"
    and "batch_ok b s" "0 < batch_max cfg"
  shows "\<exists>posts. output_log port s' = output_log port s @ posts
    \<and> (\<forall>m \<in> set posts. \<exists>c. fst m = Chunk c \<and> c \<noteq> [] \<and> length c \<le> batch_max cfg)
    \<and> delivered_bytes port s' = delivered_bytes port s @ concat (chunks_of posts)
    \<and> prefix (concat (chunks_of posts)) (ob_batch b @ data)
    \<and> (r = Inr () \<longrightarrow> concat (chunks_of posts) @ ob_batch b' = ob_batch b @ data
        \<and> (\<forall>m \<in> set posts. snd m) \<and> batch_ok b' s')"
proof -
  have "emits cfg (ob_batch b @ data) s r b' s'"
    unfolding cfg_def by (rule append_emits) (use assms in simp_all)
  then show ?thesis
    by (auto simp: emits_def cfg_def port_def delivered_bytes_def delivered_chunks_def
        list_all_iff chunk_message_ok_def)
qed

definition demo_config :: OutputConfig where
  "demo_config = \<lparr>oc_require_acks = True, oc_max_inflight = 4, oc_read_buffer_size = 8,
     oc_output_batch_max_bytes = 2, oc_output_batch_max_delay = 1000, oc_use_external_output = False,
     oc_max_external_output_bytes = 0, oc_output_port = 1, oc_event_port = 2\<rparr>"

definition demo_sys :: "env_event list list \<Rightarrow> out_sys" where
  "demo_sys script =
     \<lparr>msg_vm = \<lparr>dart_initialized = True, dl_post = Some (\<lambda>_ _ _. True), dl_log = []\<rparr>, external_bytes = 0,
      peers = (\<lambda>_. None), next_peer = 1, inflight = new_mutex 0, stop = False, now = 0, acked_chunks = 0,
      env = script\<rparr>"

theorem output_delivery_witness:
  "\<exists>b' s'. append_output (OutputBuffer_new demo_config) [1, 2, 3] (demo_sys []) = Some (Inr (), b', s')
     \<and> delivered_bytes 1 s' @ ob_batch b' = [1, 2, 3] \<and> ob_batch b' = [3]"
proof -
  let ?b = "OutputBuffer_new demo_config" and ?s = "demo_sys []"
  obtain b' s' where run: "append_output ?b [1, 2, 3] ?s = Some (Inr (), b', s')" "ob_batch b' = [3]"
    by (simp add: append_output.simps OutputBuffer_new_def demo_config_def demo_sys_def start_batch_def
        interfere_def Let_def batch_take_def batch_full_def vec_len_def saturating_sub_def flush_def
        wait_for_inflight_capacity_def lock_def new_mutex_def reserve_inflight_def set_guarded_def
        saturating_add_def post_batch_def post_output_copied_def post_message_def post_array_def
        post_cobject_def length_fits_dart_def word_le_nat_alt)
  have before: "delivered_bytes 1 ?s = []"
    by (simp add: delivered_bytes_def delivered_chunks_def output_log_def port_posts_def dart_posts_def
        demo_sys_def map_filter_def)
  show ?thesis
    using output_delivery [OF run(1)] run before
    by (auto simp: OutputBuffer_new_def demo_config_def batch_ok_def batch_max_def vec_fits_def)
qed



end
