(* ===== verification/OutputAccounts.thy ===== *)
theory OutputAccounts
  imports Output
begin

text \<open>
  The two byte counters of the output side, and when it blocks. The in-flight counter is exact for a
  receiver that acknowledges each chunk once, after it got it; the counter of external bytes is
  exact for any receiver; and a stop request ends every backpressure wait.
\<close>

section \<open>The in-flight counter\<close>

definition bytes_of :: "u8 list list \<Rightarrow> nat" where
  "bytes_of cs = sum_list (map length cs)"

lemma bytes_of_simps [simp]:
  "bytes_of [] = 0" "bytes_of (c # cs) = length c + bytes_of cs"
  "bytes_of (cs @ ds) = bytes_of cs + bytes_of ds"
  by (simp_all add: bytes_of_def)

lemma delivered_update [simp]:
  fixes s :: out_sys
  shows "delivered_chunks p (s\<lparr>inflight := m\<rparr>) = delivered_chunks p s"
    "delivered_chunks p (s\<lparr>acked_chunks := k\<rparr>) = delivered_chunks p s"
    "delivered_chunks p (s\<lparr>env := e\<rparr>) = delivered_chunks p s"
    "delivered_chunks p (s\<lparr>external_bytes := x\<rparr>) = delivered_chunks p s"
  by (rule output_log_vm, simp)+

text \<open>The chunks delivered to the receiver that it has not acknowledged.\<close>

definition unacked :: "OutputConfig \<Rightarrow> out_sys \<Rightarrow> u8 list list" where
  "unacked cfg s = drop (acked_chunks s) (delivered_chunks (oc_output_port cfg) s)"

fun honest :: "env_event \<Rightarrow> bool" where
  "honest (Ack n) = False"
| "honest Poison = False"
| "honest _ = True"

definition honest_script :: "out_sys \<Rightarrow> bool" where
  "honest_script s \<longleftrightarrow> list_all (list_all honest) (env s)"

text \<open>\<open>r\<close> bytes are reserved for a chunk that is not posted yet.\<close>

definition credit :: "OutputConfig \<Rightarrow> nat \<Rightarrow> out_sys \<Rightarrow> bool" where
  "credit cfg r s \<longleftrightarrow>
     \<not> poisoned (inflight s) \<and> honest_script s
   \<and> acked_chunks s \<le> length (delivered_chunks (oc_output_port cfg) s)
   \<and> unat (guarded (inflight s)) = bytes_of (unacked cfg s) + r"

lemma credit_cong:
  assumes "credit cfg r s" "delivered_chunks (oc_output_port cfg) s' = delivered_chunks (oc_output_port cfg) s"
    "inflight s' = inflight s" "acked_chunks s' = acked_chunks s" "env s' = env s"
  shows "credit cfg r s'"
  using assms by (simp add: credit_def unacked_def honest_script_def)

lemma unat_vec_len_small: "length xs < 2 ^ 64 \<Longrightarrow> unat (vec_len xs) = length xs"
  by (simp add: vec_len_def unat_of_nat take_bit_nat_eq_self)

lemma ack_next_credit:
  assumes "credit cfg r s" "oc_require_acks cfg" "unacked cfg s = c # cs"
  shows "credit cfg r (snd (ack_inflight True (vec_len c) s)\<lparr>acked_chunks := Suc (acked_chunks s)\<rparr>)"
proof -
  let ?s' = "snd (ack_inflight True (vec_len c) s)\<lparr>acked_chunks := Suc (acked_chunks s)\<rparr>"
  have total: "unat (guarded (inflight s)) = length c + bytes_of cs + r"
    using assms by (simp add: credit_def)
  then have "length c < 2 ^ 64"
    using unsigned_less [where ?'a = nat, of "guarded (inflight s)"] by simp
  then have len: "unat (vec_len c) = length c"
    by (rule unat_vec_len_small)
  have tail: "drop (Suc (acked_chunks s)) (delivered_chunks (oc_output_port cfg) s) = cs"
    using assms(3) by (metis drop_Suc list.sel(3) tl_drop unacked_def)
  have "acked_chunks s < length (delivered_chunks (oc_output_port cfg) s)"
    using assms(3) by (metis drop_eq_Nil2 leI list.distinct(1) unacked_def)
  then show ?thesis
    using assms(1) total len tail
    by (auto simp: credit_def unacked_def honest_script_def ack_inflight_def lock_def unat_saturating_sub)
qed

lemma event_fields [simp]:
  fixes s :: out_sys
  shows "env (apply_event cfg s ev) = env s"
  by (cases ev) (auto simp: ack_inflight_def post_exit_def post_error_def post_error_message_def
      post_term_mode_def Let_def external_output_finalizer_def split: list.split sum.split)

lemma event_credit:
  assumes "credit cfg r s" "honest ev" "oc_require_acks cfg"
  shows "credit cfg r (apply_event cfg s ev)"
proof (cases "ev = Ack_next")
  case True
  then show ?thesis
    using assms ack_next_credit [OF assms(1,3)]
    by (cases "unacked cfg s") (auto simp: unacked_def)
next
  case False
  have "inflight (apply_event cfg s ev) = inflight s" "acked_chunks (apply_event cfg s ev) = acked_chunks s"
    using False assms(2)
    by (cases ev; simp add: post_exit_def post_error_def post_error_message_def
      post_term_mode_def Let_def external_output_finalizer_def)+
  then show ?thesis
    using assms(1) others_delivered [OF others_event] by (intro credit_cong [OF assms(1)]) simp_all
qed

lemma events_credit:
  "credit cfg r s \<Longrightarrow> list_all honest evs \<Longrightarrow> oc_require_acks cfg \<Longrightarrow> credit cfg r (apply_events cfg evs s)"
  unfolding apply_events_def by (induction evs arbitrary: s) (simp_all add: event_credit)

lemma credit_env_tail:
  "credit cfg r s \<Longrightarrow> env s = evs # rest \<Longrightarrow> credit cfg r (s\<lparr>env := rest\<rparr>) \<and> list_all honest evs"
  using output_log_vm(2) [of "s\<lparr>env := rest\<rparr>" s]
  by (auto simp: credit_def unacked_def honest_script_def)

lemma interfere_credit: "credit cfg r s \<Longrightarrow> oc_require_acks cfg \<Longrightarrow> credit cfg r (interfere cfg s)"
  using credit_env_tail events_credit
  by (cases "env s") (fastforce simp: interfere_def)+

lemma capacity_loop_credit:
  assumes "capacity_loop cfg script s = Some (w, s')" "credit cfg r s" "oc_require_acks cfg" "env s = script"
  shows "credit cfg r s'"
  using assms
proof (induction cfg script s rule: capacity_loop.induct)
  case (2 cfg evs rest s)
  have "env (apply_events cfg evs (s\<lparr>env := rest\<rparr>)) = rest"
    unfolding apply_events_def by (induction evs rule: rev_induct) simp_all
  moreover have "credit cfg r (apply_events cfg evs (s\<lparr>env := rest\<rparr>))"
    using credit_env_tail [OF 2(3), of evs rest] 2(4,5) events_credit by blast
  ultimately show ?case
    using 2 by (auto simp: Let_def split: if_splits)
qed (auto split: if_splits)

lemma wait_credit:
  "wait_for_inflight_capacity cfg s = Some (w, s') \<Longrightarrow> credit cfg r s \<Longrightarrow> oc_require_acks cfg \<Longrightarrow> credit cfg r s'"
  using interfere_credit [of cfg r s] capacity_loop_credit [of cfg "env (interfere cfg s)" "interfere cfg s" w s' r]
  by (auto simp: wait_for_inflight_capacity_def Let_def lock_def split: if_splits)

lemma reserve_credit:
  assumes "reserve_inflight cfg len s = (res, s')" "credit cfg r s" "oc_require_acks cfg"
    and "unat (guarded (inflight s)) + unat len < 2 ^ 64"
  shows "credit cfg (r + unat len) s' \<and> res = Inr ()"
proof -
  let ?s1 = "interfere cfg s"
  have c: "credit cfg r ?s1" by (rule interfere_credit [OF assms(2,3)])
  have "unat (guarded (inflight ?s1)) \<le> unat (guarded (inflight s))"
    using interfere_inflight by (simp add: word_le_nat_alt)
  then have add: "unat (saturating_add (guarded (inflight ?s1)) len) = unat (guarded (inflight ?s1)) + unat len"
    using assms(4) by (simp add: unat_saturating_add)
  have "res = Inr ()" "s' = ?s1\<lparr>inflight := set_guarded (saturating_add (guarded (inflight ?s1)) len) (inflight ?s1)\<rparr>"
    using assms(1,3) c by (auto simp: reserve_inflight_def Let_def lock_def credit_def)
  moreover have "delivered_chunks p (?s1\<lparr>inflight := m\<rparr>) = delivered_chunks p ?s1" for p m
    by (rule output_log_vm) simp
  ultimately show ?thesis
    using c add by (simp add: credit_def unacked_def honest_script_def)
qed

lemma release_credit:
  assumes "release_inflight cfg len s = (res, s')" "credit cfg (unat len) s" "oc_require_acks cfg"
  shows "credit cfg 0 s'"
proof -
  let ?s1 = "interfere cfg s"
  have c: "credit cfg (unat len) ?s1" by (rule interfere_credit [OF assms(2,3)])
  have "s' = ?s1\<lparr>inflight := set_guarded (saturating_sub (guarded (inflight ?s1)) len) (inflight ?s1)\<rparr>"
    using assms(1,3) c by (auto simp: release_inflight_def Let_def lock_def credit_def)
  moreover have "delivered_chunks p (?s1\<lparr>inflight := m\<rparr>) = delivered_chunks p ?s1" for p m
    by (rule output_log_vm) simp
  ultimately show ?thesis
    using c by (simp add: credit_def unacked_def honest_script_def unat_saturating_sub)
qed

lemma posts_chunk_credit:
  assumes "posts_chunk c (oc_output_port cfg) posted s s'" "credit cfg (length c) s"
    "inflight s' = inflight s" "acked_chunks s' = acked_chunks s" "env s' = env s"
  shows "credit cfg (if posted then 0 else length c) s'"
  using assms posts_chunk_delivered [OF assms(1), of "oc_output_port cfg"]
  by (auto simp: credit_def unacked_def honest_script_def)

lemma post_output_fields:
  fixes s :: out_sys
  shows "post_output_copied port d len s = (posted, s') \<Longrightarrow>
      inflight s' = inflight s \<and> acked_chunks s' = acked_chunks s \<and> env s' = env s \<and> stop s' = stop s"
    and "post_output_external port d s = (posted, s') \<Longrightarrow>
      inflight s' = inflight s \<and> acked_chunks s' = acked_chunks s \<and> env s' = env s \<and> stop s' = stop s"
proof -
  have eq: "s' = snd (post_message port vs s0)" if "post_message port vs s0 = (posted, s')" for vs s0 posted
    using that by simp
  show "post_output_copied port d len s = (posted, s') \<Longrightarrow>
      inflight s' = inflight s \<and> acked_chunks s' = acked_chunks s \<and> env s' = env s \<and> stop s' = stop s"
    unfolding post_output_copied_def by (drule eq) simp
  show "post_output_external port d s = (posted, s') \<Longrightarrow>
      inflight s' = inflight s \<and> acked_chunks s' = acked_chunks s \<and> env s' = env s \<and> stop s' = stop s"
    unfolding post_output_external_def Let_def
    by (cases "post_message port [Int64 PTYX_MESSAGE_OUTPUT, ExternalTypedData d (vec_len d) (next_peer s)]
          (s\<lparr>peers := (peers s)(next_peer s \<mapsto> d), next_peer := Suc (next_peer s)\<rparr>)")
      (auto dest!: arg_cong [where f = snd] split: bool.splits)
qed

section \<open>Accounts\<close>

text \<open>
  An account is a property \<open>I r\<close> of the shared state, with \<open>r\<close> bytes reserved for a chunk on its
  way, that other threads keep and that reserving, posting and releasing move as they should. Then
  flushing, appending and the reader's other calls keep \<open>I 0\<close>.
\<close>

locale output_account =
  fixes cfg :: OutputConfig
    and I :: "nat \<Rightarrow> out_sys \<Rightarrow> bool"
  assumes others_keep: "I r s \<Longrightarrow> env s = evs # rest \<Longrightarrow> I r (apply_events cfg evs (s\<lparr>env := rest\<rparr>))"
    and reserve_keeps: "reserve_inflight cfg (vec_len (c :: u8 list)) s = (Inr u, s') \<Longrightarrow> I 0 s \<Longrightarrow> vec_fits c \<Longrightarrow>
      (oc_require_acks cfg \<Longrightarrow> guarded (inflight s) < oc_max_inflight cfg \<and> length c \<le> batch_max cfg) \<Longrightarrow>
      I (length c) s'"
    and post_keeps: "post_batch b s = (posted, b', s') \<Longrightarrow> ob_config b = cfg \<Longrightarrow> ob_batch b \<noteq> [] \<Longrightarrow>
      vec_fits (ob_batch b) \<Longrightarrow> I (length (ob_batch b)) s \<Longrightarrow>
      I (if posted then 0 else length (ob_batch b)) s'"
    and release_keeps: "release_inflight cfg (vec_len (c :: u8 list)) s = (res, s') \<Longrightarrow> vec_fits c \<Longrightarrow>
      I (length c) s \<Longrightarrow> I 0 s'"
    and event_keeps: "I r s \<Longrightarrow> sendable vs \<Longrightarrow> (\<And>p a. chunks_of (logged p port vs a) = []) \<Longrightarrow>
      I r (snd (post_message port vs s))"
begin

lemma interfere_keeps: "I r s \<Longrightarrow> I r (interfere cfg s)"
  using others_keep by (simp add: interfere_def split: list.split)

lemma events_env: "env (apply_events cfg evs s) = env s"
  unfolding apply_events_def by (induction evs rule: rev_induct) simp_all

lemma capacity_keeps:
  "capacity_loop cfg' script s = Some (w, s') \<Longrightarrow> cfg' = cfg \<Longrightarrow> I r s \<Longrightarrow> env s = script \<Longrightarrow> I r s'"
proof (induction cfg' script s rule: capacity_loop.induct)
  case (2 cfg' evs rest s)
  have "env (apply_events cfg evs (s\<lparr>env := rest\<rparr>)) = rest"
    by (simp add: events_env)
  moreover have "I r (apply_events cfg evs (s\<lparr>env := rest\<rparr>))"
    using others_keep 2(4,5) by blast
  ultimately show ?case
    using 2 by (auto simp: Let_def split: if_splits)
qed (auto split: if_splits)

lemma wait_keeps: "wait_for_inflight_capacity cfg s = Some (w, s') \<Longrightarrow> I r s \<Longrightarrow> I r s'"
  using interfere_keeps [of r s] capacity_keeps [of cfg "env (interfere cfg s)" "interfere cfg s" w s' r]
  by (auto simp: wait_for_inflight_capacity_def Let_def lock_def split: if_splits)

lemma reserve_error_keeps: "reserve_inflight cfg len s = (Inl e, s') \<Longrightarrow> I r s \<Longrightarrow> I r s'"
  using interfere_keeps by (auto simp: reserve_inflight_def Let_def lock_def split: if_splits)

lemma flush_keeps:
  assumes "flush b s = Some (r, b', s')" "vec_fits (ob_batch b)" "ob_config b = cfg" "I 0 s"
    and small: "length (ob_batch b) \<le> batch_max cfg \<or> (oc_require_acks cfg \<and> stop s)"
  shows "I 0 s'"
proof (cases "ob_batch b = []")
  case True
  then show ?thesis using assms by (simp add: flush_def)
next
  case ne: False
  let ?len = "vec_len (ob_batch b)"
  obtain w s1 where wait: "wait_for_inflight_capacity cfg s = Some (w, s1)"
    using assms(1,3) ne by (cases "wait_for_inflight_capacity cfg s") (auto simp: flush_def Let_def)
  have I1: "I 0 s1" by (rule wait_keeps [OF wait assms(4)])
  show ?thesis
  proof (cases "w = Inr True")
    case False
    then consider e where "w = Inl e" | "w = Inr False" by (cases w) auto
    then show ?thesis using assms ne wait I1 by cases (auto simp: flush_def Let_def)
  next
    case True
    have free: "guarded (inflight s1) < oc_max_inflight cfg \<and> length (ob_batch b) \<le> batch_max cfg"
      if "oc_require_acks cfg"
      using wait_capacity_True [OF wait [unfolded True] that] wait_capacity_others [OF wait] small
      by (auto simp: others_def)
    obtain u s2 where res: "reserve_inflight cfg ?len s1 = (u, s2)" by fastforce
    show ?thesis
    proof (cases u)
      case (Inl e)
      then have "s' = s2"
        using assms ne wait True res by (simp add: flush_def Let_def)
      then show ?thesis using reserve_error_keeps [OF res [unfolded Inl] I1] by simp
    next
      case (Inr v)
      have I2: "I (length (ob_batch b)) s2"
        by (rule reserve_keeps [OF res [unfolded Inr] I1 assms(2)]) (rule free)
      obtain p b3 s3 where post: "post_batch b s2 = (p, b3, s3)" by (metis prod_cases3)
      have I3: "I (if p then 0 else length (ob_batch b)) s3"
        by (rule post_keeps [OF post assms(3) ne assms(2) I2])
      show ?thesis
      proof (cases p)
        case True
        then show ?thesis
          using assms ne wait \<open>w = Inr True\<close> res Inr post I3 by (simp add: flush_def Let_def)
      next
        case False
        obtain v' s4 where rel: "release_inflight cfg ?len s3 = (v', s4)" by fastforce
        have "I 0 s4"
          using release_keeps [OF rel assms(2)] I3 False by simp
        moreover have "s' = s4"
          using assms ne wait \<open>w = Inr True\<close> res Inr post rel False
          by (cases v') (simp_all add: flush_def Let_def)
        ultimately show ?thesis by simp
      qed
    qed
  qed
qed

lemma start_keeps: "start_batch b s = (b1, s1) \<Longrightarrow> ob_config b = cfg \<Longrightarrow> I r s \<Longrightarrow> I r s1"
  using interfere_keeps by (auto simp: start_batch_def Let_def split: if_splits)

lemma append_keeps:
  assumes "append_output b data s = Some (r, b', s')" "vec_fits (ob_batch b @ data)"
    and "batch_ok b s" "0 < batch_max cfg" "ob_config b = cfg" "I 0 s"
  shows "I 0 s'"
  using assms
proof (induction b data s arbitrary: r b' s' rule: append_output.induct)
  case (1 b data s)
  show ?case
  proof (cases "data = []")
    case True
    then show ?thesis
      using 1(3,8) by (simp add: append_output.simps)
  next
    case False
    obtain b1 s1 where start: "start_batch b s = (b1, s1)" by fastforce
    note st = start_batch_others [OF start]
    define k where "k = batch_take b1 data"
    define b2 where "b2 = b1\<lparr>ob_batch := ob_batch b1 @ take k data\<rparr>"
    have b2: "ob_config b2 = cfg" "ob_batch b2 = ob_batch b @ take k data"
      using st 1(7) by (simp_all add: b2_def)
    have fits2: "vec_fits (ob_batch b2)"
      using 1(4) b2 vec_fits_append1 by simp
    have fits_b: "vec_fits (ob_batch b)"
      using 1(4) by (rule vec_fits_shorter) simp
    have small: "length (ob_batch b2) \<le> batch_max cfg \<or> (oc_require_acks cfg \<and> stop s1)"
      using 1(5,7) st batch_take_bounds(2) [of b1 data] fits_b False b2
      by (auto simp: batch_ok_def others_def k_def)
    have I1: "I 0 s1" by (rule start_keeps [OF start 1(7,8)])
    show ?thesis
    proof (cases "batch_full b2")
      case full: True
      obtain r3 b3 s3 where fl: "flush b2 s1 = Some (r3, b3, s3)"
        using 1(3) False start full
        by (cases "flush b2 s1") (auto simp: append_output.simps [of b data s] k_def b2_def Let_def)
      have I3: "I 0 s3"
        by (rule flush_keeps [OF fl fits2 b2(1) I1]) (use small b2 in simp)
      have em: "emits cfg (ob_batch b2) s1 r3 b3 s3"
        using flush_emits [OF fl fits2] small 1(6) b2 by simp
      show ?thesis
      proof (cases r3)
        case (Inl e)
        then show ?thesis
          using 1(3) False start full fl I3
          by (simp add: append_output.simps [of b data s] k_def b2_def Let_def)
      next
        case (Inr u)
        then have rest: "append_output b3 (drop k data) s3 = Some (r, b', s')"
          using 1(3) False start full fl
          by (simp add: append_output.simps [of b data s] k_def b2_def Let_def)
        have "vec_fits (ob_batch b3 @ drop k data)"
          using em 1(4) b2 by (auto simp: emits_def vec_fits_def)
        moreover have "batch_ok b3 s3" "ob_config b3 = cfg"
          using em Inr by (auto simp: emits_def)
        ultimately show ?thesis
          using 1(1) [OF False refl start [symmetric] k_def b2_def full fl refl Inr refl rest] 1(6) I3 by simp
      qed
    next
      case part: False
      then have rest: "append_output b2 (drop k data) s1 = Some (r, b', s')"
        using 1(3) False start by (simp add: append_output.simps [of b data s] k_def b2_def Let_def)
      have "batch_ok b2 s1"
        using part fits2 b2 by (simp add: batch_full_iff batch_ok_def not_le)
      then show ?thesis
        using 1(2) [OF False refl start [symmetric] k_def b2_def part rest] 1(4,6) b2 I1 by simp
    qed
  qed
qed

lemma post_error_keeps: "ob_config b = cfg \<Longrightarrow> I r s \<Longrightarrow> I r (output_post_error b e s)"
  by (simp add: output_post_error_def post_error_def post_error_message_def Let_def
      event_keeps interfere_keeps)

lemma close_ports_keeps: "ob_config b = cfg \<Longrightarrow> I r s \<Longrightarrow> I r (close_ports b s)"
  by (simp add: close_ports_def post_output_closed_def)
    (rule event_keeps, auto simp: interfere_keeps logged_def)

end

text \<open>The in-flight counter as an account, for limits whose sum does not saturate it.\<close>

definition credit_account :: "OutputConfig \<Rightarrow> nat \<Rightarrow> out_sys \<Rightarrow> bool" where
  "credit_account cfg r s \<longleftrightarrow>
     (oc_require_acks cfg \<and> unat (oc_max_inflight cfg) + batch_max cfg \<le> 2 ^ 64 \<longrightarrow> credit cfg r s)"

lemma post_batch_credit:
  assumes "post_batch b s = (posted, b', s')" "ob_config b = cfg" "vec_fits (ob_batch b)"
    "credit cfg (length (ob_batch b)) s" "oc_require_acks cfg"
  shows "credit cfg (if posted then 0 else length (ob_batch b)) s'"
proof -
  obtain ext s1 where res: "(if oc_use_external_output cfg
      then reserve_external_bytes cfg (oc_max_external_output_bytes cfg) (vec_len (ob_batch b)) s
      else (False, s)) = (ext, s1)"
    by fastforce
  have "credit cfg (length (ob_batch b)) (interfere cfg s\<lparr>external_bytes := x\<rparr>)" for x
    using interfere_credit [OF assms(4,5)] by (rule credit_cong) simp_all
  then have "credit cfg (length (ob_batch b)) s1"
    using res assms(4) interfere_credit [OF assms(4,5)]
    by (auto simp: reserve_external_bytes_def Let_def split: if_splits option.splits)
  then have c: "credit cfg (length (ob_batch b)) (interfere cfg s1)"
    using assms(5) by (rule interfere_credit)
  have posts: "posts_chunk (ob_batch b) (oc_output_port cfg) posted (interfere cfg s1) s'
      \<and> inflight s' = inflight (interfere cfg s1) \<and> acked_chunks s' = acked_chunks (interfere cfg s1)
      \<and> env s' = env (interfere cfg s1)"
    using assms(1,2) res post_output_external_posts [OF assms(3)] post_output_copied_posts [OF assms(3)]
      post_output_fields
    by (auto simp: post_batch_def Let_def split: prod.splits if_splits)
  then show ?thesis
    using posts_chunk_credit c by blast
qed

interpretation inflight_account: output_account cfg "credit_account cfg" for cfg
proof
  fix r s evs rest
  show "credit_account cfg r s \<Longrightarrow> env s = evs # rest \<Longrightarrow>
      credit_account cfg r (apply_events cfg evs (s\<lparr>env := rest\<rparr>))"
    using credit_env_tail events_credit by (fastforce simp: credit_account_def)
next
  fix c u s s'
  assume "reserve_inflight cfg (vec_len c) s = (Inr u, s')" "credit_account cfg 0 s" "vec_fits c"
    "oc_require_acks cfg \<Longrightarrow> guarded (inflight s) < oc_max_inflight cfg \<and> length c \<le> batch_max cfg"
  then show "credit_account cfg (length c) s'"
    using reserve_credit [of cfg "vec_len c" s "Inr u" s' 0]
    by (auto simp: credit_account_def unat_vec_len word_less_nat_alt)
next
  fix b s posted b' s'
  show "post_batch b s = (posted, b', s') \<Longrightarrow> ob_config b = cfg \<Longrightarrow> ob_batch b \<noteq> [] \<Longrightarrow>
      vec_fits (ob_batch b) \<Longrightarrow> credit_account cfg (length (ob_batch b)) s \<Longrightarrow>
      credit_account cfg (if posted then 0 else length (ob_batch b)) s'"
    using post_batch_credit by (simp add: credit_account_def)
next
  fix c s res s'
  show "release_inflight cfg (vec_len c) s = (res, s') \<Longrightarrow> vec_fits c \<Longrightarrow>
      credit_account cfg (length c) s \<Longrightarrow> credit_account cfg 0 s'"
    using release_credit [of cfg "vec_len c"] by (auto simp: credit_account_def unat_vec_len)
next
  fix r s vs port
  assume "credit_account cfg r s" "sendable vs" "\<And>p a. chunks_of (logged p port vs a) = []"
  moreover from this have "delivered_chunks p (snd (post_message port vs s)) = delivered_chunks p s" for p
    by (simp add: delivered_chunks_def post_message_log)
  ultimately show "credit_account cfg r (snd (post_message port vs s))"
    using credit_cong by (auto simp: credit_account_def)
qed

text \<open>
  C12. Early acknowledgements are not lost. Let the receiver acknowledge chunks it got, each once and
  in order, at any moment, even while the post that delivers the chunk returns. Then after every
  \<open>append\<close> the in-flight counter is exactly the number of delivered bytes the receiver has not
  acknowledged, also after failed posts (the reservation is rolled back), and it stays below the
  limit plus one batch.
\<close>

theorem inflight_exact:
  fixes b :: OutputBuffer and cfg :: OutputConfig
  defines "cfg \<equiv> ob_config b"
  assumes "append_output b data s = Some (r, b', s')" "vec_fits (ob_batch b @ data)"
    and "batch_ok b s" "0 < batch_max cfg"
    and "oc_require_acks cfg" "unat (oc_max_inflight cfg) + batch_max cfg \<le> 2 ^ 64"
    and "credit cfg 0 s" "bytes_of (unacked cfg s) < unat (oc_max_inflight cfg) + batch_max cfg"
  shows "unat (guarded (inflight s')) = bytes_of (unacked cfg s')
    \<and> bytes_of (unacked cfg s') < unat (oc_max_inflight cfg) + batch_max cfg
    \<and> \<not> poisoned (inflight s')"
proof -
  have "credit_account cfg 0 s'"
    by (rule inflight_account.append_keeps [OF assms(2,3,4)])
      (use assms in \<open>simp_all add: credit_account_def\<close>)
  then have c: "credit cfg 0 s'"
    using assms(6,7) by (simp add: credit_account_def)
  have "emits cfg (ob_batch b @ data) s r b' s'"
    unfolding cfg_def by (rule append_emits) (use assms in simp_all)
  moreover have "inflight_ok cfg s"
    using assms(8,9) by (simp add: inflight_ok_def credit_def)
  ultimately have "inflight_ok cfg s'"
    by (simp add: emits_def)
  then show ?thesis
    using c assms(6) by (simp add: credit_def inflight_ok_def)
qed

lemma delivered_demo [simp]: "delivered_chunks p (demo_sys script) = []"
  by (simp add: delivered_chunks_def output_log_def port_posts_def dart_posts_def demo_sys_def map_filter_def)

theorem inflight_exact_witness:
  "\<exists>r b' s'. append_output (OutputBuffer_new demo_config) [1, 2] (demo_sys [[], [Ack_next], [Elapse 5]])
      = Some (r, b', s')
     \<and> unat (guarded (inflight s')) = bytes_of (unacked demo_config s')"
proof -
  let ?b = "OutputBuffer_new demo_config" and ?s = "demo_sys [[], [Ack_next], [Elapse 5]]"
  have "append_output ?b [1, 2] ?s \<noteq> None"
    by (simp add: append_output.simps OutputBuffer_new_def demo_config_def start_batch_def
        interfere_def apply_events_def Let_def batch_take_def batch_full_def vec_len_def saturating_sub_def flush_def
        wait_for_inflight_capacity_def lock_def demo_sys_def new_mutex_def reserve_inflight_def set_guarded_def
        saturating_add_def post_batch_def post_output_copied_def post_message_def post_array_def
        post_cobject_def length_fits_dart_def word_le_nat_alt delivered_chunks_def output_log_def
        port_posts_def dart_posts_def map_filter_def)
  then obtain r b' s' where run: "append_output ?b [1, 2] ?s = Some (r, b', s')"
    by auto
  have "unacked demo_config ?s = []"
    by (simp add: unacked_def)
  moreover have "acked_chunks ?s = 0" "inflight ?s = new_mutex 0" "honest_script ?s"
    by (simp_all add: demo_sys_def honest_script_def)
  ultimately have "unat (guarded (inflight s')) = bytes_of (unacked demo_config s')"
    using inflight_exact [OF run]
    by (simp add: OutputBuffer_new_def demo_config_def batch_ok_def batch_max_def vec_fits_def credit_def
        new_mutex_def)
  with run show ?thesis by blast
qed

section \<open>Stopping\<close>

definition will_stop :: "out_sys \<Rightarrow> bool" where
  "will_stop s \<longleftrightarrow> stop s \<or> (\<exists>evs \<in> set (env s). Stop_request \<in> set evs)"

text \<open>A stop that comes within \<open>n\<close> more actions of the other threads.\<close>

definition stops_within :: "nat \<Rightarrow> out_sys \<Rightarrow> bool" where
  "stops_within n s \<longleftrightarrow> will_stop s \<and> length (env s) \<le> n"

lemma event_stop: "stop (apply_event cfg s ev) \<longleftrightarrow> stop s \<or> ev = Stop_request"
  by (cases ev) (auto simp: ack_inflight_def post_exit_def post_error_def post_error_message_def
      post_term_mode_def Let_def external_output_finalizer_def split: list.split sum.split)

lemma events_stop: "stop (apply_events cfg evs s) \<longleftrightarrow> stop s \<or> Stop_request \<in> set evs"
  unfolding apply_events_def by (induction evs arbitrary: s) (auto simp: event_stop)

lemma apply_events_env [simp]: "env (apply_events cfg evs s) = env s"
  unfolding apply_events_def by (induction evs rule: rev_induct) simp_all

lemma interfere_will_stop: "stops_within n s \<Longrightarrow> stops_within n (interfere cfg s)"
  by (auto simp: interfere_def stops_within_def will_stop_def events_stop split: list.split)

lemma capacity_loop_returns:
  "stops_within n s \<Longrightarrow> env s = script \<Longrightarrow> \<exists>w s'. capacity_loop cfg script s = Some (w, s') \<and> stops_within n s'"
proof (induction cfg script s rule: capacity_loop.induct)
  case (2 cfg evs rest s)
  have "stops_within n (apply_events cfg evs (s\<lparr>env := rest\<rparr>))"
    using 2(2,3) by (auto simp: stops_within_def will_stop_def events_stop)
  then show ?case
    using 2 by (auto simp: Let_def)
qed (auto simp: stops_within_def will_stop_def)

lemma wait_returns:
  assumes "stops_within n s"
  shows "\<exists>w s'. wait_for_inflight_capacity cfg s = Some (w, s') \<and> stops_within n s'"
  using assms interfere_will_stop [OF assms, of cfg]
    capacity_loop_returns [of n "interfere cfg s" "env (interfere cfg s)" cfg]
  by (auto simp: wait_for_inflight_capacity_def Let_def lock_def)

lemma will_stop_step:
  "stop s' = stop s \<Longrightarrow> env s' = env s \<Longrightarrow> stops_within n s \<Longrightarrow> stops_within n s'"
  by (simp add: stops_within_def will_stop_def)

lemma reserve_will_stop: "reserve_inflight cfg len s = (r, s') \<Longrightarrow> stops_within n s \<Longrightarrow> stops_within n s'"
  using interfere_will_stop [of n s cfg]
  by (auto simp: reserve_inflight_def Let_def lock_def stops_within_def will_stop_def split: if_splits)

lemma release_will_stop: "release_inflight cfg len s = (r, s') \<Longrightarrow> stops_within n s \<Longrightarrow> stops_within n s'"
  using interfere_will_stop [of n s cfg]
  by (auto simp: release_inflight_def Let_def lock_def stops_within_def will_stop_def split: if_splits)

lemma reserve_external_will_stop: "reserve_external_bytes cfg m len s = (r, s') \<Longrightarrow> stops_within n s \<Longrightarrow> stops_within n s'"
  using interfere_will_stop [of n s cfg]
  by (auto simp: reserve_external_bytes_def Let_def stops_within_def will_stop_def split: if_splits option.splits)

lemma post_batch_will_stop:
  assumes "post_batch b s = (posted, b', s')" "stops_within n s"
  shows "stops_within n s'"
proof -
  let ?cfg = "ob_config b"
  obtain ext s1 where res: "(if oc_use_external_output ?cfg
      then reserve_external_bytes ?cfg (oc_max_external_output_bytes ?cfg) (vec_len (ob_batch b)) s
      else (False, s)) = (ext, s1)"
    by fastforce
  then have "stops_within n s1"
    using assms(2) by (auto split: if_splits dest: reserve_external_will_stop)
  then have "stops_within n (interfere ?cfg s1)"
    by (rule interfere_will_stop)
  moreover have "stop s' = stop (interfere ?cfg s1) \<and> env s' = env (interfere ?cfg s1)"
    using assms(1) res post_output_fields
    by (auto simp: post_batch_def Let_def split: prod.splits if_splits)
  ultimately show ?thesis by (simp add: stops_within_def will_stop_def)
qed

lemma flush_returns:
  assumes "stops_within n s"
  shows "\<exists>r b' s'. flush b s = Some (r, b', s') \<and> stops_within n s'"
proof (cases "ob_batch b = []")
  case True
  then show ?thesis using assms by (simp add: flush_def)
next
  case False
  let ?cfg = "ob_config b" and ?len = "vec_len (ob_batch b)"
  obtain w s1 where wait: "wait_for_inflight_capacity ?cfg s = Some (w, s1)" "stops_within n s1"
    using wait_returns [OF assms] by blast
  obtain u s2 where res: "reserve_inflight ?cfg ?len s1 = (u, s2)" by fastforce
  have s2: "stops_within n s2" by (rule reserve_will_stop [OF res wait(2)])
  obtain p b3 s3 where post: "post_batch b s2 = (p, b3, s3)" by (metis prod_cases3)
  have s3: "stops_within n s3" by (rule post_batch_will_stop [OF post s2])
  obtain v s4 where rel: "release_inflight ?cfg ?len s3 = (v, s4)" by fastforce
  have s4: "stops_within n s4" by (rule release_will_stop [OF rel s3])
  consider e where "w = Inl e" | "w = Inr False" | "w = Inr True" by (cases w) auto
  then show ?thesis
  proof cases
    case 3
    then show ?thesis
      using False wait res post rel s2 s3 s4
      by (cases u; cases p; cases v) (auto simp: flush_def Let_def)
  qed (use False wait in \<open>auto simp: flush_def Let_def\<close>)
qed

lemma start_batch_will_stop: "start_batch b s = (b1, s1) \<Longrightarrow> stops_within n s \<Longrightarrow> stops_within n s1"
  using interfere_will_stop by (auto simp: start_batch_def Let_def split: if_splits)

lemma append_will_stop:
  "stops_within n s \<Longrightarrow> \<exists>r b' s'. append_output b data s = Some (r, b', s') \<and> stops_within n s'"
proof (induction b data s rule: append_output.induct)
  case (1 b data s)
  show ?case
  proof (cases "data = []")
    case True
    then show ?thesis using 1(3) by (simp add: append_output.simps)
  next
    case False
    obtain b1 s1 where start: "start_batch b s = (b1, s1)" by fastforce
    have s1: "stops_within n s1" by (rule start_batch_will_stop [OF start 1(3)])
    define k where "k = batch_take b1 data"
    define b2 where "b2 = b1\<lparr>ob_batch := ob_batch b1 @ take k data\<rparr>"
    note step = append_output.simps [of b data s]
    obtain r3 b3 s3 where fl: "flush b2 s1 = Some (r3, b3, s3)" "stops_within n s3"
      using flush_returns [OF s1] by blast
    show ?thesis
    proof (cases "batch_full b2")
      case True
      then show ?thesis
        using False start fl 1(1) [OF False refl start [symmetric] k_def b2_def True fl(1) refl _ refl]
        by (cases r3) (auto simp: step k_def b2_def Let_def)
    next
      case part: False
      then show ?thesis
        using False start 1(2) [OF False refl start [symmetric] k_def b2_def part s1]
        by (simp add: step k_def b2_def Let_def)
    qed
  qed
qed

text \<open>
  Closing unblocks the reader. However full the in-flight counter is and whatever the receiver
  does, if a stop has been requested or is requested at some later moment, then \<open>append\<close> and
  \<open>flush\<close> return. Without the stop they may not: with no capacity left and nobody to make
  room, \<open>flush\<close> is still waiting.
\<close>

theorem stop_ends_backpressure:
  "(will_stop s \<longrightarrow> append_output b data s \<noteq> None \<and> flush b s \<noteq> None)
   \<and> (oc_require_acks (ob_config b) \<and> ob_batch b \<noteq> [] \<and> \<not> poisoned (inflight s) \<and> env s = []
        \<and> \<not> stop s \<and> guarded (inflight s) \<ge> oc_max_inflight (ob_config b)
      \<longrightarrow> flush b s = None)"
proof (intro conjI impI)
  assume "will_stop s"
  then have "stops_within (length (env s)) s"
    by (simp add: stops_within_def)
  then show "append_output b data s \<noteq> None" "flush b s \<noteq> None"
    using append_will_stop flush_returns by fastforce+
qed (auto simp: flush_def Let_def wait_for_inflight_capacity_def interfere_def lock_def)

theorem stop_ends_backpressure_witness:
  "flush (OutputBuffer_new demo_config\<lparr>ob_batch := [1]\<rparr>) (demo_sys [[], [Stop_request]]\<lparr>inflight := new_mutex 4\<rparr>)
     \<noteq> None
   \<and> flush (OutputBuffer_new demo_config\<lparr>ob_batch := [1]\<rparr>) (demo_sys []\<lparr>inflight := new_mutex 4\<rparr>) = None"
proof
  show "flush (OutputBuffer_new demo_config\<lparr>ob_batch := [1]\<rparr>)
      (demo_sys [[], [Stop_request]]\<lparr>inflight := new_mutex 4\<rparr>) \<noteq> None"
    using stop_ends_backpressure [of "demo_sys [[], [Stop_request]]\<lparr>inflight := new_mutex 4\<rparr>"
        "OutputBuffer_new demo_config\<lparr>ob_batch := [1]\<rparr>"]
    by (simp add: will_stop_def demo_sys_def)
  show "flush (OutputBuffer_new demo_config\<lparr>ob_batch := [1]\<rparr>) (demo_sys []\<lparr>inflight := new_mutex 4\<rparr>) = None"
    using stop_ends_backpressure [of "demo_sys []\<lparr>inflight := new_mutex 4\<rparr>"
        "OutputBuffer_new demo_config\<lparr>ob_batch := [1]\<rparr>"]
    by (simp add: demo_sys_def new_mutex_def OutputBuffer_new_def demo_config_def)
qed

section \<open>The external byte counter\<close>

definition peer_size :: "u8 list option \<Rightarrow> nat" where
  "peer_size x = (case x of None \<Rightarrow> 0 | Some b \<Rightarrow> length b)"

text \<open>The bytes of all external chunks the Dart VM has not finalized.\<close>

definition peer_bytes :: "'z message_state_scheme \<Rightarrow> nat" where
  "peer_bytes s = (\<Sum>p < next_peer s. peer_size (peers s p))"

text \<open>The counter is those bytes and \<open>e\<close> bytes reserved for a chunk on its way.\<close>

definition external_ok :: "OutputConfig \<Rightarrow> nat \<Rightarrow> 'z message_state_scheme \<Rightarrow> bool" where
  "external_ok cfg e s \<longleftrightarrow>
     peers s 0 = None \<and> (\<forall>p \<ge> next_peer s. peers s p = None) \<and> 0 < next_peer s
   \<and> unat (external_bytes s) = peer_bytes s + e
   \<and> unat (external_bytes s) \<le> unat (oc_max_external_output_bytes cfg)"

lemma external_ok_cong:
  "external_ok cfg e s \<Longrightarrow> peers s' = peers s \<Longrightarrow> next_peer s' = next_peer s \<Longrightarrow>
   external_bytes s' = external_bytes s \<Longrightarrow> external_ok cfg e s'"
  by (simp add: external_ok_def peer_bytes_def)

lemma peer_sum_drop:
  "p < n \<Longrightarrow> (\<Sum>q < n. peer_size ((f(p := None)) q)) + peer_size (f p) = (\<Sum>q < n. peer_size (f q))"
  for n :: nat
proof (induction n)
  case (Suc n)
  show ?case
  proof (cases "p = n")
    case True
    have "(\<Sum>q < n. peer_size ((f(p := None)) q)) = (\<Sum>q < n. peer_size (f q))"
      using True by (intro sum.cong) auto
    then show ?thesis using True by (simp add: peer_size_def)
  next
    case False
    then show ?thesis using Suc by simp
  qed
qed simp

lemma drop_peer_external:
  assumes "external_ok cfg e s"
  shows "external_ok cfg e (drop_peer p s)"
proof (cases "peers s p")
  case (Some bytes)
  have p: "p < next_peer s"
    using assms Some by (metis external_ok_def leI option.distinct(1))
  let ?rest = "\<Sum>q < next_peer s. peer_size (((peers s)(p := None)) q)"
  have sum: "?rest + length bytes = peer_bytes s"
    using peer_sum_drop [OF p, of "peers s"] Some by (simp add: peer_bytes_def peer_size_def)
  have total: "unat (external_bytes s) = ?rest + length bytes + e"
    using assms sum by (simp add: external_ok_def)
  then have "length bytes < 2 ^ 64"
    using unsigned_less [where ?'a = nat, of "external_bytes s"] by simp
  then have len: "unat (vec_len bytes) = length bytes"
    by (rule unat_vec_len_small)
  then have "unat (external_bytes s - vec_len bytes) = ?rest + e"
    using total by (simp add: unat_sub word_le_nat_alt)
  then show ?thesis
    using assms Some p total by (auto simp: external_ok_def drop_peer_def peer_bytes_def)
qed (use assms in \<open>simp add: drop_peer_def\<close>)

lemma event_external: "external_ok cfg e s \<Longrightarrow> external_ok cfg e (apply_event cfg s ev)"
proof (cases ev)
  case (Finalize p)
  moreover assume "external_ok cfg e s"
  ultimately show ?thesis by (simp add: external_output_finalizer_def drop_peer_external)
qed (auto elim!: external_ok_cong simp: ack_inflight_def post_exit_def post_error_def post_error_message_def
      post_term_mode_def Let_def split: list.split sum.split)

lemma events_external: "external_ok cfg e s \<Longrightarrow> external_ok cfg e (apply_events cfg evs s)"
  unfolding apply_events_def by (induction evs arbitrary: s) (simp_all add: event_external)

lemma interfere_external: "external_ok cfg e s \<Longrightarrow> external_ok cfg e (interfere cfg s)"
  by (auto simp: interfere_def intro!: events_external elim: external_ok_cong split: list.split)

text \<open>The counter goes up only by a chunk that fits under the limit, and then cannot wrap.\<close>

lemma reserve_external_ok:
  assumes "reserve_external_bytes cfg (oc_max_external_output_bytes cfg) len s = (ok, s')" "external_ok cfg 0 s"
  shows "external_ok cfg (if ok then unat len else 0) s'"
proof -
  have c: "external_ok cfg 0 (interfere cfg s)"
    by (rule interfere_external [OF assms(2)])
  have id: "(try_from (len :: u64) :: usize option) = Some len" for len
    using unsigned_less [where ?'a = nat, of len] by (simp add: try_from_def)
  show ?thesis
    using assms c
    by (auto simp: reserve_external_bytes_def Let_def id external_ok_def peer_bytes_def unat_checked_add
        word_le_nat_alt split: if_splits option.splits)
qed

lemma post_external_ok:
  assumes "post_output_external port d s = (posted, s')" "external_ok cfg (length d) s"
  shows "external_ok cfg 0 s'"
proof -
  define s1 where "s1 = s\<lparr>peers := (peers s)(next_peer s \<mapsto> d), next_peer := Suc (next_peer s)\<rparr>"
  have "(\<Sum>p < next_peer s. peer_size (((peers s)(next_peer s \<mapsto> d)) p)) = peer_bytes s"
    unfolding peer_bytes_def by (intro sum.cong) auto
  then have "external_ok cfg 0 s1"
    using assms(2) by (auto simp: external_ok_def s1_def peer_bytes_def peer_size_def)
  then have "external_ok cfg 0 (snd (post_message port vs s1))" for vs
    by (rule external_ok_cong) simp_all
  moreover obtain s2 where "post_message port [Int64 PTYX_MESSAGE_OUTPUT, ExternalTypedData d (vec_len d) (next_peer s)] s1 = (posted, s2)"
    "s' = (if posted then s2 else drop_peer (next_peer s) s2)"
    using assms(1) by (auto simp: post_output_external_def s1_def Let_def split: prod.splits bool.splits)
  ultimately show ?thesis
    by (metis drop_peer_external snd_conv)
qed

lemma post_batch_external:
  assumes "post_batch b s = (posted, b', s')" "vec_fits (ob_batch b)" "external_ok (ob_config b) 0 s"
  shows "external_ok (ob_config b) 0 s'"
proof -
  let ?cfg = "ob_config b"
  obtain ext s1 where res: "(if oc_use_external_output ?cfg
      then reserve_external_bytes ?cfg (oc_max_external_output_bytes ?cfg) (vec_len (ob_batch b)) s
      else (False, s)) = (ext, s1)"
    by fastforce
  then have "external_ok ?cfg (if ext then length (ob_batch b) else 0) s1"
    using assms(2,3) reserve_external_ok [of ?cfg "vec_len (ob_batch b)" s ext s1]
    by (auto simp: unat_vec_len split: if_splits)
  then have c: "external_ok ?cfg (if ext then length (ob_batch b) else 0) (interfere ?cfg s1)"
    by (rule interfere_external)
  show ?thesis
  proof (cases ext)
    case True
    then show ?thesis
      using assms(1) res c post_external_ok [of "oc_output_port ?cfg" "ob_batch b" "interfere ?cfg s1"]
      by (auto simp: post_batch_def Let_def split: prod.splits)
  next
    case False
    then have "s' = snd (post_output_copied (oc_output_port ?cfg) (ob_batch b) (vec_len (ob_batch b)) (interfere ?cfg s1))"
      using assms(1) res by (auto simp: post_batch_def Let_def split: prod.splits)
    then show ?thesis
      using c False by (auto simp: post_output_copied_def elim!: external_ok_cong)
  qed
qed

interpretation external_account: output_account cfg "\<lambda>r. external_ok cfg 0" for cfg
proof
  fix s evs rest
  show "external_ok cfg 0 s \<Longrightarrow> env s = evs # rest \<Longrightarrow>
      external_ok cfg 0 (apply_events cfg evs (s\<lparr>env := rest\<rparr>))"
    by (rule events_external) (auto elim: external_ok_cong)
next
  fix c u s s'
  assume "reserve_inflight cfg (vec_len c) s = (Inr u, s')" "external_ok cfg 0 s"
  then show "external_ok cfg 0 s'"
    using interfere_external [of cfg 0 s]
    by (auto simp: reserve_inflight_def Let_def lock_def external_ok_def peer_bytes_def split: if_splits)
next
  fix b s posted b' s'
  show "post_batch b s = (posted, b', s') \<Longrightarrow> ob_config b = cfg \<Longrightarrow> vec_fits (ob_batch b) \<Longrightarrow>
      external_ok cfg 0 s \<Longrightarrow> external_ok cfg 0 s'"
    using post_batch_external by blast
next
  fix c res s s'
  assume "release_inflight cfg (vec_len c) s = (res, s')" "external_ok cfg 0 s"
  then show "external_ok cfg 0 s'"
    using interfere_external [of cfg 0 s]
    by (auto simp: release_inflight_def Let_def lock_def external_ok_def peer_bytes_def split: if_splits)
next
  fix s vs port
  show "external_ok cfg 0 s \<Longrightarrow> external_ok cfg 0 (snd (post_message port vs s))"
    by (rule external_ok_cong) simp_all
qed

text \<open>
  External memory is bounded and never leaked from the count. Whatever the receiver and the
  garbage collector of the Dart VM do, after every \<open>append\<close> the counter of external bytes is
  exactly the number of bytes in chunks handed over and not finalized (a failed post gives its bytes
  back), it is within the configured limit, and so it never wraps around.
\<close>

theorem external_bytes_exact:
  fixes b :: OutputBuffer and cfg :: OutputConfig
  defines "cfg \<equiv> ob_config b"
  assumes "append_output b data s = Some (r, b', s')" "vec_fits (ob_batch b @ data)"
    and "batch_ok b s" "0 < batch_max cfg" "external_ok cfg 0 s"
  shows "unat (external_bytes s') = peer_bytes s'
    \<and> peer_bytes s' \<le> unat (oc_max_external_output_bytes cfg)"
proof -
  have "external_ok cfg 0 s'"
    by (rule external_account.append_keeps [OF assms(2,3,4)]) (use assms in simp_all)
  then show ?thesis
    by (simp add: external_ok_def)
qed

theorem external_bytes_exact_witness:
  "\<exists>r b' s'. append_output (OutputBuffer_new (demo_config\<lparr>oc_use_external_output := True,
        oc_max_external_output_bytes := 8, oc_require_acks := False\<rparr>)) [1, 2] (demo_sys []) = Some (r, b', s')
     \<and> unat (external_bytes s') = 2 \<and> peer_bytes s' = 2"
proof -
  let ?b = "OutputBuffer_new (demo_config\<lparr>oc_use_external_output := True,
        oc_max_external_output_bytes := 8, oc_require_acks := False\<rparr>)"
  obtain r b' s' where run: "append_output ?b [1, 2] (demo_sys []) = Some (r, b', s')"
    and two: "external_bytes s' = 2"
    by (simp add: append_output.simps OutputBuffer_new_def demo_config_def start_batch_def
        interfere_def Let_def batch_take_def batch_full_def vec_len_def saturating_sub_def flush_def
        wait_for_inflight_capacity_def demo_sys_def new_mutex_def reserve_inflight_def
        post_batch_def reserve_external_bytes_def try_from_def checked_add_def post_output_external_def
        post_message_def post_array_def post_cobject_def length_fits_dart_def word_le_nat_alt)
  have "external_ok (ob_config ?b) 0 (demo_sys [])"
    by (simp add: external_ok_def demo_sys_def peer_bytes_def peer_size_def)
  then have "unat (external_bytes s') = peer_bytes s'"
    using external_bytes_exact [OF run]
    by (simp add: OutputBuffer_new_def demo_config_def batch_ok_def batch_max_def vec_fits_def)
  with run two show ?thesis by auto
qed

lemmas output_eval =
  append_output.simps OutputBuffer_new_def demo_config_def start_batch_def interfere_def
  apply_events_def Let_def batch_take_def batch_full_def vec_len_def saturating_sub_def flush_def
  wait_for_inflight_capacity_def lock_def demo_sys_def new_mutex_def reserve_inflight_def
  set_guarded_def saturating_add_def post_batch_def post_output_copied_def post_message_def
  post_array_def post_cobject_def length_fits_dart_def word_le_nat_alt word_less_nat_alt


end
