(* ===== verification/Fd.thy ===== *)
theory Fd
  imports Errors Options
begin

text \<open>
  Unix descriptor helpers: \<open>native/src/fd.rs\<close>. The replies of \<open>libc\<close> are scripts:
  \<open>read\<close> gives the bytes it placed in the buffer (none at end of file), \<open>write\<close> a count,
  \<open>poll\<close> readiness (with \<open>POLLNVAL\<close> or not) or a timeout, and each may fail with an error.
  Every loop that retries an interrupted call is the prelude's \<open>retry\<close>. As documented,
  \<open>write\<close> and \<open>read\<close> never report more than they were given; a script that says more is cut
  off there.
\<close>

datatype read_reply = RBytes "u8 list" | RErr io_error
datatype write_reply = WCount nat | WErr io_error
datatype poll_reply = PReady bool | PTimeout | PErr io_error \<comment> \<open>\<open>PReady nval\<close>\<close>

definition EIO :: i32 where "EIO = 5" \<comment> \<open>\<open>libc::EIO\<close> on Linux and macOS\<close>

record WriteRetryContext =
  wrc_fd :: "i32 option"

record ReadFdContext =
  rfc_fd :: i32

datatype DirectWriteResult = Wrote nat | DW_Interrupted | DW_WouldBlock
datatype PollResult = Ready | Timeout
datatype ReadResult = Data "u8 list" | Eof | RR_WouldBlock

section \<open>Contexts\<close>

definition master_poisoned_error :: PtyxError where
  "master_poisoned_error = PtyxError_new Error ''master lock poisoned''"

text \<open>The master's mutex, guarding what \<open>as_raw_fd\<close> answers.\<close>

definition write_retry_context_for_inner :: "i32 option mutex \<Rightarrow> PtyxError + WriteRetryContext" where
  "write_retry_context_for_inner master =
     and_then (lock master_poisoned_error master) (\<lambda>fd. Inr \<lparr>wrc_fd = fd\<rparr>)"

definition read_context_for_inner :: "i32 option mutex \<Rightarrow> PtyxError + ReadFdContext option" where
  "read_context_for_inner master =
     and_then (lock master_poisoned_error master) (\<lambda>fd. Inr (map_option (\<lambda>f. \<lparr>rfc_fd = f\<rparr>) fd))"

definition uses_direct_io :: "WriteRetryContext \<Rightarrow> bool" where
  "uses_direct_io ctx \<longleftrightarrow> wrc_fd ctx \<noteq> None"

section \<open>Polling\<close>

fun poll_writable_once :: "poll_reply \<Rightarrow> (io_error + bool) option" where
  "poll_writable_once (PReady nval) =
     Some (if nval then Inl (io_error_new Io_BrokenPipe ''PTY file descriptor is closed'') else Inr True)"
| "poll_writable_once PTimeout = Some (Inr False)"
| "poll_writable_once (PErr error) =
     (if io_kind error = Io_Interrupted then None else Some (Inl error))"

definition wait_fd_writable_for :: "poll_reply list \<Rightarrow> ((io_error + bool) \<times> poll_reply list) option" where
  "wait_fd_writable_for polls = retry poll_writable_once polls"

definition wait_writable_for ::
    "WriteRetryContext \<Rightarrow> poll_reply list \<Rightarrow> ((io_error + bool) \<times> poll_reply list) option" where
  "wait_writable_for ctx polls =
    (case wrc_fd ctx of
       Some _ \<Rightarrow> wait_fd_writable_for polls
     | None \<Rightarrow> Some (Inr True, polls))"

fun poll_readable_once :: "poll_reply \<Rightarrow> (PtyxError + PollResult) option" where
  "poll_readable_once (PReady nval) =
     Some (if nval then Inl (PtyxError_new Closed ''PTY file descriptor is closed'') else Inr Ready)"
| "poll_readable_once PTimeout = Some (Inr Timeout)"
| "poll_readable_once (PErr error) =
     (if io_kind error = Io_Interrupted then None else Some (Inl (PtyxError_io IoFailed error)))"

definition poll_readable :: "poll_reply list \<Rightarrow> ((PtyxError + PollResult) \<times> poll_reply list) option" where
  "poll_readable polls = retry poll_readable_once polls"

text \<open>\<open>Duration::as_millis\<close> and the millisecond timeout handed to \<open>poll\<close>.\<close>

definition as_millis :: "Duration \<Rightarrow> nat" where
  "as_millis d = d div 1000000"

definition c_int_max :: nat where
  "c_int_max = 2147483647"

definition duration_to_poll_timeout_ms :: "Duration \<Rightarrow> i32" where
  "duration_to_poll_timeout_ms d =
     (if d = 0 then 0 else of_nat (clamp 1 c_int_max (as_millis d)))"

definition poll_timeout_arg :: "Duration option \<Rightarrow> i32" where
  "poll_timeout_arg timeout =
     (case timeout of Some d \<Rightarrow> duration_to_poll_timeout_ms d | None \<Rightarrow> - 1)"

definition writable_timeout_ms :: "Duration \<Rightarrow> i32" where
  "writable_timeout_ms timeout = of_nat (min (as_millis timeout) c_int_max)"

section \<open>Reading and writing\<close>

definition read_fd_once :: "usize \<Rightarrow> read_reply \<Rightarrow> (PtyxError + ReadResult) option" where
  "read_fd_once buffer_len reply =
    (case reply of
       RBytes bs \<Rightarrow>
         let got = take (unat buffer_len) bs in Some (Inr (if got \<noteq> [] then Data got else Eof))
     | RErr error \<Rightarrow>
         if io_kind error = Io_Interrupted then None
         else if io_kind error = Io_WouldBlock then Some (Inr RR_WouldBlock)
         else if raw_os_error error = Some EIO then Some (Inr Eof)
         else Some (Inl (PtyxError_io IoFailed error)))"

definition read_fd :: "usize \<Rightarrow> read_reply list \<Rightarrow> ((PtyxError + ReadResult) \<times> read_reply list) option" where
  "read_fd buffer_len replies = retry (read_fd_once buffer_len) replies"

definition write_fd :: "u8 list \<Rightarrow> write_reply \<Rightarrow> io_error + DirectWriteResult" where
  "write_fd data reply =
    (case reply of
       WCount n \<Rightarrow>
         let result = min n (length data) in
         if result > 0 then Inr (Wrote result)
         else Inl (io_error_new Io_WriteZero ''failed to write to PTY'')
     | WErr error \<Rightarrow>
         (case io_kind error of
            Io_Interrupted \<Rightarrow> Inr DW_Interrupted
          | Io_WouldBlock \<Rightarrow> Inr DW_WouldBlock
          | _ \<Rightarrow> Inl error))"

definition write_direct :: "WriteRetryContext \<Rightarrow> u8 list \<Rightarrow> write_reply \<Rightarrow> io_error + DirectWriteResult" where
  "write_direct ctx data reply =
    (case wrc_fd ctx of
       Some fd \<Rightarrow> write_fd data reply
     | None \<Rightarrow> Inl (io_error_new Io_Unsupported ''raw fd writes are unavailable''))"

section \<open>Nonblocking mode\<close>

text \<open>
  The status flags of the open file. \<open>F_GETFL\<close> may fail, and \<open>F_SETFL\<close> may; the model keeps
  the error each would fail with. The bit \<open>O_NONBLOCK\<close> differs between platforms and is a
  parameter.
\<close>

record fd_flags =
  status_flags :: i32
  getfl_error :: "io_error option"
  setfl_error :: "io_error option"

record FdNonblockingGuard =
  original_flags :: i32

definition fcntl_setfl :: "i32 \<Rightarrow> fd_flags \<Rightarrow> (io_error + unit) \<times> fd_flags" where
  "fcntl_setfl flags file =
    (case setfl_error file of
       Some e \<Rightarrow> (Inl e, file)
     | None \<Rightarrow> (Inr (), file\<lparr>status_flags := flags\<rparr>))"

definition set_fd_nonblocking :: "i32 \<Rightarrow> fd_flags \<Rightarrow> (PtyxError + FdNonblockingGuard) \<times> fd_flags" where
  "set_fd_nonblocking O_NONBLOCK file =
    (case getfl_error file of
       Some e \<Rightarrow> (Inl (PtyxError_io IoFailed e), file)
     | None \<Rightarrow>
         let flags = status_flags file in
         if flags AND O_NONBLOCK = 0 then
           (case fcntl_setfl (flags OR O_NONBLOCK) file of
              (Inl e, file') \<Rightarrow> (Inl (PtyxError_io IoFailed e), file')
            | (Inr _, file') \<Rightarrow> (Inr \<lparr>original_flags = flags\<rparr>, file'))
         else (Inr \<lparr>original_flags = flags\<rparr>, file))"

definition drop_nonblocking_guard :: "FdNonblockingGuard \<Rightarrow> fd_flags \<Rightarrow> fd_flags" where
  "drop_nonblocking_guard guard file = snd (fcntl_setfl (original_flags guard) file)"

section \<open>Facts\<close>

lemma write_fd_Wrote:
  "write_fd data reply = Inr (Wrote n) \<longleftrightarrow> (\<exists>m. reply = WCount m \<and> n = min m (length data) \<and> n > 0)"
  by (auto simp: write_fd_def Let_def split: write_reply.splits IoErrorKind.splits if_splits)

lemma write_fd_not_zero: "write_fd data reply = Inr (Wrote n) \<Longrightarrow> 0 < n \<and> n \<le> length data"
  by (auto simp: write_fd_Wrote)

lemma write_direct_Some: "wrc_fd ctx = Some fd \<Longrightarrow> write_direct ctx data reply = write_fd data reply"
  by (simp add: write_direct_def)

lemma read_fd_shorter: "read_fd n rs = Some (r, rest) \<Longrightarrow> length rest < length rs"
  by (simp add: read_fd_def retry_shorter)

lemma poll_readable_shorter: "poll_readable ps = Some (r, rest) \<Longrightarrow> length rest < length ps"
  by (simp add: poll_readable_def retry_shorter)

lemma read_fd_once_Data:
  "read_fd_once n r = Some (Inr (Data bs)) \<longleftrightarrow> (\<exists>raw. r = RBytes raw \<and> bs = take (unat n) raw \<and> bs \<noteq> [])"
  by (cases r) (auto simp: read_fd_once_def Let_def)

lemma read_fd_Data: "read_fd n rs = Some (Inr (Data bs), rest) \<Longrightarrow> bs \<noteq> [] \<and> length bs \<le> unat n"
  by (auto simp: read_fd_def retry_Some read_fd_once_Data)

lemma set_fd_nonblocking_cases:
  assumes "set_fd_nonblocking O_NONBLOCK file = (r, file')"
  shows "case r of
      Inr guard \<Rightarrow> (setfl_error file = None \<longrightarrow> drop_nonblocking_guard guard file' = file)
    | Inl e \<Rightarrow> file' = file"
  using assms
  by (auto simp: set_fd_nonblocking_def fcntl_setfl_def drop_nonblocking_guard_def Let_def
      split: option.splits if_splits)

text \<open>
  The reader puts the descriptor in nonblocking mode and puts it back. If the guard is
  created, the descriptor is nonblocking while the guard lives, and dropping the guard brings back
  exactly the flags found before (when the operating system lets it set flags); if the guard is
  not created, the flags are as they were and the operating system refused to read or set them.
\<close>

theorem nonblocking_guard_restores:
  assumes "O_NONBLOCK \<noteq> 0" "set_fd_nonblocking O_NONBLOCK file = (r, file')"
  shows "case r of
      Inr guard \<Rightarrow> status_flags file' AND O_NONBLOCK \<noteq> 0
        \<and> (setfl_error file = None \<longrightarrow> drop_nonblocking_guard guard file' = file)
    | Inl e \<Rightarrow> file' = file \<and> err_kind e = IoFailed
        \<and> (getfl_error file \<noteq> None \<or> setfl_error file \<noteq> None)"
proof -
  have absorb: "(f OR O_NONBLOCK) AND O_NONBLOCK = O_NONBLOCK" for f
    by (simp add: bit_eq_iff bit_simps)
  show ?thesis
    using assms absorb
    by (auto simp: set_fd_nonblocking_def fcntl_setfl_def drop_nonblocking_guard_def Let_def
        split: option.splits if_splits)
qed

theorem nonblocking_guard_restores_witness:
  "\<exists>guard. set_fd_nonblocking 2048 \<lparr>status_flags = 2, getfl_error = None, setfl_error = None\<rparr>
     = (Inr guard, \<lparr>status_flags = 2050, getfl_error = None, setfl_error = None\<rparr>)
   \<and> drop_nonblocking_guard guard \<lparr>status_flags = 2050, getfl_error = None, setfl_error = None\<rparr>
      = \<lparr>status_flags = 2, getfl_error = None, setfl_error = None\<rparr>"
proof -
  let ?file = "\<lparr>status_flags = 2 :: i32, getfl_error = None, setfl_error = None\<rparr>"
  have "set_fd_nonblocking 2048 ?file = (Inr \<lparr>original_flags = 2\<rparr>,
      \<lparr>status_flags = 2050, getfl_error = None, setfl_error = None\<rparr>)"
    by (simp add: set_fd_nonblocking_def fcntl_setfl_def)
  then show ?thesis
    using nonblocking_guard_restores [of 2048 ?file] by simp
qed

text \<open>
  Poll timeouts neither spin nor hang. The millisecond timeout is zero exactly for the zero
  duration (a positive wait below one millisecond is rounded up, never down to a busy loop), it is
  never negative (a negative timeout would block for ever), it is the duration's milliseconds
  wherever those lie between 1 and the largest C int, and a longer wait never gets a shorter
  timeout.
\<close>

theorem poll_timeout_sound:
  "(duration_to_poll_timeout_ms d = 0 \<longleftrightarrow> d = 0)
   \<and> 0 \<le> sint (duration_to_poll_timeout_ms d)
   \<and> (1 \<le> as_millis d \<and> as_millis d \<le> c_int_max
       \<longrightarrow> unat (duration_to_poll_timeout_ms d) = as_millis d)
   \<and> (d \<le> d' \<longrightarrow> unat (duration_to_poll_timeout_ms d) \<le> unat (duration_to_poll_timeout_ms d'))"
proof -
  have unat_ms: "unat (duration_to_poll_timeout_ms x) = (if x = 0 then 0 else clamp 1 c_int_max (as_millis x))" for x
    by (auto simp: duration_to_poll_timeout_ms_def unat_of_nat clamp_def c_int_max_def
        take_bit_nat_eq_self)
  have small: "unat (duration_to_poll_timeout_ms x) \<le> c_int_max" for x
    by (auto simp: unat_ms clamp_def c_int_max_def)
  have "sint (duration_to_poll_timeout_ms d) = int (unat (duration_to_poll_timeout_ms d))"
    using small [of d] by (intro sint_small) (simp add: c_int_max_def)
  moreover have "as_millis d \<le> as_millis d'" if "d \<le> d'"
    using that by (simp add: as_millis_def div_le_mono)
  ultimately show ?thesis
    by (auto simp: unat_ms word_unat_eq_iff clamp_def c_int_max_def as_millis_def)
qed

theorem poll_timeout_sound_witness:
  "duration_to_poll_timeout_ms 1 = 1 \<and> unat (duration_to_poll_timeout_ms 50000000) = 50"
  using poll_timeout_sound [of 1 50000000] poll_timeout_sound [of 50000000 50000000]
  by (simp add: as_millis_def c_int_max_def duration_to_poll_timeout_ms_def clamp_def)

definition interrupted :: "io_error \<Rightarrow> bool" where
  "interrupted e \<longleftrightarrow> io_kind e = Io_Interrupted"

lemma once_None_iff:
  "poll_writable_once p = None \<longleftrightarrow> (\<exists>e. p = PErr e \<and> interrupted e)"
  "poll_readable_once p = None \<longleftrightarrow> (\<exists>e. p = PErr e \<and> interrupted e)"
  "read_fd_once n r = None \<longleftrightarrow> (\<exists>e. r = RErr e \<and> interrupted e)"
proof -
  show "poll_writable_once p = None \<longleftrightarrow> (\<exists>e. p = PErr e \<and> interrupted e)"
    by (cases p) (auto simp: interrupted_def)
  show "poll_readable_once p = None \<longleftrightarrow> (\<exists>e. p = PErr e \<and> interrupted e)"
    by (cases p) (auto simp: interrupted_def)
  show "read_fd_once n r = None \<longleftrightarrow> (\<exists>e. r = RErr e \<and> interrupted e)"
    by (cases r) (auto simp: read_fd_once_def Let_def interrupted_def)
qed

text \<open>
  Signals are invisible. Any number of interrupted calls in front changes nothing in what a
  descriptor read, a readability poll or a writability wait returns and leaves unread, and such a
  call keeps waiting only while every reply so far was an interruption.
\<close>

theorem interruptions_invisible:
  assumes "\<forall>p \<in> set ps. \<exists>e. p = PErr e \<and> interrupted e"
    and "\<forall>r \<in> set rs. \<exists>e. r = RErr e \<and> interrupted e"
  shows "wait_fd_writable_for (ps @ polls) = wait_fd_writable_for polls
    \<and> poll_readable (ps @ polls) = poll_readable polls
    \<and> read_fd n (rs @ reads) = read_fd n reads
    \<and> (read_fd n reads = None \<longleftrightarrow> (\<forall>r \<in> set reads. \<exists>e. r = RErr e \<and> interrupted e))
    \<and> (poll_readable polls = None \<longleftrightarrow> (\<forall>p \<in> set polls. \<exists>e. p = PErr e \<and> interrupted e))
    \<and> (wait_fd_writable_for polls = None \<longleftrightarrow> (\<forall>p \<in> set polls. \<exists>e. p = PErr e \<and> interrupted e))"
  using assms
  by (simp add: wait_fd_writable_for_def poll_readable_def read_fd_def retry_skip retry_None_iff
      once_None_iff)

theorem interruptions_invisible_witness:
  "read_fd 8 ([RErr (io_error_new Io_Interrupted ''EINTR'')] @ [RBytes [7]]) = read_fd 8 [RBytes [7]]
   \<and> poll_readable ([PErr (io_error_new Io_Interrupted ''EINTR'')] @ [PTimeout]) = poll_readable [PTimeout]"
  using interruptions_invisible
      [of "[PErr (io_error_new Io_Interrupted ''EINTR'')]" "[RErr (io_error_new Io_Interrupted ''EINTR'')]"
        "[PTimeout]" 8 "[RBytes [7]]"]
  by (simp add: interrupted_def)

end
