(* ===== verification/Reader.thy ===== *)
theory Reader
  imports OutputAccounts Fd
begin

text \<open>
  The reader thread: \<open>native/src/reader.rs\<close>. The replies of \<open>read\<close> and \<open>poll\<close> are scripts, and the
  other threads act through the script of the shared state (theory \<open>Output\<close>); \<open>None\<close> means the
  thread has not returned when a script ends. Each loop gives the buffer and the state in which it
  leaves, and the bytes it read, which the code does not keep. One induction over the loops, the
  locale \<open>reader_rule\<close>, serves every property of whole runs.
\<close>

type_synonym reader_result = "(OutputBuffer \<times> out_sys \<times> u8 list) option"

text \<open>Leaving a loop with the state of a flush, whose result is dropped, or with an error posted.\<close>

definition flush_ok :: "OutputBuffer \<Rightarrow> out_sys \<Rightarrow> reader_result" where
  "flush_ok b s = map_option (\<lambda>(_, b', s'). (b', s', [])) (flush b s)"

definition leave_error :: "OutputBuffer \<Rightarrow> PtyxError \<Rightarrow> out_sys \<Rightarrow> reader_result" where
  "leave_error b e s = Some (b, output_post_error b e s, [])"

definition flush_leave_error :: "OutputBuffer \<Rightarrow> PtyxError \<Rightarrow> out_sys \<Rightarrow> reader_result" where
  "flush_leave_error b e s = map_option (\<lambda>(b', s'). (b', s', [])) (flush_and_post_error b e s)"

definition after_read :: "u8 list \<Rightarrow> reader_result \<Rightarrow> reader_result" where
  "after_read bs = map_option (\<lambda>(b, s, got). (b, s, bs @ got))"

text \<open>\<open>read_outer\<close> is the head of \<open>'read_loop\<close>, \<open>read_inner\<close> the inner loop and the poll after it.\<close>

function read_outer :: "OutputBuffer \<Rightarrow> out_sys \<Rightarrow> read_reply list \<Rightarrow> poll_reply list \<Rightarrow> reader_result"
  and read_inner :: "OutputBuffer \<Rightarrow> out_sys \<Rightarrow> read_reply list \<Rightarrow> poll_reply list \<Rightarrow> reader_result"
  where
  "read_outer b s reads polls =
    (let s1 = interfere (ob_config b) s in
     if stop s1 then flush_ok b s1 else read_inner b s1 reads polls)"
| "read_inner b s reads polls =
    (case read_fd (oc_read_buffer_size (ob_config b)) reads of
       None \<Rightarrow> None
     | Some (Inr (Data bs), reads') \<Rightarrow>
         (case append_output b bs s of
            None \<Rightarrow> None
          | Some (Inl e, b', s') \<Rightarrow> after_read bs (leave_error b' e s')
          | Some (Inr _, b', s') \<Rightarrow>
              let s2 = interfere (ob_config b') s' in
              after_read bs (if stop s2 then read_outer b' s2 reads' polls else read_inner b' s2 reads' polls))
     | Some (Inr RR_WouldBlock, reads') \<Rightarrow>
         (case poll_readable polls of
            None \<Rightarrow> None
          | Some (Inr Timeout, polls') \<Rightarrow>
              (case flush b s of
                 None \<Rightarrow> None
               | Some (Inl e, b', s') \<Rightarrow> leave_error b' e s'
               | Some (Inr _, b', s') \<Rightarrow> read_outer b' s' reads' polls')
          | Some (Inr Ready, polls') \<Rightarrow> read_outer b s reads' polls'
          | Some (Inl e, polls') \<Rightarrow> flush_leave_error b e s)
     | Some (Inr Eof, reads') \<Rightarrow> flush_ok b s
     | Some (Inl e, reads') \<Rightarrow> flush_leave_error b e s)"
  by pat_completeness auto
termination
  by (relation "measure (\<lambda>x. case x of Inl (b, s, reads, polls) \<Rightarrow> 2 * length reads + 1
                              | Inr (b, s, reads, polls) \<Rightarrow> 2 * length reads)")
    (auto dest: read_fd_shorter)

declare read_outer.simps [simp del] read_inner.simps [simp del]

definition read_unix_fd ::
    "i32 \<Rightarrow> fd_flags \<Rightarrow> OutputBuffer \<Rightarrow> out_sys \<Rightarrow> read_reply list \<Rightarrow> poll_reply list
     \<Rightarrow> (out_sys \<times> u8 list \<times> fd_flags) option" where
  "read_unix_fd O_NONBLOCK file b s reads polls =
    (case set_fd_nonblocking O_NONBLOCK file of
       (Inl e, file') \<Rightarrow> Some (close_ports b (output_post_error b e s), [], file')
     | (Inr guard, file') \<Rightarrow>
         map_option (\<lambda>(b', s', got). (close_ports b' s', got, drop_nonblocking_guard guard file'))
           (read_outer b s reads polls))"

text \<open>The loop over the PTY's \<open>Read\<close> object, whose \<open>read\<close> blocks.\<close>

fun blocking_loop :: "OutputBuffer \<Rightarrow> out_sys \<Rightarrow> read_reply list \<Rightarrow> reader_result" where
  "blocking_loop b s [] =
    (let s1 = interfere (ob_config b) s in if stop s1 then flush_ok b s1 else None)"
| "blocking_loop b s (r # reads) =
    (let s1 = interfere (ob_config b) s in
     if stop s1 then flush_ok b s1
     else case r of
       RBytes raw \<Rightarrow>
         let bs = take (unat (oc_read_buffer_size (ob_config b))) raw in
         if bs = [] then flush_ok b s1
         else (case append_output b bs s1 of
            None \<Rightarrow> None
          | Some (Inl e, b', s') \<Rightarrow> after_read bs (leave_error b' e s')
          | Some (Inr _, b', s') \<Rightarrow>
              let s2 = interfere (ob_config b') s' in
              if should_flush_for_delay b' (now s2) then
                (case flush b' s2 of
                   None \<Rightarrow> None
                 | Some (Inl e, b2, s3) \<Rightarrow> after_read bs (leave_error b2 e s3)
                 | Some (Inr _, b2, s3) \<Rightarrow> after_read bs (blocking_loop b2 s3 reads))
              else after_read bs (blocking_loop b' s2 reads))
     | RErr e \<Rightarrow>
         if io_kind e = Io_Interrupted then blocking_loop b s1 reads
         else if io_kind e = Io_UnexpectedEof then flush_ok b s1
         else flush_leave_error b (PtyxError_io IoFailed e) s1)"

definition reader_poisoned_error :: PtyxError where
  "reader_poisoned_error = PtyxError_new Error ''reader lock poisoned''"

definition read_blocking ::
    "unit mutex \<Rightarrow> OutputBuffer \<Rightarrow> out_sys \<Rightarrow> read_reply list \<Rightarrow> (out_sys \<times> u8 list) option" where
  "read_blocking reader b s reads =
    (case lock reader_poisoned_error reader of
       Inl e \<Rightarrow> Some (close_ports b (output_post_error b e s), [])
     | Inr _ \<Rightarrow> map_option (\<lambda>(b', s', got). (close_ports b' s', got)) (blocking_loop b s reads))"

text \<open>What the thread finds in the session: the busy flag, the master, its flags and its reader.\<close>

record reader_env =
  re_busy :: bool
  re_master :: "i32 option mutex"
  re_reader :: "unit mutex"
  re_file :: fd_flags
  re_O_NONBLOCK :: i32

definition reader_run ::
    "OutputConfig \<Rightarrow> reader_env \<Rightarrow> out_sys \<Rightarrow> read_reply list \<Rightarrow> poll_reply list
     \<Rightarrow> (out_sys \<times> u8 list \<times> reader_env) option" where
  "reader_run config v s reads polls =
    (let b = OutputBuffer_new config in
     case BusyGuard_enter (re_busy v) of
       (Inl e, busy) \<Rightarrow> Some (close_ports b (output_post_error b e s), [], v\<lparr>re_busy := busy\<rparr>)
     | (Inr _, busy) \<Rightarrow>
         let v1 = v\<lparr>re_busy := busy\<rparr> in
         map_option (\<lambda>(s', got, v2). (s', got, v2\<lparr>re_busy := BusyGuard_drop\<rparr>))
           (case read_context_for_inner (re_master v1) of
              Inr (Some context) \<Rightarrow>
                map_option (\<lambda>(s', got, file). (s', got, v1\<lparr>re_file := file\<rparr>))
                  (read_unix_fd (re_O_NONBLOCK v1) (re_file v1) b s reads polls)
            | Inr None \<Rightarrow>
                map_option (\<lambda>(s', got). (s', got, v1)) (read_blocking (re_reader v1) b s reads)
            | Inl e \<Rightarrow> Some (close_ports b (output_post_error b e s), [], v1)))"

section \<open>What a loop delivers\<close>

text \<open>
  From a buffer and state, a loop left with buffer \<open>b'\<close> and state \<open>s'\<close> after reading \<open>got\<close>: it
  posted chunks only, what was delivered is a prefix of batch and data, and all of it unless the
  thread was stopped, the counter's lock poisoned or a post refused.
\<close>

definition relays :: "OutputBuffer \<Rightarrow> out_sys \<Rightarrow> u8 list \<Rightarrow> OutputBuffer \<Rightarrow> out_sys \<Rightarrow> bool" where
  "relays b s got b' s' \<longleftrightarrow>
     (let cfg = ob_config b; port = oc_output_port cfg in
      ob_config b' = cfg
    \<and> (\<exists>ms. output_log port s' = output_log port s @ ms
         \<and> list_all (chunk_message_ok cfg) ms
         \<and> prefix (concat (chunks_of ms)) (ob_batch b @ got)
         \<and> (\<not> stop s' \<and> \<not> poisoned (inflight s') \<and> linked s \<and> list_all snd ms
              \<longrightarrow> concat (chunks_of ms) = ob_batch b @ got))
    \<and> linked s' = linked s \<and> (stop s \<longrightarrow> stop s') \<and> (poisoned (inflight s) \<longrightarrow> poisoned (inflight s')))"

text \<open>Limits as \<open>runtime_config_from_options\<close> clamps them, with room to spare.\<close>

definition limits_ok :: "OutputConfig \<Rightarrow> bool" where
  "limits_ok cfg \<longleftrightarrow> 0 < batch_max cfg \<and> batch_max cfg \<le> 2 ^ 62 \<and> unat (oc_read_buffer_size cfg) \<le> 2 ^ 62"

lemma relays_others:
  assumes "others s s1" "relays b s1 got b' s'"
  shows "relays b s got b' s'"
  using assms by (auto simp: relays_def Let_def others_def)

lemma relays_then_others:
  assumes "relays b s got b1 s1" "others s1 s'" "ob_config b' = ob_config b1"
  shows "relays b s got b' s'"
proof -
  have "output_log p s' = output_log p s1" "linked s' = linked s1" "stop s1 \<longrightarrow> stop s'"
    "poisoned (inflight s1) \<longrightarrow> poisoned (inflight s')" for p
    using assms(2) by (simp_all add: others_def)
  then show ?thesis
    using assms(1,3) unfolding relays_def Let_def by auto
qed

lemma emits_relays:
  assumes "emits (ob_config b) (ob_batch b @ bs) s (Inr u) b1 s1" "relays b1 s1 got b' s'"
  shows "relays b s (bs @ got) b' s'"
proof -
  let ?cfg = "ob_config b" and ?port = "oc_output_port (ob_config b)"
  have b1: "ob_config b1 = ?cfg" and mono: "linked s1 = linked s" "stop s \<longrightarrow> stop s1"
    "poisoned (inflight s) \<longrightarrow> poisoned (inflight s1)"
    using assms(1) by (simp_all add: emits_def)
  obtain ms1 where 1: "output_log ?port s1 = output_log ?port s @ ms1" "list_all (chunk_message_ok ?cfg) ms1"
    "concat (chunks_of ms1) @ ob_batch b1 = ob_batch b @ bs" "list_all snd ms1"
    using assms(1) by (auto simp: emits_def)
  obtain ms2 where 2: "output_log ?port s' = output_log ?port s1 @ ms2" "list_all (chunk_message_ok ?cfg) ms2"
    "prefix (concat (chunks_of ms2)) (ob_batch b1 @ got)"
    "\<not> stop s' \<and> \<not> poisoned (inflight s') \<and> linked s1 \<and> list_all snd ms2 \<longrightarrow>
       concat (chunks_of ms2) = ob_batch b1 @ got"
    using assms(2) b1 by (auto simp: relays_def Let_def)
  have all: "ob_batch b @ bs @ got = concat (chunks_of ms1) @ ob_batch b1 @ got"
    using 1(3) by (metis append.assoc)
  have "prefix (concat (chunks_of (ms1 @ ms2))) (ob_batch b @ bs @ got)"
    unfolding all using 2(3) by simp
  moreover have "\<not> stop s' \<and> \<not> poisoned (inflight s') \<and> linked s \<and> list_all snd (ms1 @ ms2) \<longrightarrow>
      concat (chunks_of (ms1 @ ms2)) = ob_batch b @ bs @ got"
    unfolding all using 2(4) mono by simp
  moreover have "output_log ?port s' = output_log ?port s @ ms1 @ ms2"
    "list_all (chunk_message_ok ?cfg) (ms1 @ ms2)"
    using 1 2 by simp_all
  moreover have "ob_config b' = ?cfg" "linked s' = linked s" "stop s \<longrightarrow> stop s'"
    "poisoned (inflight s) \<longrightarrow> poisoned (inflight s')"
    using assms(2) b1 mono by (simp_all add: relays_def Let_def)
  ultimately show ?thesis
    unfolding relays_def Let_def by blast
qed

lemma emits_error_relays:
  assumes "emits (ob_config b) (ob_batch b @ bs) s (Inl e) b1 s1"
  shows "relays b s bs b1 s1"
  using assms by (auto simp: emits_def relays_def Let_def)

lemma emits_final_relays:
  assumes "emits (ob_config b) (ob_batch b) s (Inr u) b1 s1" "\<not> stop s1 \<Longrightarrow> ob_batch b1 = []"
  shows "relays b s [] b1 s1"
  using assms by (fastforce simp: emits_def relays_def Let_def)

lemma flush_empties: "flush b s = Some (Inr u, b', s') \<Longrightarrow> vec_fits (ob_batch b) \<Longrightarrow> \<not> stop s' \<Longrightarrow> ob_batch b' = []"
  by (erule flush_cases) auto

lemma flush_relays:
  assumes "flush b s = Some (r, b', s')" "vec_fits (ob_batch b)" "batch_ok b s" "0 < batch_max (ob_config b)"
  shows "relays b s [] b' s'" and "emits (ob_config b) (ob_batch b) s r b' s'"
proof -
  show em: "emits (ob_config b) (ob_batch b) s r b' s'"
    by (rule flush_emits [OF assms(1,2) _ assms(4)]) (use assms(3) in \<open>auto simp: batch_ok_def\<close>)
  show "relays b s [] b' s'"
  proof (cases r)
    case (Inl e)
    then show ?thesis using emits_error_relays [of b "[]" s e b' s'] em by simp
  next
    case (Inr u)
    then show ?thesis
      using emits_final_relays em flush_empties assms(1,2) by blast
  qed
qed

lemma post_error_others: "others s (output_post_error b e s)"
  unfolding output_post_error_def post_error_def post_error_message_def Let_def
  by (rule others_trans [OF others_interfere others_post]) simp_all

lemma append_read_fits:
  assumes "limits_ok (ob_config b)" "batch_ok b s" "\<not> stop s" "length bs \<le> unat (oc_read_buffer_size (ob_config b))"
  shows "vec_fits (ob_batch b @ bs)"
  using assms by (auto simp: limits_ok_def batch_ok_def vec_fits_def)

lemma batch_ok_others: "batch_ok b s \<Longrightarrow> others s s' \<Longrightarrow> batch_ok b s'"
  by (auto simp: batch_ok_def others_def)

section \<open>A rule for the loops\<close>

text \<open>
  What the loops are assumed to find: limits in range, a batch below its limit, no stop seen yet, and
  data that a read can give.
\<close>

definition reads_into :: "OutputBuffer \<Rightarrow> u8 list \<Rightarrow> out_sys \<Rightarrow> bool" where
  "reads_into b bs s \<longleftrightarrow>
     limits_ok (ob_config b) \<and> batch_ok b s \<and> \<not> stop s \<and> length bs \<le> unat (oc_read_buffer_size (ob_config b))"

definition flushes :: "OutputBuffer \<Rightarrow> out_sys \<Rightarrow> bool" where
  "flushes b s \<longleftrightarrow> vec_fits (ob_batch b) \<and> batch_ok b s \<and> limits_ok (ob_config b)"

lemma flushes_emits:
  assumes "flush b s = Some (r, b', s')" "flushes b s"
  shows "emits (ob_config b) (ob_batch b) s r b' s'" "ob_config b' = ob_config b" "r = Inr u \<Longrightarrow> flushes b' s'"
proof -
  show "emits (ob_config b) (ob_batch b) s r b' s'"
    by (rule flush_relays(2) [OF assms(1)]) (use assms(2) in \<open>simp_all add: flushes_def limits_ok_def\<close>)
  then show "ob_config b' = ob_config b" "r = Inr u \<Longrightarrow> flushes b' s'"
    using assms(2) by (auto simp: emits_def flushes_def vec_fits_def)
qed

lemma appends_emits:
  assumes app: "append_output b bs s = Some (r, b1, s1)" and pre: "reads_into b bs s"
  shows "emits (ob_config b) (ob_batch b @ bs) s r b1 s1" "ob_config b1 = ob_config b" "r = Inr u \<Longrightarrow> flushes b1 s1"
proof -
  have fits: "vec_fits (ob_batch b @ bs)"
    using pre append_read_fits [of b s bs] by (simp add: reads_into_def)
  show em: "emits (ob_config b) (ob_batch b @ bs) s r b1 s1"
    by (rule append_emits [OF app fits]) (use pre in \<open>simp_all add: reads_into_def limits_ok_def\<close>)
  then show "ob_config b1 = ob_config b" "r = Inr u \<Longrightarrow> flushes b1 s1"
    using fits pre by (auto simp: emits_def flushes_def reads_into_def vec_fits_def)
qed

lemma flushes_interfere: "flushes b s \<Longrightarrow> flushes b (interfere (ob_config b) s)"
  using batch_ok_others [OF _ others_interfere] by (simp add: flushes_def)

text \<open>
  A relation between the buffer and state in which a loop starts, what it reads, and the buffer and
  state in which it ends. When the relation survives what the other threads do, and follows each
  flush, append and error, it holds of every run of the reader.
\<close>

locale reader_rule =
  fixes Q :: "OutputBuffer \<Rightarrow> out_sys \<Rightarrow> u8 list \<Rightarrow> OutputBuffer \<Rightarrow> out_sys \<Rightarrow> bool"
  assumes others_first: "Q b (interfere (ob_config b) s) got b' s' \<Longrightarrow> Q b s got b' s'"
    and flush_last: "flush b s = Some (r, b', s') \<Longrightarrow> flushes b s \<Longrightarrow> Q b s [] b' s'"
    and flush_first: "flush b s = Some (Inr u, b1, s1) \<Longrightarrow> flushes b s \<Longrightarrow> Q b1 s1 got b' s' \<Longrightarrow> Q b s got b' s'"
    and append_last: "append_output b bs s = Some (Inl e, b', s') \<Longrightarrow> reads_into b bs s \<Longrightarrow> Q b s bs b' s'"
    and append_first: "append_output b bs s = Some (Inr u, b1, s1) \<Longrightarrow> reads_into b bs s \<Longrightarrow>
      Q b1 s1 got b' s' \<Longrightarrow> Q b s (bs @ got) b' s'"
    and error_last: "Q b s got b' s' \<Longrightarrow> Q b s got b' (output_post_error b' e s')"
    and keeps_config: "Q b s got b' s' \<Longrightarrow> ob_config b' = ob_config b"
begin

lemma flush_ok_rule: "flush_ok b s = Some (b', s', got) \<Longrightarrow> flushes b s \<Longrightarrow> Q b s got b' s'"
  using flush_last by (auto simp: flush_ok_def)

lemma flush_leave_error_rule: "flush_leave_error b e s = Some (b', s', got) \<Longrightarrow> flushes b s \<Longrightarrow> Q b s got b' s'"
  using flush_last error_last by (fastforce simp: flush_leave_error_def flush_and_post_error_def)

lemma append_rule:
  assumes "append_output b bs s = Some (r, b1, s1)" "reads_into b bs s"
    and "case r of Inl e \<Rightarrow> after_read bs (leave_error b1 e s1) = Some (b', s', got)
      | Inr _ \<Rightarrow> after_read bs loop = Some (b', s', got)"
    and "\<And>u got'. r = Inr u \<Longrightarrow> loop = Some (b', s', got') \<Longrightarrow> flushes b1 (interfere (ob_config b1) s1) \<Longrightarrow>
      ob_config b1 = ob_config b \<Longrightarrow> Q b1 (interfere (ob_config b1) s1) got' b' s'"
  shows "Q b s got b' s'"
proof (cases r)
  case (Inl e)
  then show ?thesis
    using assms(1-3) append_last error_last by (auto simp: after_read_def leave_error_def)
next
  case (Inr u)
  then obtain got' where loop: "loop = Some (b', s', got')" "got = bs @ got'"
    using assms(3) by (auto simp: after_read_def)
  have "flushes b1 (interfere (ob_config b1) s1)" "ob_config b1 = ob_config b"
    using appends_emits [OF assms(1,2)] Inr flushes_interfere [of b1 s1] by auto
  with assms(4) [OF Inr loop(1)] have "Q b1 (interfere (ob_config b1) s1) got' b' s'"
    by simp
  then show ?thesis
    using others_first append_first assms(1,2) Inr loop(2) by blast
qed

lemma flush_rule:
  assumes "flush b s = Some (r, b1, s1)" "flushes b s"
    and "case r of Inl e \<Rightarrow> leave_error b1 e s1 = Some (b', s', got) | Inr _ \<Rightarrow> loop = Some (b', s', got)"
    and "\<And>u. r = Inr u \<Longrightarrow> loop = Some (b', s', got) \<Longrightarrow> flushes b1 s1 \<Longrightarrow> ob_config b1 = ob_config b \<Longrightarrow> Q b1 s1 got b' s'"
  shows "Q b s got b' s'"
proof (cases r)
  case (Inl e)
  then show ?thesis
    using assms(1-3) flush_last error_last by (auto simp: leave_error_def)
next
  case (Inr u)
  then show ?thesis
    using assms flushes_emits [OF assms(1,2)] flush_first by auto
qed

lemma read_rule:
  "read_outer b s reads polls = Some (b', s', got) \<Longrightarrow> flushes b s \<Longrightarrow> Q b s got b' s'"
  "read_inner b s reads polls = Some (b', s', got) \<Longrightarrow> flushes b s \<Longrightarrow> \<not> stop s \<Longrightarrow> Q b s got b' s'"
proof (induction b s reads polls and b s reads polls arbitrary: b' s' got and b' s' got
    rule: read_outer_read_inner.induct)
  case (1 b s reads polls)
  have "Q b (interfere (ob_config b) s) got b' s'"
    using 1 flush_ok_rule flushes_interfere by (auto simp: read_outer.simps [of b s] Let_def split: if_splits)
  then show ?case
    by (rule others_first)
next
  case (2 b s reads polls)
  note step = read_inner.simps [of b s reads polls] and fl = 2(6)
  obtain rr reads' where rd: "read_fd (oc_read_buffer_size (ob_config b)) reads = Some (rr, reads')"
    using 2(5) by (cases "read_fd (oc_read_buffer_size (ob_config b)) reads") (auto simp: step)
  consider (data) bs where "rr = Inr (Data bs)" | (eof) "rr = Inr Eof" | (block) "rr = Inr RR_WouldBlock"
    | (failed) e where "rr = Inl e"
    by (metis ReadResult.exhaust sumE)
  then show ?case
  proof cases
    case data
    obtain r b1 s1 where app: "append_output b bs s = Some (r, b1, s1)"
      using 2(5) rd data by (cases "append_output b bs s") (auto simp: step)
    let ?s2 = "interfere (ob_config b1) s1"
    show ?thesis
    proof (rule append_rule [OF app, where loop =
          "if stop ?s2 then read_outer b1 ?s2 reads' polls else read_inner b1 ?s2 reads' polls"])
      show "reads_into b bs s"
        using fl 2(7) read_fd_Data rd data by (simp add: reads_into_def flushes_def)
      show "Q b1 ?s2 got' b' s'" if "r = Inr u" "(if stop ?s2 then read_outer b1 ?s2 reads' polls else read_inner b1 ?s2 reads' polls)
          = Some (b', s', got')" "flushes b1 ?s2" for u got'
        using that 2(1) [OF rd refl data refl app refl _ refl refl] 2(2) [OF rd refl data refl app refl _ refl refl] 2(5)
          rd data app
        by (auto split: if_splits)
    qed (use 2(5) rd data app in \<open>auto simp: step Let_def split: sum.splits if_splits\<close>)
  next
    case block
    obtain pr polls' where po: "poll_readable polls = Some (pr, polls')"
      using 2(5) rd block by (cases "poll_readable polls") (auto simp: step)
    consider (timeout) "pr = Inr Timeout" | (ready) "pr = Inr Ready" | (bad) e where "pr = Inl e"
      by (metis PollResult.exhaust sumE)
    then show ?thesis
    proof cases
      case timeout
      obtain r b1 s1 where flushed: "flush b s = Some (r, b1, s1)"
        using 2(5) rd block po timeout by (cases "flush b s") (auto simp: step)
      show ?thesis
      proof (rule flush_rule [OF flushed fl, where loop = "read_outer b1 s1 reads' polls'"])
        show "Q b1 s1 got b' s'" if "r = Inr u" "read_outer b1 s1 reads' polls' = Some (b', s', got)" "flushes b1 s1" for u
          using that 2(4) [OF rd refl block refl po refl timeout refl flushed refl _ refl] by auto
      qed (use 2(5) rd block po timeout flushed in \<open>simp add: step split: sum.splits\<close>)
    qed (use 2(3) [OF rd refl block refl po refl _ refl] 2(5) rd block po fl flush_leave_error_rule in \<open>simp_all add: step\<close>)
  qed (use 2(5) rd fl flush_ok_rule flush_leave_error_rule in \<open>simp_all add: step\<close>)
qed

lemma blocking_rule: "blocking_loop b s reads = Some (b', s', got) \<Longrightarrow> flushes b s \<Longrightarrow> Q b s got b' s'"
proof (induction reads arbitrary: b s b' s' got)
  case Nil
  then have "Q b (interfere (ob_config b) s) got b' s'"
    using flush_ok_rule flushes_interfere by (auto simp: Let_def split: if_splits)
  then show ?case by (rule others_first)
next
  case (Cons r reads)
  let ?s1 = "interfere (ob_config b) s"
  have fl: "flushes b ?s1"
    using Cons.prems(2) by (rule flushes_interfere)
  have "Q b ?s1 got b' s'"
  proof (cases "stop ?s1 \<or> (\<exists>e. r = RErr e)")
    case True
    then show ?thesis
      using Cons fl flush_ok_rule flush_leave_error_rule by (auto simp: Let_def split: if_splits)
  next
    case False
    then obtain raw where r: "r = RBytes raw" and go: "\<not> stop ?s1"
      by (cases r) auto
    define bs where "bs = take (unat (oc_read_buffer_size (ob_config b))) raw"
    show ?thesis
    proof (cases "bs = []")
      case True
      then show ?thesis
        using Cons.prems fl go r flush_ok_rule by (auto simp: Let_def bs_def)
    next
      case data: False
      obtain q b1 s1 where app: "append_output b bs ?s1 = Some (q, b1, s1)"
        using Cons.prems(1) go data r by (cases "append_output b bs ?s1") (auto simp: Let_def bs_def)
      let ?s2 = "interfere (ob_config b1) s1"
      define loop where "loop = (if should_flush_for_delay b1 (now ?s2) then
            (case flush b1 ?s2 of
               None \<Rightarrow> None
             | Some (Inl e, b2, s3) \<Rightarrow> leave_error b2 e s3
             | Some (Inr _, b2, s3) \<Rightarrow> blocking_loop b2 s3 reads)
          else blocking_loop b1 ?s2 reads)"
      show ?thesis
      proof (rule append_rule [OF app])
        show "reads_into b bs ?s1"
          using fl go by (simp add: reads_into_def flushes_def bs_def)
        show "case q of Inl e \<Rightarrow> after_read bs (leave_error b1 e s1) = Some (b', s', got)
            | Inr _ \<Rightarrow> after_read bs loop = Some (b', s', got)"
          using Cons.prems(1) go data r app
          by (auto simp: Let_def bs_def loop_def after_read_def split: sum.splits if_splits option.splits)
        show "Q b1 ?s2 got' b' s'" if rest: "loop = Some (b', s', got')" "flushes b1 ?s2" for got'
        proof (cases "should_flush_for_delay b1 (now ?s2)")
          case due: True
          then obtain q2 b2 s3 where flushed: "flush b1 ?s2 = Some (q2, b2, s3)"
            using rest by (cases "flush b1 ?s2") (auto simp: loop_def)
          show ?thesis
            by (rule flush_rule [OF flushed rest(2), where loop = "blocking_loop b2 s3 reads"])
              (use rest due flushed Cons.IH in \<open>auto simp: loop_def split: sum.splits\<close>)
        qed (use rest Cons.IH in \<open>simp add: loop_def\<close>)
      qed
    qed
  qed
  then show ?case by (rule others_first)
qed

text \<open>However the thread ends, the end marker is its last action.\<close>

lemma run_rule:
  assumes "reader_run cfg v s reads polls = Some (s', got, v')" "limits_ok cfg"
  obtains b' s1 where "Q (OutputBuffer_new cfg) s got b' s1" "s' = close_ports b' s1"
proof -
  let ?b = "OutputBuffer_new cfg"
  have fl: "flushes ?b s"
    using assms(2) by (simp add: flushes_def OutputBuffer_new_def batch_ok_def limits_ok_def)
  have "flush ?b s = Some (Inr (), ?b, s)"
    by (simp add: flush_def OutputBuffer_new_def)
  then have "Q ?b s [] ?b (output_post_error ?b e s)" for e
    using flush_last fl error_last by blast
  then show thesis
    using assms(1) that read_rule(1) [OF _ fl] blocking_rule [OF _ fl]
    by (fastforce simp: reader_run_def Let_def read_unix_fd_def read_blocking_def split: sum.splits option.splits prod.splits)
qed

end

text \<open>The first relation is what the loops deliver.\<close>

interpretation relay_rule: reader_rule relays
proof
  fix b s b' s' got
  show "relays b (interfere (ob_config b) s) got b' s' \<Longrightarrow> relays b s got b' s'"
    by (rule relays_others [OF others_interfere])
  show "relays b s got b' s' \<Longrightarrow> relays b s got b' (output_post_error b' e s')" for e
    by (rule relays_then_others [OF _ post_error_others refl])
  show "relays b s got b' s' \<Longrightarrow> ob_config b' = ob_config b"
    by (simp add: relays_def Let_def)
  show "flush b s = Some (r, b', s') \<Longrightarrow> flushes b s \<Longrightarrow> relays b s [] b' s'" for r
    using flush_relays(1) by (auto simp: flushes_def limits_ok_def)
  show "flush b s = Some (Inr u, b1, s1) \<Longrightarrow> flushes b s \<Longrightarrow> relays b1 s1 got b' s' \<Longrightarrow> relays b s got b' s'" for u b1 s1
    using emits_relays [of b "[]" s u b1 s1 got b' s'] flushes_emits(1) by auto
  show "append_output b bs s = Some (Inl e, b', s') \<Longrightarrow> reads_into b bs s \<Longrightarrow> relays b s bs b' s'" for bs e
    using appends_emits(1) emits_error_relays by blast
  show "append_output b bs s = Some (Inr u, b1, s1) \<Longrightarrow> reads_into b bs s \<Longrightarrow> relays b1 s1 got b' s' \<Longrightarrow>
      relays b s (bs @ got) b' s'" for bs u b1 s1
    using appends_emits(1) emits_relays by blast
qed

section \<open>The whole thread\<close>

text \<open>The thread's result: chunks, then the end marker, in the output port's log.\<close>

definition reader_done :: "OutputConfig \<Rightarrow> out_sys \<Rightarrow> u8 list \<Rightarrow> out_sys \<Rightarrow> bool" where
  "reader_done cfg s got s' \<longleftrightarrow>
     (\<exists>ms answer. output_log (oc_output_port cfg) s' =
          output_log (oc_output_port cfg) s @ ms @ (if linked s then [(End_of_output, answer)] else [])
        \<and> (\<forall>m \<in> set ms. \<exists>c. fst m = Chunk c \<and> c \<noteq> [] \<and> length c \<le> batch_max cfg)
        \<and> prefix (concat (chunks_of ms)) got
        \<and> (linked s \<and> \<not> stop s' \<and> \<not> poisoned (inflight s') \<and> (\<forall>m \<in> set ms. snd m)
             \<longrightarrow> concat (chunks_of ms) = got))"

lemma close_ports_log:
  "output_log (oc_output_port (ob_config b)) (close_ports b s) =
     output_log (oc_output_port (ob_config b)) s @
       (if linked s then [(End_of_output, fst (post_output_closed (oc_output_port (ob_config b)) (interfere (ob_config b) s)))] else [])"
  "stop s \<longrightarrow> stop (close_ports b s)" "poisoned (inflight s) \<longrightarrow> poisoned (inflight (close_ports b s))"
  using others_interfere [of s "ob_config b"]
  by (simp_all add: close_ports_def post_output_closed_def post_message_log logged_def others_def)

lemma relays_done:
  assumes "relays b s got b' s'" "ob_batch b = []"
  shows "reader_done (ob_config b) s got (close_ports b' s')"
proof -
  let ?cfg = "ob_config b"
  obtain ms where ms: "output_log (oc_output_port ?cfg) s' = output_log (oc_output_port ?cfg) s @ ms"
    "list_all (chunk_message_ok ?cfg) ms" "prefix (concat (chunks_of ms)) got"
    "\<not> stop s' \<and> \<not> poisoned (inflight s') \<and> linked s \<and> list_all snd ms \<longrightarrow> concat (chunks_of ms) = got"
    "ob_config b' = ?cfg" "linked s' = linked s"
    using assms by (auto simp: relays_def Let_def)
  show ?thesis
    unfolding reader_done_def
    by (rule exI [of _ ms],
        rule exI [of _ "fst (post_output_closed (oc_output_port ?cfg) (interfere ?cfg s'))"])
      (use ms close_ports_log(1) [of b' s'] close_ports_log(2,3) [of s' b'] in \<open>auto simp: list_all_iff chunk_message_ok_def\<close>)
qed

text \<open>The busy flag is given back, and so are the descriptor's flags.\<close>

lemma reader_run_restores:
  assumes "reader_run cfg v s reads polls = Some (s', got, v')"
  shows "re_busy v' = re_busy v"
    and "re_O_NONBLOCK v \<noteq> 0 \<Longrightarrow> setfl_error (re_file v) = None \<Longrightarrow> re_file v' = re_file v"
proof -
  obtain r file' where set: "set_fd_nonblocking (re_O_NONBLOCK v) (re_file v) = (r, file')"
    by fastforce
  show "re_busy v' = re_busy v"
    and "re_O_NONBLOCK v \<noteq> 0 \<Longrightarrow> setfl_error (re_file v) = None \<Longrightarrow> re_file v' = re_file v"
    using assms set_fd_nonblocking_cases [OF set] set
    by (auto simp: reader_run_def BusyGuard_enter_def BusyGuard_drop_def Let_def read_unix_fd_def
        split: if_splits sum.splits option.splits)
qed

lemma reader_run_done:
  assumes "reader_run cfg v s reads polls = Some (s', got, v')" "limits_ok cfg"
  shows "reader_done cfg s got s'"
proof -
  obtain b' s1 where "relays (OutputBuffer_new cfg) s got b' s1" "s' = close_ports b' s1"
    using relay_rule.run_rule [OF assms] .
  then show ?thesis
    using relays_done [of "OutputBuffer_new cfg" s got b' s1] by (simp add: OutputBuffer_new_def)
qed

text \<open>
  C10. The reader ends its stream exactly once. However the reader thread returns (end of file, read
  or poll error, refused post, stop request, an operation already active, an unusable master or
  reader, failure to switch the descriptor), it has posted only non-empty chunks within the batch
  limit and then, as its last output message, the one end-of-output marker. The delivered bytes are
  a prefix of the bytes it read, and if it was not stopped and no post was refused, they are all of
  them, also those read before an error. The busy flag is as before, and the descriptor's flags are
  restored.
\<close>

theorem reader_ends_once:
  assumes "reader_run cfg v s reads polls = Some (s', got, v')" "limits_ok cfg"
  shows "reader_done cfg s got s' \<and> re_busy v' = re_busy v
    \<and> (re_O_NONBLOCK v \<noteq> 0 \<and> setfl_error (re_file v) = None \<longrightarrow> re_file v' = re_file v)"
  using reader_run_done [OF assms] reader_run_restores [OF assms(1)] by blast

definition demo_reader :: reader_env where
  "demo_reader = \<lparr>re_busy = False, re_master = new_mutex (Some 3), re_reader = new_mutex (),
     re_file = \<lparr>status_flags = 2, getfl_error = None, setfl_error = None\<rparr>, re_O_NONBLOCK = 2048\<rparr>"

theorem reader_ends_once_witness:
  "\<exists>s' v'. reader_run demo_config demo_reader (demo_sys []) [RBytes [7], RErr (io_error_new Io_WouldBlock []),
       RBytes []] [PReady False] = Some (s', [7], v')
     \<and> reader_done demo_config (demo_sys []) [7] s' \<and> re_file v' = re_file demo_reader"
proof -
  let ?reads = "[RBytes [7], RErr (io_error_new Io_WouldBlock []), RBytes []]"
  obtain s' v' where run: "reader_run demo_config demo_reader (demo_sys []) ?reads [PReady False] = Some (s', [7], v')"
    by (simp add: reader_run_def demo_reader_def BusyGuard_enter_def read_context_for_inner_def
        read_unix_fd_def set_fd_nonblocking_def fcntl_setfl_def read_outer.simps read_inner.simps read_fd_def
        read_fd_once_def poll_readable_def flush_ok_def after_read_def output_eval)
  have "limits_ok demo_config"
    by (simp add: limits_ok_def batch_max_def demo_config_def)
  then show ?thesis
    using run reader_ends_once [OF run] by (auto simp: demo_reader_def)
qed

section \<open>Ending after a stop\<close>

text \<open>Replies after which a call is not repeated.\<close>

fun read_concludes :: "read_reply \<Rightarrow> bool" where
  "read_concludes (RBytes bs) = True"
| "read_concludes (RErr e) = (io_kind e \<noteq> Io_Interrupted)"

fun poll_concludes :: "poll_reply \<Rightarrow> bool" where
  "poll_concludes (PErr e) = (io_kind e \<noteq> Io_Interrupted)"
| "poll_concludes _ = True"

lemma retry_count:
  assumes "\<And>r. f r = None \<longleftrightarrow> \<not> P r" "n < length (filter P rs)"
  obtains a rest where "retry f rs = Some (a, rest)" "n \<le> length (filter P rest)"
proof -
  obtain a rest where run: "retry f rs = Some (a, rest)"
    using assms retry_None_iff [of f rs] by (cases "retry f rs") (auto simp: filter_empty_conv)
  then obtain skipped r where "rs = skipped @ r # rest" "filter P skipped = []" "P r"
    using assms(1) by (auto simp: retry_Some filter_empty_conv) (metis option.distinct(1))
  then have "length (filter P rs) = Suc (length (filter P rest))"
    by simp
  with run assms(2) that show thesis
    by simp
qed

lemma read_fd_returns:
  assumes "n < length (filter read_concludes reads)"
  obtains r reads' where "read_fd len reads = Some (r, reads')" "n \<le> length (filter read_concludes reads')"
proof -
  have "read_fd_once len r = None \<longleftrightarrow> \<not> read_concludes r" for r
    by (cases r) (auto simp: read_fd_once_def Let_def)
  from retry_count [OF this assms] that show thesis
    unfolding read_fd_def by metis
qed

lemma poll_readable_returns:
  assumes "n < length (filter poll_concludes polls)"
  obtains r polls' where "poll_readable polls = Some (r, polls')" "n \<le> length (filter poll_concludes polls')"
proof -
  have "poll_readable_once r = None \<longleftrightarrow> \<not> poll_concludes r" for r
    by (cases r) auto
  from retry_count [OF this assms] that show thesis
    unfolding poll_readable_def by metis
qed

lemma interfere_stops:
  assumes "stops_within n s"
  shows "stops_within (n - 1) (interfere cfg s)" "stop (interfere cfg s) \<or> 0 < n"
  using assms by (auto simp: stops_within_def will_stop_def interfere_def events_stop split: list.splits)

lemma flush_ok_returns: "stops_within n s \<Longrightarrow> flush_ok b s \<noteq> None"
  using flush_returns [of n s b] by (auto simp: flush_ok_def)

lemma flush_leave_error_returns: "stops_within n s \<Longrightarrow> flush_leave_error b e s \<noteq> None"
  using flush_returns [of n s b] by (auto simp: flush_leave_error_def flush_and_post_error_def)

lemma after_read_None [simp]: "after_read bs r = None \<longleftrightarrow> r = None"
  by (simp add: after_read_def)

lemma read_returns:
  "stops_within n s \<Longrightarrow> n \<le> length (filter read_concludes reads) \<Longrightarrow> n \<le> length (filter poll_concludes polls) \<Longrightarrow>
     read_outer b s reads polls \<noteq> None"
  "stops_within n s \<Longrightarrow> n < length (filter read_concludes reads) \<Longrightarrow> n < length (filter poll_concludes polls) \<Longrightarrow>
     read_inner b s reads polls \<noteq> None"
proof (induction b s reads polls and b s reads polls arbitrary: n and n rule: read_outer_read_inner.induct)
  case (1 b s reads polls)
  let ?s1 = "interfere (ob_config b) s"
  note moved = interfere_stops [OF 1(2), of "ob_config b"]
  show ?case
  proof (cases "stop ?s1")
    case True
    then show ?thesis
      using flush_ok_returns [OF moved(1), of b] by (simp add: read_outer.simps [of b] Let_def del: not_None_eq)
  next
    case False
    then have "n - 1 < length (filter read_concludes reads)" "n - 1 < length (filter poll_concludes polls)"
      using moved(2) 1(3,4) by simp_all
    from 1(1) [OF refl False moved(1) this] False show ?thesis
      by (simp add: read_outer.simps [of b] Let_def del: not_None_eq)
  qed
next
  case (2 b s reads polls)
  note step = read_inner.simps [of b s reads polls]
  obtain r reads' where rd: "read_fd (oc_read_buffer_size (ob_config b)) reads = Some (r, reads')"
    "n \<le> length (filter read_concludes reads')"
    using read_fd_returns [OF 2(6)] by metis
  obtain p polls' where pl: "poll_readable polls = Some (p, polls')" "n \<le> length (filter poll_concludes polls')"
    using poll_readable_returns [OF 2(7)] by metis
  obtain r3 b3 s3 where fl: "flush b s = Some (r3, b3, s3)" "stops_within n s3"
    using flush_returns [OF 2(5)] by metis
  consider (data) bs where "r = Inr (Data bs)" | (would_block) "r = Inr RR_WouldBlock" | (eof) "r = Inr Eof"
    | (failed) e where "r = Inl e"
    by (metis ReadResult.exhaust sum.exhaust)
  then show ?case
  proof cases
    case data
    obtain r1 b1 s1 where app: "append_output b bs s = Some (r1, b1, s1)" "stops_within n s1"
      using append_will_stop [OF 2(5)] by metis
    let ?s2 = "interfere (ob_config b1) s1"
    note moved = interfere_stops [OF app(2), of "ob_config b1"]
    have "read_outer b1 ?s2 reads' polls \<noteq> None" if "r1 = Inr u" "stop ?s2" for u
      using 2(1) [OF rd(1) refl data refl app(1) refl that(1) refl refl that(2) moved(1)] rd(2) 2(7) by simp
    moreover have "read_inner b1 ?s2 reads' polls \<noteq> None" if "r1 = Inr u" "\<not> stop ?s2" for u
      using 2(2) [OF rd(1) refl data refl app(1) refl that(1) refl refl that(2) moved(1)] rd(2) 2(7) moved(2) that(2)
      by simp
    ultimately show ?thesis
      using data rd(1) app(1) by (cases r1) (simp_all add: step leave_error_def Let_def del: not_None_eq)
  next
    case would_block
    have "read_outer b s reads' polls' \<noteq> None" if "p = Inr Ready"
      using 2(3) [OF rd(1) refl would_block refl pl(1) refl that refl 2(5) rd(2) pl(2)] .
    moreover have "read_outer b3 s3 reads' polls' \<noteq> None" if "p = Inr Timeout" "r3 = Inr u" for u
      using 2(4) [OF rd(1) refl would_block refl pl(1) refl that(1) refl fl(1) refl that(2) refl fl(2) rd(2) pl(2)] .
    ultimately have "(case p of Inl e \<Rightarrow> True | Inr Ready \<Rightarrow> read_outer b s reads' polls' \<noteq> None
        | Inr Timeout \<Rightarrow> (case r3 of Inl e \<Rightarrow> True | Inr u \<Rightarrow> read_outer b3 s3 reads' polls' \<noteq> None))"
      by (simp split: sum.split PollResult.split del: not_None_eq)
    then show ?thesis
      using would_block rd(1) pl(1) fl(1) flush_leave_error_returns [OF 2(5)]
      by (cases p rule: sum.exhaust; cases r3; cases "projr p")
        (simp_all add: step leave_error_def del: not_None_eq)
  qed (use rd(1) flush_ok_returns [OF 2(5)] flush_leave_error_returns [OF 2(5)] in
      \<open>simp_all add: step del: not_None_eq\<close>)
qed

lemma blocking_returns:
  "stops_within n s \<Longrightarrow> n \<le> length (filter read_concludes reads) \<Longrightarrow> blocking_loop b s reads \<noteq> None"
proof (induction b s reads arbitrary: n rule: blocking_loop.induct)
  case (1 b s)
  then have "stop (interfere (ob_config b) s)"
    using interfere_stops [OF 1(1), of "ob_config b"] by simp
  then show ?case
    using flush_ok_returns [OF interfere_stops(1) [OF 1(1)], of b "ob_config b"]
    by (simp add: Let_def del: not_None_eq)
next
  case (2 b s r reads)
  let ?s1 = "interfere (ob_config b) s"
  note moved = interfere_stops [OF 2(4), of "ob_config b"]
  show ?case
  proof (cases "stop ?s1")
    case True
    then show ?thesis
      using flush_ok_returns [OF moved(1), of b] by (simp add: Let_def del: not_None_eq)
  next
    case run: False
    show ?thesis
    proof (cases r)
      case (RErr e)
      have "blocking_loop b ?s1 reads \<noteq> None" if "io_kind e = Io_Interrupted"
        using 2(3) [OF refl run RErr that moved(1)] 2(5) RErr that by simp
      then show ?thesis
        using run RErr flush_ok_returns [OF moved(1), of b] flush_leave_error_returns [OF moved(1), of b]
        by (simp add: Let_def del: not_None_eq)
    next
      case (RBytes raw)
      let ?bs = "take (unat (oc_read_buffer_size (ob_config b))) raw"
      obtain r1 b1 s2 where app: "append_output b ?bs ?s1 = Some (r1, b1, s2)" "stops_within (n - 1) s2"
        using append_will_stop [OF moved(1)] by metis
      let ?s3 = "interfere (ob_config b1) s2"
      have s3: "stops_within (n - 1) ?s3"
        using interfere_will_stop [OF app(2)] .
      obtain r4 b4 s4 where fl: "flush b1 ?s3 = Some (r4, b4, s4)" "stops_within (n - 1) s4"
        using flush_returns [OF s3] by metis
      have count: "n - 1 \<le> length (filter read_concludes reads)"
        using 2(5) RBytes by simp
      have "blocking_loop b4 s4 reads \<noteq> None"
        if "?bs \<noteq> []" "r1 = Inr u" "should_flush_for_delay b1 (now ?s3)" "r4 = Inr v" for u v
        using 2(1) [OF refl run RBytes refl that(1) app(1) refl that(2) refl refl that(3) fl(1) refl that(4) refl
            fl(2) count] .
      moreover have "blocking_loop b1 ?s3 reads \<noteq> None"
        if "?bs \<noteq> []" "r1 = Inr u" "\<not> should_flush_for_delay b1 (now ?s3)" for u
        using 2(2) [OF refl run RBytes refl that(1) app(1) refl that(2) refl refl that(3) s3 count] .
      ultimately show ?thesis
        using run RBytes app(1) fl(1) flush_ok_returns [OF moved(1), of b]
        by (cases r1; cases r4) (simp_all add: Let_def leave_error_def del: not_None_eq)
    qed
  qed
qed

lemma reader_run_returns:
  assumes "stops_within n s"
    and "n \<le> length (filter read_concludes reads)" "n \<le> length (filter poll_concludes polls)"
  shows "\<exists>s' got v'. reader_run cfg v s reads polls = Some (s', got, v')"
proof -
  have "read_outer (OutputBuffer_new cfg) s reads polls \<noteq> None" "blocking_loop (OutputBuffer_new cfg) s reads \<noteq> None"
    using read_returns(1) [OF assms] blocking_returns [OF assms(1,2)] by blast+
  then show ?thesis
    by (auto simp: reader_run_def Let_def read_unix_fd_def read_blocking_def BusyGuard_enter_def
        split: prod.split sum.split option.split)
qed

text \<open>
  C16. After a stop the reader thread returns. Suppose the stop flag is set at some moment, at most
  \<open>n\<close> actions of the other threads from now. Wherever the thread is by then, in its loops or waiting
  for room in the in-flight counter, and whatever the receiver and the operating system do: it has
  returned by the time the system has answered \<open>n\<close> reads and \<open>n\<close> polls, not counting interrupted
  ones, and without any when the flag is set already.
\<close>

theorem reader_returns_after_stop:
  assumes "stops_within n s"
    and "n \<le> length (filter read_concludes reads)" "n \<le> length (filter poll_concludes polls)"
  shows "\<exists>s' got v'. reader_run cfg v s reads polls = Some (s', got, v')"
  by (rule reader_run_returns [OF assms])

text \<open>The stop comes while the thread waits for acknowledgements after one read.\<close>

theorem reader_returns_after_stop_witness:
  "\<exists>s' got v'. reader_run demo_config demo_reader (demo_sys [[], [Elapse 3], [Stop_request]])
      [RBytes [7, 8, 9], RErr (io_error_new Io_Interrupted []), RBytes [1, 2, 3, 4], RBytes [5]]
      [PTimeout, PReady False, PTimeout] = Some (s', got, v')"
  by (rule reader_returns_after_stop [of 3]) (simp_all add: stops_within_def will_stop_def demo_sys_def)

text \<open>
  A stop is prompt. A reader thread that finds the stop flag set returns whatever the operating
  system and the receiver do: it reads nothing more, waits for nothing, and still ends its stream.
\<close>

theorem reader_stops:
  assumes "stop s"
  shows "\<exists>s' v'. reader_run cfg v s reads polls = Some (s', [], v')"
proof -
  let ?b = "OutputBuffer_new cfg"
  have stopped: "stop (interfere cfg s)"
    using assms others_interfere [of s cfg] by (simp add: others_def)
  then have "stops_within (length (env (interfere cfg s))) (interfere cfg s)"
    by (simp add: stops_within_def will_stop_def)
  then obtain b' s1 where fl: "flush_ok ?b (interfere cfg s) = Some (b', s1, [])"
    using flush_returns [of "length (env (interfere cfg s))" "interfere cfg s" ?b] by (fastforce simp: flush_ok_def)
  have cfg: "ob_config ?b = cfg"
    by (simp add: OutputBuffer_new_def)
  have "read_outer ?b s reads polls = Some (b', s1, [])"
    using stopped fl cfg by (simp add: read_outer.simps [of ?b] Let_def)
  moreover have "blocking_loop ?b s reads = Some (b', s1, [])"
    using stopped fl cfg by (cases reads) (simp_all add: Let_def)
  ultimately show ?thesis
    by (auto simp: reader_run_def BusyGuard_enter_def Let_def read_unix_fd_def read_blocking_def
        split: prod.split sum.split option.split)
qed

theorem reader_stops_witness:
  "\<exists>s' v'. reader_run demo_config demo_reader (demo_sys []\<lparr>stop := True\<rparr>) [] [] = Some (s', [], v')"
  by (rule reader_stops) (simp add: demo_sys_def)

end
