(* ===== verification/Interfaces.thy ===== *)
theory Interfaces
  imports Prelude
begin

text \<open>
  The interfaces between components, as locales: what a client calls is fixed, what it relies on
  is assumed, and the client's lemmas are proved once from the assumptions. Every locale here is
  interpreted on the model's own definitions in the theory of the component that provides it.
\<close>

section \<open>Queues of chunks\<close>

text \<open>
  A schedule of queue operations: pushes by any client, pops by the consumer. \<open>queue_exec\<close>
  runs one and collects the chunks accepted and the chunks popped, in order.
\<close>

datatype 'a queue_op = Push "'a list" | Pop

fun queue_exec ::
    "('q \<Rightarrow> 'a list \<Rightarrow> ('e + unit) \<times> 'q) \<Rightarrow> ('q \<Rightarrow> ('f + 'a list option) option \<times> 'q)
     \<Rightarrow> 'q \<Rightarrow> 'a queue_op list \<Rightarrow> 'a list list \<times> 'a list list \<times> 'q" where
  "queue_exec push pop q [] = ([], [], q)"
| "queue_exec push pop q (Push x # ops) =
     (case push q x of (r, q1) \<Rightarrow>
        (case queue_exec push pop q1 ops of (acc, out, q2) \<Rightarrow>
           (if is_ok r then x # acc else acc, out, q2)))"
| "queue_exec push pop q (Pop # ops) =
     (case pop q of (r, q1) \<Rightarrow>
        (case queue_exec push pop q1 ops of (acc, out, q2) \<Rightarrow>
           (acc, (case r of Some (Inr (Some x)) \<Rightarrow> x # out | _ \<Rightarrow> out), q2)))"

fun pushes_fit :: "('a list \<Rightarrow> bool) \<Rightarrow> 'a queue_op list \<Rightarrow> bool" where
  "pushes_fit fits [] = True"
| "pushes_fit fits (Push x # ops) = (fits x \<and> pushes_fit fits ops)"
| "pushes_fit fits (Pop # ops) = pushes_fit fits ops"

locale fifo_queue =
  fixes push :: "'q \<Rightarrow> 'a list \<Rightarrow> ('e + unit) \<times> 'q"
    and pop :: "'q \<Rightarrow> ('f + 'a list option) option \<times> 'q"
    and content :: "'q \<Rightarrow> 'a list list"
    and inv :: "'q \<Rightarrow> bool"
    and fits :: "'a list \<Rightarrow> bool"
  assumes push_inv: "inv q \<Longrightarrow> fits x \<Longrightarrow> push q x = (r, q') \<Longrightarrow> inv q'"
    and push_ok: "inv q \<Longrightarrow> fits x \<Longrightarrow> push q x = (Inr u, q') \<Longrightarrow>
      content q' = content q @ (if x = [] then [] else [x])"
    and push_err: "inv q \<Longrightarrow> fits x \<Longrightarrow> push q x = (Inl e, q') \<Longrightarrow> content q' = content q"
    and pop_inv: "inv q \<Longrightarrow> pop q = (s, q') \<Longrightarrow> inv q'"
    and pop_some: "inv q \<Longrightarrow> pop q = (Some (Inr (Some x)), q') \<Longrightarrow> content q = x # content q'"
    and pop_other: "inv q \<Longrightarrow> pop q = (s, q') \<Longrightarrow> (\<nexists>x. s = Some (Inr (Some x))) \<Longrightarrow>
      content q' = content q"
begin

lemma exec_inv:
  "inv q \<Longrightarrow> pushes_fit fits ops \<Longrightarrow> queue_exec push pop q ops = (acc, out, q') \<Longrightarrow> inv q'"
proof (induction ops arbitrary: q acc out)
  case Nil
  then show ?case by simp
next
  case (Cons p ops)
  then show ?case
    by (cases p) (auto split: prod.splits dest: push_inv pop_inv)
qed

text \<open>Everything accepted comes out in order, or is still in the queue.\<close>

lemma exec_fifo:
  "inv q \<Longrightarrow> pushes_fit fits ops \<Longrightarrow> queue_exec push pop q ops = (acc, out, q') \<Longrightarrow>
   content q @ filter (\<lambda>x. x \<noteq> []) acc = out @ content q'"
proof (induction ops arbitrary: q acc out)
  case Nil
  then show ?case by simp
next
  case (Cons p ops)
  show ?case
  proof (cases p)
    case (Push x)
    obtain r q1 where push: "push q x = (r, q1)" by fastforce
    obtain acc1 out1 where rest: "queue_exec push pop q1 ops = (acc1, out1, q')"
      using Cons.prems(3) Push push by (auto split: prod.splits)
    have out: "out = out1" and acc: "acc = (if is_ok r then x # acc1 else acc1)"
      using Cons.prems(3) Push push rest by auto
    have IH: "content q1 @ filter (\<lambda>x. x \<noteq> []) acc1 = out1 @ content q'"
      using Cons.IH [OF _ _ rest] push_inv [OF Cons.prems(1) _ push] Cons.prems(2) Push by simp
    have "content q1 = content q @ (if is_ok r \<and> x \<noteq> [] then [x] else [])"
      using push Cons.prems(1,2) Push push_ok [of q x _ q1] push_err [of q x _ q1]
      by (cases r) auto
    then show ?thesis using IH acc out by auto
  next
    case Pop
    obtain r q1 where pop: "pop q = (r, q1)" by fastforce
    obtain acc1 out1 where rest: "queue_exec push pop q1 ops = (acc1, out1, q')"
      using Cons.prems(3) Pop pop by (auto split: prod.splits)
    have IH: "content q1 @ filter (\<lambda>x. x \<noteq> []) acc1 = out1 @ content q'"
      using Cons.IH [OF _ _ rest] pop_inv [OF Cons.prems(1) pop] Cons.prems(2) Pop by simp
    have acc: "acc = acc1" and out: "out = (case r of Some (Inr (Some x)) \<Rightarrow> x # out1 | _ \<Rightarrow> out1)"
      using Cons.prems(3) Pop pop rest by auto
    show ?thesis
    proof (cases "\<exists>x. r = Some (Inr (Some x))")
      case True
      then obtain x where r: "r = Some (Inr (Some x))" by blast
      then show ?thesis using IH acc out pop_some [OF Cons.prems(1) pop [unfolded r]] by simp
    next
      case False
      then have "out = out1"
        using out by (auto split: option.splits sum.splits)
      then show ?thesis using IH acc pop_other [OF Cons.prems(1) pop] False by simp
    qed
  qed
qed

end

text \<open>A queue with a byte limit that refuses a push exactly when it would exceed the limit.\<close>

locale bounded_queue = fifo_queue +
  fixes limit :: "'q \<Rightarrow> nat"
    and accepting :: "'q \<Rightarrow> bool"
  assumes within_limit: "inv q \<Longrightarrow> sum_list (map length (content q)) \<le> limit q"
    and push_accepts: "inv q \<Longrightarrow> accepting q \<Longrightarrow> fits x \<Longrightarrow> x \<noteq> [] \<Longrightarrow>
      is_ok (fst (push q x)) \<longleftrightarrow> sum_list (map length (content q)) + length x \<le> limit q"
    and limit_push: "push q x = (r, q') \<Longrightarrow> limit q' = limit q"
    and limit_pop: "pop q = (s, q') \<Longrightarrow> limit q' = limit q"
begin

lemma exec_limit: "queue_exec push pop q ops = (acc, out, q') \<Longrightarrow> limit q' = limit q"
proof (induction ops arbitrary: q acc out)
  case Nil
  then show ?case by simp
next
  case (Cons op' ops)
  then show ?case
    by (cases op') (auto split: prod.splits simp: limit_push limit_pop dest!: Cons.IH)
qed

text \<open>However clients and consumer interleave, the backlog stays within the limit.\<close>

lemma backlog_bounded:
  assumes "inv q" "pushes_fit fits ops" "queue_exec push pop q ops = (acc, out, q')"
  shows "sum_list (map length (content q')) \<le> limit q"
  using within_limit [OF exec_inv [OF assms]] exec_limit [OF assms(3)] by simp

text \<open>A refused push of an accepting queue means it is really full.\<close>

lemma refused_full:
  "inv q \<Longrightarrow> accepting q \<Longrightarrow> fits x \<Longrightarrow> push q x = (Inl e, q') \<Longrightarrow> x \<noteq> [] \<Longrightarrow>
   limit q < sum_list (map length (content q)) + length x"
  using push_accepts [of q x] by (auto simp: not_le [symmetric])

end

section \<open>Ordered maps\<close>

text \<open>What the code uses of an ordered map: inserting, and iterating over the entries in key order.\<close>

locale ordered_map =
  fixes insert_entry :: "'k::linorder \<Rightarrow> 'v \<Rightarrow> 'm \<Rightarrow> 'm"
    and entries :: "'m \<Rightarrow> ('k \<times> 'v) list"
    and valid :: "'m \<Rightarrow> bool"
  assumes valid_insert: "valid m \<Longrightarrow> valid (insert_entry k v m)"
    and lookup_insert: "valid m \<Longrightarrow> map_of (entries (insert_entry k v m)) = (map_of (entries m))(k \<mapsto> v)"
    and keys_ascend: "valid m \<Longrightarrow> sorted_wrt (<) (map fst (entries m))"
begin

text \<open>After inserting many entries, the last one for a key wins.\<close>

lemma inserts_lookup:
  "valid m \<Longrightarrow> valid (fold (\<lambda>(k, v). insert_entry k v) kvs m)
     \<and> map_of (entries (fold (\<lambda>(k, v). insert_entry k v) kvs m)) = map_of (entries m) ++ map_of (rev kvs)"
proof (induction kvs arbitrary: m)
  case (Cons kv kvs)
  obtain k v where kv: "kv = (k, v)" by fastforce
  have "valid (insert_entry k v m)" "map_of (entries (insert_entry k v m)) = map_of (entries m) ++ [k \<mapsto> v]"
    using Cons.prems by (simp_all add: valid_insert lookup_insert)
  then show ?case
    using Cons.IH [of "insert_entry k v m"] by (simp add: kv fun_upd_def)
qed simp

end

section \<open>Messages over a byte stream\<close>

text \<open>Fixed-size messages as bytes.\<close>

locale byte_codec =
  fixes encode :: "'m \<Rightarrow> u8 list"
    and decode :: "u8 list \<Rightarrow> 'm"
    and message_size :: nat
  assumes decode_encode: "decode (encode m) = m"
    and length_encode: "length (encode m) = message_size"
begin

lemma encode_inj: "encode a = encode b \<Longrightarrow> a = b"
  by (metis decode_encode)

lemma first_message:
  "decode (take message_size (encode m @ rest)) = m" "drop message_size (encode m @ rest) = rest"
  by (simp_all add: decode_encode flip: length_encode [of m])

end

text \<open>
  A stream from which an exact number of bytes can be read, in however many pieces they arrive.
  \<open>calm\<close> says that only disturbances occur that reading gets over.
\<close>

locale byte_stream =
  fixes read_exact :: "nat \<Rightarrow> 'r \<Rightarrow> (('e + u8 list) \<times> 'r) option"
    and content :: "'r \<Rightarrow> u8 list"
    and calm :: "'r \<Rightarrow> bool"
  assumes read_calm: "calm r \<Longrightarrow> n \<le> length (content r) \<Longrightarrow>
    \<exists>r'. read_exact n r = Some (Inr (take n (content r)), r') \<and> content r' = drop n (content r) \<and> calm r'"

text \<open>\<open>receive\<close> reads \<open>n\<close> messages one after the other.\<close>

fun receive :: "('r \<Rightarrow> (('e + u8 list) \<times> 'r) option) \<Rightarrow> (u8 list \<Rightarrow> 'm) \<Rightarrow> nat \<Rightarrow> 'r \<Rightarrow> 'm list \<times> 'r" where
  "receive read_one decode 0 r = ([], r)"
| "receive read_one decode (Suc n) r =
     (case read_one r of
        Some (Inr bytes, r') \<Rightarrow>
          (case receive read_one decode n r' of (ms, r'') \<Rightarrow> (decode bytes # ms, r''))
      | _ \<Rightarrow> ([], r))"

locale message_stream = byte_stream + byte_codec
begin

lemma receive_one:
  assumes "calm r" "content r = encode m @ rest"
  obtains r' where "read_exact message_size r = Some (Inr (encode m), r')" "content r' = rest" "calm r'"
  using read_calm [OF assms(1), of message_size] assms(2) by (force simp flip: length_encode [of m])

text \<open>What was written as messages is received as those messages.\<close>

lemma receive_all:
  assumes "calm r" "content r = concat (map encode ms) @ rest"
  shows "\<exists>r'. receive (read_exact message_size) decode (length ms) r = (ms, r') \<and> content r' = rest \<and> calm r'"
  using assms
proof (induction ms arbitrary: r)
  case (Cons m ms)
  from Cons.prems obtain r1 where "read_exact message_size r = Some (Inr (encode m), r1)"
    "content r1 = concat (map encode ms) @ rest" "calm r1"
    by (auto intro: receive_one [of r m "concat (map encode ms) @ rest"])
  then show ?case
    using Cons.IH [of r1] by (auto simp: decode_encode)
qed simp

end

section \<open>Write-once cells\<close>

text \<open>A cell that keeps the first value put into it, however many producers race for it.\<close>

locale write_once =
  fixes put :: "'v \<Rightarrow> 's \<Rightarrow> 's"
    and get :: "'s \<Rightarrow> 'v option"
    and usable :: "'s \<Rightarrow> bool"
  assumes put_usable: "usable s \<Longrightarrow> usable (put v s)"
    and put_first: "usable s \<Longrightarrow> get s = None \<Longrightarrow> get (put v s) = Some v"
    and put_later: "usable s \<Longrightarrow> get s = Some w \<Longrightarrow> get (put v s) = Some w"
begin

lemma puts_keep: "usable s \<Longrightarrow> get s = Some w \<Longrightarrow> usable (fold put vs s) \<and> get (fold put vs s) = Some w"
  by (induction vs arbitrary: s) (simp_all add: put_usable put_later)

lemma first_put_wins:
  "usable s \<Longrightarrow> get s = None \<Longrightarrow>
     usable (fold put vs s) \<and> get (fold put vs s) = (case vs of [] \<Rightarrow> None | v # _ \<Rightarrow> Some v)"
  by (cases vs) (simp_all add: put_usable put_first puts_keep)

end

section \<open>Simulations\<close>

text \<open>
  A composed system whose every event is matched by finitely many events of a simpler one. What is
  proved of the simpler system's runs then holds in the composed system.
\<close>

locale forward_simulation =
  fixes step :: "'s \<Rightarrow> 'e \<Rightarrow> 's"
    and simple_step :: "'a \<Rightarrow> 'f \<Rightarrow> 'a"
    and abstraction :: "'s \<Rightarrow> 'a"
    and valid :: "'s \<Rightarrow> bool"
    and enabled :: "'e \<Rightarrow> bool"
    and simple_enabled :: "'f \<Rightarrow> bool"
  assumes valid_step: "valid s \<Longrightarrow> enabled e \<Longrightarrow> valid (step s e)"
    and step_simulated: "valid s \<Longrightarrow> enabled e \<Longrightarrow>
      \<exists>fs. list_all simple_enabled fs \<and> abstraction (step s e) = foldl simple_step (abstraction s) fs"
begin

lemma run_simulated:
  "valid s \<Longrightarrow> list_all enabled es \<Longrightarrow>
     valid (foldl step s es)
     \<and> (\<exists>fs. list_all simple_enabled fs \<and> abstraction (foldl step s es) = foldl simple_step (abstraction s) fs)"
proof (induction es arbitrary: s)
  case Nil
  then show ?case
    by (auto intro: exI [of _ "[]"])
next
  case (Cons e es)
  obtain fs where fs: "list_all simple_enabled fs" "abstraction (step s e) = foldl simple_step (abstraction s) fs"
    using step_simulated Cons.prems by force
  obtain gs where "list_all simple_enabled gs" "valid (foldl step (step s e) es)"
    "abstraction (foldl step (step s e) es) = foldl simple_step (abstraction (step s e)) gs"
    using Cons.IH [OF valid_step] Cons.prems by force
  with fs show ?case
    by (auto intro!: exI [of _ "fs @ gs"])
qed

end

end
