(* ===== verification/Pipes.thy ===== *)
theory Pipes
  imports Errors Interfaces
begin

text \<open>
  The pipes of the Linux child supervisor (\<open>native/src/process_linux.rs\<close>): the raw read and write
  loops, and the messages sent over them. The two ends of a pipe are modelled apart. A write end is
  the bytes it has sent; a read end is the bytes still to come, whether a writer still holds the
  pipe open, and a script of disturbances. Each call takes the next entry of its script:
  \<open>At_most n\<close> transfers at most \<open>n\<close> bytes (a write none at all when \<open>n\<close> is 0), \<open>Fails e\<close> fails
  with that \<open>errno\<close>. When the script is used up, calls are undisturbed. \<open>None\<close> means that a read
  blocks for good.
\<close>

section \<open>System calls\<close>

definition EINTR :: i32 where "EINTR = 4"
definition EAGAIN :: i32 where "EAGAIN = 11"
definition EPERM :: i32 where "EPERM = 1"
definition EACCES :: i32 where "EACCES = 13"
definition EPIPE :: i32 where "EPIPE = 32"

text \<open>
  \<open>io::Error::from_raw_os_error\<close> and \<open>last_os_error\<close>: the message of the error number is the C
  library's, a parameter.
\<close>

definition errno_kind :: "i32 \<Rightarrow> IoErrorKind" where
  "errno_kind e =
    (if e = EINTR then Io_Interrupted else if e = EAGAIN then Io_WouldBlock
     else if e = EPIPE then Io_BrokenPipe else if e \<in> {EPERM, EACCES} then Io_PermissionDenied
     else Io_Other)"

definition show_i32 :: "i32 \<Rightarrow> string" where
  "show_i32 e = (if sint e < 0 then ''-'' @ show_nat (nat (- sint e)) else show_nat (nat (sint e)))"

definition from_raw_os_error :: "(i32 \<Rightarrow> string) \<Rightarrow> i32 \<Rightarrow> io_error" where
  "from_raw_os_error strerror e =
     \<lparr>io_kind = errno_kind e, raw_os_error = Some e,
      io_text = strerror e @ '' (os error '' @ show_i32 e @ '')''\<rparr>"

datatype io_step = At_most nat | Fails i32

record read_end =
  p_bytes :: "u8 list"
  p_open :: bool
  p_script :: "io_step list"

text \<open>\<open>read\<close> on a pipe: an error number, no bytes at end of file, or at least one byte.\<close>

definition pipe_read :: "nat \<Rightarrow> read_end \<Rightarrow> ((i32 + u8 list) \<times> read_end) option" where
  "pipe_read want p =
    (let p' = p\<lparr>p_script := tl (p_script p)\<rparr>;
         give = (\<lambda>n. if p_bytes p = [] then if p_open p then None else Some (Inr [], p')
                      else Some (Inr (take n (p_bytes p)), p'\<lparr>p_bytes := drop n (p_bytes p)\<rparr>)) in
     case p_script p of
       [] \<Rightarrow> give want
     | At_most n # _ \<Rightarrow> give (min want (max 1 n))
     | Fails e # _ \<Rightarrow> Some (Inl e, p'))"

record write_end =
  w_sent :: "u8 list"
  w_script :: "io_step list"

section \<open>Messages on the wire\<close>

definition MONITOR_PID :: u8 where "MONITOR_PID = 1"
definition MONITOR_EXIT :: u8 where "MONITOR_EXIT = 2"
definition MONITOR_EXEC_ERROR :: u8 where "MONITOR_EXEC_ERROR = 3"

record MonitorMessage =
  mm_tag :: u8
  mm_value :: i32

text \<open>\<open>i32::to_ne_bytes\<close> and \<open>from_ne_bytes\<close>, on a little or a big endian machine.\<close>

definition to_ne_bytes :: "bool \<Rightarrow> i32 \<Rightarrow> u8 list" where
  "to_ne_bytes little v =
    (let le = [ucast v, ucast (drop_bit 8 v), ucast (drop_bit 16 v), ucast (drop_bit 24 v)] in
     if little then le else rev le)"

definition from_ne_bytes :: "bool \<Rightarrow> u8 list \<Rightarrow> i32" where
  "from_ne_bytes little bytes =
    (let le = (if little then bytes else rev bytes) in
     ucast (le ! 0) OR push_bit 8 (ucast (le ! 1)) OR push_bit 16 (ucast (le ! 2))
       OR push_bit 24 (ucast (le ! 3)))"

lemma length_to_ne_bytes [simp]: "length (to_ne_bytes little v) = 4"
  by (simp add: to_ne_bytes_def Let_def)

lemma ne_bytes_join:
  "ucast (ucast v :: u8) OR push_bit 8 (ucast (ucast (drop_bit 8 v) :: u8))
     OR push_bit 16 (ucast (ucast (drop_bit 16 v) :: u8)) OR push_bit 24 (ucast (ucast (drop_bit 24 v) :: u8)) = v"
  for v :: i32
proof (rule bit_word_eqI)
  fix n
  assume "n < LENGTH(32)"
  then show "bit (ucast (ucast v :: u8) OR push_bit 8 (ucast (ucast (drop_bit 8 v) :: u8))
      OR push_bit 16 (ucast (ucast (drop_bit 16 v) :: u8)) OR push_bit 24 (ucast (ucast (drop_bit 24 v) :: u8)) :: i32) n
    = bit v n"
    by (cases "n < 8"; cases "n < 16"; cases "n < 24") (auto simp: bit_simps)
qed

lemma from_to_ne_bytes [simp]: "from_ne_bytes little (to_ne_bytes little v) = v"
  by (simp add: from_ne_bytes_def to_ne_bytes_def Let_def ne_bytes_join)

definition message_bytes :: "bool \<Rightarrow> MonitorMessage \<Rightarrow> u8 list" where
  "message_bytes little msg = [mm_tag msg, 0, 0, 0] @ to_ne_bytes little (mm_value msg)"

definition message_of :: "bool \<Rightarrow> u8 list \<Rightarrow> MonitorMessage" where
  "message_of little buffer =
     \<lparr>mm_tag = buffer ! 0, mm_value = from_ne_bytes little (take 4 (drop 4 buffer))\<rparr>"

lemma length_message_bytes [simp]: "length (message_bytes little msg) = 8"
  by (simp add: message_bytes_def)

lemma message_of_bytes [simp]: "message_of little (message_bytes little msg) = msg"
  by (simp add: message_of_def message_bytes_def)

section \<open>Reading and writing through disturbances\<close>

definition UnexpectedEof_error :: io_error where
  "UnexpectedEof_error = io_error_new Io_UnexpectedEof ''unexpected end of file''"

lemma pipe_read_progress:
  "pipe_read want p = Some (Inl e, p') \<Longrightarrow> length (p_script p') < length (p_script p)"
  "pipe_read want p = Some (Inr bytes, p') \<Longrightarrow> length (p_script p') \<le> length (p_script p)
     \<and> length bytes \<le> want \<and> p_bytes p = bytes @ p_bytes p'
     \<and> (bytes = [] \<longrightarrow> 0 < want \<longrightarrow> p_bytes p = [] \<and> \<not> p_open p)"
  by (auto simp: pipe_read_def Let_def split: list.splits io_step.splits if_splits)

function read_exact_loop ::
    "(i32 \<Rightarrow> string) \<Rightarrow> nat \<Rightarrow> u8 list \<Rightarrow> read_end \<Rightarrow> ((io_error + u8 list) \<times> read_end) option" where
  "read_exact_loop strerror buffer_len got p =
    (if buffer_len \<le> length got then Some (Inr got, p)
     else case pipe_read (buffer_len - length got) p of
       None \<Rightarrow> None
     | Some (Inl e, p') \<Rightarrow>
         if e = EINTR then read_exact_loop strerror buffer_len got p'
         else Some (Inl (from_raw_os_error strerror e), p')
     | Some (Inr bytes, p') \<Rightarrow>
         if bytes = [] then Some (Inl UnexpectedEof_error, p')
         else read_exact_loop strerror buffer_len (got @ bytes) p')"
  by pat_completeness auto
termination
  by (relation "measure (\<lambda>(_, n, got, p). (n - length got) + length (p_script p))")
    (auto dest!: pipe_read_progress simp flip: length_greater_0_conv)

declare read_exact_loop.simps [simp del]

lemma read_exact_done [simp]:
  "buffer_len \<le> length got \<Longrightarrow> read_exact_loop strerror buffer_len got p = Some (Inr got, p)"
  by (simp add: read_exact_loop.simps)

definition read_exact_fd :: "(i32 \<Rightarrow> string) \<Rightarrow> nat \<Rightarrow> read_end \<Rightarrow> ((io_error + u8 list) \<times> read_end) option" where
  "read_exact_fd strerror buffer_len p = read_exact_loop strerror buffer_len [] p"

definition read_message ::
    "bool \<Rightarrow> (i32 \<Rightarrow> string) \<Rightarrow> PtyxErrorKind \<Rightarrow> read_end \<Rightarrow> ((PtyxError + MonitorMessage) \<times> read_end) option" where
  "read_message little strerror kind p =
    (case read_exact_fd strerror 8 p of
       None \<Rightarrow> None
     | Some (Inl error, p') \<Rightarrow> Some (Inl (PtyxError_io kind error), p')
     | Some (Inr buffer, p') \<Rightarrow> Some (Inr (message_of little buffer), p'))"

text \<open>
  The result, \<open>errno\<close> and \<open>*out\<close> afterwards. \<open>errno\<close> is only written by a call that fails.
\<close>

function read_i32_loop ::
    "bool \<Rightarrow> i32 \<Rightarrow> i32 \<Rightarrow> u8 list \<Rightarrow> read_end \<Rightarrow> ((i32 \<times> i32 \<times> i32) \<times> read_end) option" where
  "read_i32_loop little errno out got p =
    (if 4 \<le> length got then Some ((1, errno, from_ne_bytes little got), p)
     else case pipe_read (4 - length got) p of
       None \<Rightarrow> None
     | Some (Inl e, p') \<Rightarrow>
         if e = EINTR then read_i32_loop little e out got p' else Some ((- 1, e, out), p')
     | Some (Inr bytes, p') \<Rightarrow>
         if bytes = [] then Some ((if got = [] then 0 else - 1, errno, out), p')
         else read_i32_loop little errno out (got @ bytes) p')"
  by pat_completeness auto
termination
  by (relation "measure (\<lambda>(_, _, _, got, p). (4 - length got) + length (p_script p))")
    (auto dest!: pipe_read_progress simp flip: length_greater_0_conv)

declare read_i32_loop.simps [simp del]

lemma read_i32_done [simp]:
  "4 \<le> length got \<Longrightarrow> read_i32_loop little errno out got p = Some ((1, errno, from_ne_bytes little got), p)"
  by (simp add: read_i32_loop.simps)

definition read_i32_or_eof_raw ::
    "bool \<Rightarrow> i32 \<Rightarrow> i32 \<Rightarrow> read_end \<Rightarrow> ((i32 \<times> i32 \<times> i32) \<times> read_end) option" where
  "read_i32_or_eof_raw little errno out p = read_i32_loop little errno out [] p"

fun write_all_loop :: "u8 list \<Rightarrow> u8 list \<Rightarrow> io_step list \<Rightarrow> bool \<times> write_end" where
  "write_all_loop bytes sent [] = (True, \<lparr>w_sent = sent @ bytes, w_script = []\<rparr>)"
| "write_all_loop bytes sent (step # script) =
     (if bytes = [] then (True, \<lparr>w_sent = sent, w_script = step # script\<rparr>)
      else case step of
        At_most n \<Rightarrow> write_all_loop (drop n bytes) (sent @ take n bytes) script
      | Fails e \<Rightarrow>
          if e = EINTR then write_all_loop bytes sent script
          else (False, \<lparr>w_sent = sent, w_script = script\<rparr>))"

definition write_all_raw :: "u8 list \<Rightarrow> write_end \<Rightarrow> bool \<times> write_end" where
  "write_all_raw bytes w = write_all_loop bytes (w_sent w) (w_script w)"

definition write_message_raw :: "bool \<Rightarrow> u8 \<Rightarrow> i32 \<Rightarrow> write_end \<Rightarrow> bool \<times> write_end" where
  "write_message_raw little tag value w =
     write_all_raw (message_bytes little \<lparr>mm_tag = tag, mm_value = value\<rparr>) w"

definition write_i32_raw :: "bool \<Rightarrow> i32 \<Rightarrow> write_end \<Rightarrow> bool \<times> write_end" where
  "write_i32_raw little value w = write_all_raw (to_ne_bytes little value) w"

text \<open>Scripts whose only failures are interruptions.\<close>

fun step_calm :: "io_step \<Rightarrow> bool" where
  "step_calm (At_most n) = True"
| "step_calm (Fails e) = (e = EINTR)"

definition calm :: "read_end \<Rightarrow> bool" where
  "calm p \<longleftrightarrow> list_all step_calm (p_script p)"

lemma write_all_calm:
  "list_all step_calm script \<Longrightarrow>
     \<exists>script'. write_all_loop bytes sent script = (True, \<lparr>w_sent = sent @ bytes, w_script = script'\<rparr>)
       \<and> list_all step_calm script'"
proof (induction bytes sent script rule: write_all_loop.induct)
  case (2 bytes sent step script)
  then show ?case
    by (cases step) auto
qed simp

text \<open>Whatever happens, what was sent is a prefix of the message.\<close>

lemma write_all_prefix:
  "\<exists>ys. prefix ys bytes \<and> w_sent (snd (write_all_raw bytes w)) = w_sent w @ ys
     \<and> (fst (write_all_raw bytes w) \<longrightarrow> ys = bytes)"
proof -
  have "\<exists>ys. prefix ys bytes \<and> w_sent (snd (write_all_loop bytes sent script)) = sent @ ys
     \<and> (fst (write_all_loop bytes sent script) \<longrightarrow> ys = bytes)" for sent script
  proof (induction bytes sent script rule: write_all_loop.induct)
    case (2 bytes sent step script)
    show ?case
    proof (cases step)
      case (At_most n)
      show ?thesis
      proof (cases "bytes = []")
        case False
        then obtain ys where "prefix ys (drop n bytes)"
          "w_sent (snd (write_all_loop (drop n bytes) (sent @ take n bytes) script)) = sent @ take n bytes @ ys"
          "fst (write_all_loop (drop n bytes) (sent @ take n bytes) script) \<longrightarrow> ys = drop n bytes"
          using 2 At_most by auto
        moreover from this(1) have "prefix (take n bytes @ ys) bytes"
          by (metis append_take_drop_id same_prefix_prefix)
        ultimately show ?thesis
          using At_most False by (intro exI [of _ "take n bytes @ ys"]) auto
      qed simp
    qed (use 2 in auto)
  qed auto
  then show ?thesis
    by (simp add: write_all_raw_def)
qed

lemma pipe_read_calm:
  assumes "calm p" "0 < want" "want \<le> length (p_bytes p)"
  obtains (interrupted) p' where "pipe_read want p = Some (Inl EINTR, p')"
      "p' = p\<lparr>p_script := tl (p_script p)\<rparr>" "calm p'"
  | (data) n p' where "pipe_read want p = Some (Inr (take n (p_bytes p)), p')" "0 < n" "n \<le> want"
      "p' = p\<lparr>p_bytes := drop n (p_bytes p), p_script := tl (p_script p)\<rparr>" "calm p'"
proof (cases "p_script p")
  case Nil
  then show ?thesis
    using assms by (intro data [of want]) (auto simp: pipe_read_def Let_def calm_def)
next
  case (Cons step script)
  show ?thesis
  proof (cases step)
    case (At_most n)
    then show ?thesis
      using assms Cons by (intro data [of "min want (max 1 n)"]) (auto simp: pipe_read_def Let_def calm_def)
  next
    case (Fails e)
    then show ?thesis
      using assms Cons by (intro interrupted) (auto simp: pipe_read_def Let_def calm_def)
  qed
qed

lemma read_exact_calm:
  assumes "calm p" "length got \<le> n" "n - length got \<le> length (p_bytes p)"
  shows "\<exists>script. read_exact_loop strerror n got p =
      Some (Inr (got @ take (n - length got) (p_bytes p)),
        p\<lparr>p_bytes := drop (n - length got) (p_bytes p), p_script := script\<rparr>)
      \<and> list_all step_calm script"
  using assms
proof (induction strerror n got p rule: read_exact_loop.induct)
  case (1 strerror n got p)
  show ?case
  proof (cases "n \<le> length got")
    case True
    then show ?thesis
      using 1 by (auto simp: calm_def intro!: exI [of _ "p_script p"])
  next
    case False
    then have "0 < n - length got" by simp
    show ?thesis
    proof (cases rule: pipe_read_calm [OF 1(3) \<open>0 < n - length got\<close> 1(5), case_names interrupted data])
      case (interrupted p')
      then show ?thesis
        using 1(1) [OF False interrupted(1)] 1(4,5) False
        by (auto simp: read_exact_loop.simps [of strerror n got p])
    next
      case (data k p')
      have ne: "take k (p_bytes p) \<noteq> []"
        using data(2,3) 1(5) False by auto
      have len: "length (got @ take k (p_bytes p)) = length got + k"
        using data(3) 1(5) by simp
      have "take (n - length got) (p_bytes p) = take k (p_bytes p) @ take (n - length got - k) (drop k (p_bytes p))"
        using data(3) by (metis le_add_diff_inverse take_add)
      then show ?thesis
        using 1(2) [OF False data(1)] ne data len 1(4,5) False
        by (auto simp: read_exact_loop.simps [of strerror n got p] add.commute)
    qed
  qed
qed

text \<open>A read end whose writers are gone never blocks a reader.\<close>

lemma pipe_read_closed: "\<not> p_open p \<Longrightarrow> pipe_read want p \<noteq> None"
  by (auto simp: pipe_read_def Let_def split: list.splits io_step.splits)

lemma pipe_read_open: "pipe_read want p = Some (r, p') \<Longrightarrow> p_open p' = p_open p"
  by (auto simp: pipe_read_def Let_def split: list.splits io_step.splits if_splits)

lemma read_exact_closed:
  "\<not> p_open p \<Longrightarrow> \<exists>r p'. read_exact_loop strerror n got p = Some (r, p') \<and> \<not> p_open p'"
proof (induction strerror n got p rule: read_exact_loop.induct)
  case (1 strerror n got p)
  note unfold = read_exact_loop.simps [of strerror n got p]
  show ?case
  proof (cases "n \<le> length got")
    case False
    obtain r p' where read: "pipe_read (n - length got) p = Some (r, p')"
      using pipe_read_closed [OF 1(3)] by fast
    then show ?thesis
      using 1(1) [OF False read] 1(2) [OF False read] 1(3) False pipe_read_open [OF read]
      by (cases r) (auto simp: unfold)
  qed (use 1(3) in \<open>simp add: unfold\<close>)
qed

lemma read_exact_consumes:
  "read_exact_loop strerror n got p = Some (Inr bytes, p') \<Longrightarrow> length got \<le> n \<Longrightarrow>
     length bytes = n \<and> got @ p_bytes p = bytes @ p_bytes p'"
proof (induction strerror n got p rule: read_exact_loop.induct)
  case (1 strerror n got p)
  note unfold = read_exact_loop.simps [of strerror n got p]
  show ?case
  proof (cases "n \<le> length got")
    case False
    obtain r p1 where read: "pipe_read (n - length got) p = Some (r, p1)"
      using 1(3) False by (auto simp: unfold split: option.splits)
    show ?thesis
    proof (cases r)
      case (Inl e)
      then have "e = EINTR" "read_exact_loop strerror n got p1 = Some (Inr bytes, p')"
        using 1(3) False read by (auto simp: unfold split: if_splits)
      moreover have "p_bytes p1 = p_bytes p"
        using read Inl by (auto simp: pipe_read_def Let_def split: list.splits io_step.splits if_splits)
      ultimately show ?thesis
        using 1(1) [OF False read] 1(4) Inl by auto
    next
      case (Inr bs)
      then have "bs \<noteq> []" "read_exact_loop strerror n (got @ bs) p1 = Some (Inr bytes, p')"
        using 1(3) False read by (auto simp: unfold split: if_splits)
      then show ?thesis
        using 1(2) [OF False read] 1(4) Inr False pipe_read_progress(2) [OF read [unfolded Inr]] by auto
    qed
  qed (use 1(3,4) in simp)
qed

lemma read_exact_fd_calm:
  assumes "calm p" "n \<le> length (p_bytes p)"
  shows "\<exists>p'. read_exact_fd strerror n p = Some (Inr (take n (p_bytes p)), p')
    \<and> p_bytes p' = drop n (p_bytes p) \<and> p_open p' = p_open p \<and> calm p'"
  using read_exact_calm [of p "[]" n strerror] assms
  by (auto simp: read_exact_fd_def calm_def)

lemma read_message_shorter:
  "read_message little strerror kind p = Some (Inr msg, p') \<Longrightarrow> length (p_bytes p') < length (p_bytes p)"
  using read_exact_consumes [of strerror 8 "[]" p]
  by (auto simp: read_message_def read_exact_fd_def split: option.splits sum.splits)

lemma read_message_closed:
  "\<not> p_open p \<Longrightarrow> \<exists>r p'. read_message little strerror kind p = Some (r, p') \<and> \<not> p_open p'"
  using read_exact_closed [of p strerror 8 "[]"]
  by (auto simp: read_message_def read_exact_fd_def split: sum.splits)

interpretation message_pipe:
  message_stream "read_exact_fd strerror" p_bytes calm "message_bytes little" "message_of little" 8
  for strerror little
  using read_exact_fd_calm by unfold_locales fastforce+

interpretation i32_pipe:
  message_stream "read_exact_fd strerror" p_bytes calm "to_ne_bytes little" "from_ne_bytes little" 4
  for strerror little
  using read_exact_fd_calm by unfold_locales fastforce+

lemma read_message_calm:
  assumes "calm p" "p_bytes p = message_bytes little msg @ rest"
  obtains p' where "read_message little strerror kind p = Some (Inr msg, p')" "p_bytes p' = rest"
    "p_open p' = p_open p" "calm p'"
proof -
  obtain p' where "read_exact_fd strerror 8 p = Some (Inr (message_bytes little msg), p')"
    "p_bytes p' = rest" "p_open p' = p_open p" "calm p'"
    using read_exact_fd_calm [OF assms(1), of 8 strerror] assms(2) by fastforce
  then show ?thesis
    by (intro that [of p']) (simp_all add: read_message_def)
qed

text \<open>What the monitor reads from the pipe to the child: nothing, or one error number.\<close>

lemma read_i32_eof:
  "calm p \<Longrightarrow> p_bytes p = [] \<Longrightarrow> \<not> p_open p \<Longrightarrow>
     \<exists>errno' p'. read_i32_or_eof_raw little errno out p = Some ((0, errno', out), p')"
proof -
  have "calm p \<Longrightarrow> got = [] \<Longrightarrow> p_bytes p = [] \<Longrightarrow> \<not> p_open p \<Longrightarrow>
     \<exists>errno' p'. read_i32_loop little errno out got p = Some ((0, errno', out), p')" for got
  proof (induction little errno out got p rule: read_i32_loop.induct)
    case (1 little errno out got p)
    have short: "\<not> 4 \<le> length got"
      using 1(4) by simp
    obtain r p1 where read: "pipe_read (4 - length got) p = Some (r, p1)"
      using pipe_read_closed [OF 1(6)] by fast
    have p1: "calm p1" "p_bytes p1 = []" "r = Inl EINTR \<or> r = Inr []"
      using read 1(3,4,5,6)
      by (auto simp: pipe_read_def Let_def calm_def split: list.splits io_step.splits if_splits)
    have "\<not> p_open p1"
      using pipe_read_open [OF read] 1(6) by simp
    then show ?case
      using 1(1) [OF short read] 1(4) p1 read
      by (auto simp: read_i32_loop.simps [of little errno out "[]" p])
  qed
  then show "calm p \<Longrightarrow> p_bytes p = [] \<Longrightarrow> \<not> p_open p \<Longrightarrow> ?thesis"
    by (simp add: read_i32_or_eof_raw_def)
qed

lemma read_i32_value:
  assumes "calm p" "p_bytes p = to_ne_bytes little v @ rest"
  shows "\<exists>errno' p'. read_i32_or_eof_raw little errno out p = Some ((1, errno', v), p')"
proof -
  have "calm p \<Longrightarrow> length got \<le> 4 \<Longrightarrow> got @ p_bytes p = to_ne_bytes little v @ rest \<Longrightarrow>
     \<exists>errno' p'. read_i32_loop little errno out got p = Some ((1, errno', v), p')" for got
  proof (induction little errno out got p rule: read_i32_loop.induct)
    case (1 little errno out got p)
    note unfold = read_i32_loop.simps [of little errno out got p]
    show ?case
    proof (cases "4 \<le> length got")
      case True
      then have "got = to_ne_bytes little v"
        using 1(4,5) by (metis append_eq_append_conv le_antisym length_to_ne_bytes)
      then show ?thesis by simp
    next
      case False
      have "length (got @ p_bytes p) = 4 + length rest"
        using 1(5) by simp
      then have want: "0 < 4 - length got" "4 - length got \<le> length (p_bytes p)"
        using False by simp_all
      show ?thesis
      proof (cases rule: pipe_read_calm [OF 1(3) want, case_names interrupted data])
        case (interrupted p')
        then show ?thesis
          using 1(1) [OF False interrupted(1)] 1(4,5) False by (auto simp: unfold)
      next
        case (data n p')
        have "take n (p_bytes p) \<noteq> []" "length (got @ take n (p_bytes p)) \<le> 4"
          using data(2,3) want by auto
        then show ?thesis
          using 1(2) [OF False data(1)] 1(5) data False by (auto simp: unfold)
      qed
    qed
  qed
  then show ?thesis
    using assms by (simp add: read_i32_or_eof_raw_def)
qed

text \<open>A read of more than there is: it blocks on an open pipe, and fails on a closed one.\<close>

lemma read_exact_short:
  "calm p \<Longrightarrow> length got + length (p_bytes p) < n \<Longrightarrow>
     (case read_exact_loop strerror n got p of
        None \<Rightarrow> p_open p
      | Some (r, p') \<Rightarrow> \<not> p_open p \<and> r = Inl UnexpectedEof_error)"
proof (induction strerror n got p rule: read_exact_loop.induct)
  case (1 strerror n got p)
  note unfold = read_exact_loop.simps [of strerror n got p]
  have short: "\<not> n \<le> length got"
    using 1(4) by simp
  show ?case
  proof (cases "pipe_read (n - length got) p")
    case None
    then show ?thesis
      using short pipe_read_closed [of p "n - length got"] by (auto simp: unfold)
  next
    case (Some rp)
    then obtain r p1 where read: "pipe_read (n - length got) p = Some (r, p1)"
      by (cases rp) auto
    have p1: "calm p1" "p_open p1 = p_open p"
      "case r of Inl e \<Rightarrow> e = EINTR \<and> p_bytes p1 = p_bytes p | Inr bs \<Rightarrow> p_bytes p = bs @ p_bytes p1"
      using read 1(3) by (auto simp: pipe_read_def Let_def calm_def split: list.splits io_step.splits if_splits)
    show ?thesis
    proof (cases r)
      case (Inl e)
      then have "case read_exact_loop strerror n got p1 of
          None \<Rightarrow> p_open p1 | Some (r, p') \<Rightarrow> \<not> p_open p1 \<and> r = Inl UnexpectedEof_error"
        using p1 1(4) by (intro 1(1) [OF short read _ Inl]) auto
      then show ?thesis
        using Inl p1 short read by (simp add: unfold split: option.splits prod.splits)
    next
      case (Inr bs)
      then show ?thesis
        using 1(2) [OF short read _ Inr] p1 1(4) short read
          pipe_read_progress(2) [OF read [unfolded Inr]]
        by (auto simp: unfold split: option.splits prod.splits)
    qed
  qed
qed

lemma read_message_short:
  "calm p \<Longrightarrow> length (p_bytes p) < 8 \<Longrightarrow>
     (case read_message little strerror kind p of
        None \<Rightarrow> p_open p
      | Some (r, p') \<Rightarrow> \<not> p_open p \<and> r = Inl (PtyxError_io kind UnexpectedEof_error))"
  using read_exact_short [of p "[]" 8 strerror]
  by (auto simp: read_message_def read_exact_fd_def split: option.splits)

lemma read_message_blocked:
  "calm p \<Longrightarrow> length (p_bytes p) < 8 \<Longrightarrow> p_open p \<Longrightarrow> read_message little strerror kind p = None"
  using read_message_short [where p = p and little = little and kind = kind and strerror = strerror] by (auto split: option.splits prod.splits)

end
