(* ===== verification/Environment.thy ===== *)
theory Environment
  imports Options Interfaces "HOL-Library.List_Lexorder"
begin

text \<open>
  What a child is started with: \<open>SpawnRequest\<close> and \<open>environment\<close> of
  \<open>native/src/process_linux.rs\<close> and \<open>apply_env\<close> of \<open>native/src/process.rs\<close>. An \<open>OsString\<close> is its
  bytes, ordered lexicographically; a \<open>BTreeMap\<close> is the list of its entries in ascending key order.
  The parent's variables are a parameter. A \<open>CString\<close> is its bytes without the terminator, and a
  pointer to one is an option, \<open>None\<close> the null pointer.
\<close>

datatype OsString = OsString (os_bytes: "u8 list")

instantiation OsString :: linorder
begin

definition less_eq_OsString :: "OsString \<Rightarrow> OsString \<Rightarrow> bool" where
  "less_eq_OsString a b = (os_bytes a \<le> os_bytes b)"

definition less_OsString :: "OsString \<Rightarrow> OsString \<Rightarrow> bool" where
  "less_OsString a b = (os_bytes a < os_bytes b)"

instance
  by standard (auto simp: less_eq_OsString_def less_OsString_def intro: OsString.expand)

end

section \<open>Ordered maps\<close>

type_synonym btree = "(OsString \<times> OsString) list"

fun btree_insert :: "'k::linorder \<Rightarrow> 'v \<Rightarrow> ('k \<times> 'v) list \<Rightarrow> ('k \<times> 'v) list" where
  "btree_insert k v [] = [(k, v)]"
| "btree_insert k v ((k', v') # m) =
     (if k < k' then (k, v) # (k', v') # m
      else if k = k' then (k, v) # m
      else (k', v') # btree_insert k v m)"

definition btree_valid :: "('k::linorder \<times> 'v) list \<Rightarrow> bool" where
  "btree_valid m \<longleftrightarrow> sorted_wrt (<) (map fst m)"

lemma btree_insert_keys: "fst ` set (btree_insert k v m) = insert k (fst ` set m)"
  by (induction k v m rule: btree_insert.induct) (simp, force)

lemma btree_insert_valid: "btree_valid m \<Longrightarrow> btree_valid (btree_insert k v m)"
proof (induction m)
  case (Cons kv m)
  obtain k' v' where kv: "kv = (k', v')" by fastforce
  have head: "\<forall>x \<in> fst ` set m. k' < x" and tail: "btree_valid m"
    using Cons.prems by (auto simp: btree_valid_def kv)
  consider "k < k'" | "k = k'" | "k' < k"
    by fastforce
  then show ?case
  proof cases
    case 1
    then show ?thesis
      using head tail by (auto simp: kv btree_valid_def dest: less_trans)
  next
    case 3
    then have "\<forall>x \<in> fst ` set (btree_insert k v m). k' < x"
      using head by (simp add: btree_insert_keys)
    then show ?thesis
      using 3 Cons.IH [OF tail] by (auto simp: kv btree_valid_def)
  qed (use head tail in \<open>auto simp: kv btree_valid_def\<close>)
qed (simp add: btree_valid_def)

lemma btree_insert_lookup: "btree_valid m \<Longrightarrow> map_of (btree_insert k v m) = (map_of m)(k \<mapsto> v)"
  by (induction m) (auto simp: btree_valid_def fun_eq_iff dest: less_imp_neq)

interpretation btree: ordered_map btree_insert "\<lambda>m. m" btree_valid
  by unfold_locales (auto simp: btree_insert_valid btree_insert_lookup, simp add: btree_valid_def)

section \<open>The environment\<close>

definition EQUALS :: u8 where "EQUALS = 61"

text \<open>\<open>Iterator::position\<close>.\<close>

fun position :: "('a \<Rightarrow> bool) \<Rightarrow> 'a list \<Rightarrow> nat option" where
  "position p [] = None"
| "position p (x # xs) = (if p x then Some 0 else map_option Suc (position p xs))"

definition missing_separator_error :: PtyxError where
  "missing_separator_error = PtyxError_new InvalidArgument ''environment entry must be KEY=VALUE''"

definition empty_key_error :: PtyxError where
  "empty_key_error = PtyxError_new InvalidArgument ''environment key must not be empty''"

definition env_nul_error :: PtyxError where
  "env_nul_error = PtyxError_new InvalidArgument ''environment key and value must not contain NUL''"

fun insert_items :: "u8 list list \<Rightarrow> btree \<Rightarrow> PtyxError + btree" where
  "insert_items [] env = Inr env"
| "insert_items (item # items) env =
     (case position (\<lambda>byte. byte = EQUALS) item of
        None \<Rightarrow> Inl missing_separator_error
      | Some eq \<Rightarrow>
          if eq = 0 then Inl empty_key_error
          else insert_items items
            (btree_insert (OsString (take eq item)) (OsString (drop (eq + 1) item)) env))"

text \<open>\<open>CString::new\<close> on bytes.\<close>

definition cstring_bytes :: "PtyxError \<Rightarrow> u8 list \<Rightarrow> PtyxError + u8 list" where
  "cstring_bytes e bytes = (if 0 \<in> set bytes then Inl e else Inr bytes)"

definition environment :: "(OsString \<times> OsString) list \<Rightarrow> SpawnConfig \<Rightarrow> PtyxError + u8 list list" where
  "environment vars_os config =
    (let env = (if sc_env_mode config \<in> {Inherit, Overlay}
                then fold (\<lambda>(k, v). btree_insert k v) vars_os [] else []) in
     and_then (if sc_env_mode config \<in> {Overlay, Replace} then insert_items (sc_env_items config) env
               else Inr env)
       (\<lambda>env. collect_results
          (map (\<lambda>(key, value). cstring_bytes env_nul_error (os_bytes key @ EQUALS # os_bytes value)) env)))"

definition cstring_os :: "u8 list \<Rightarrow> string \<Rightarrow> PtyxError + u8 list" where
  "cstring_os value name =
     cstring_bytes (PtyxError_new InvalidArgument (name @ '' must not contain NUL'')) value"

definition null_terminated_ptrs :: "u8 list list \<Rightarrow> u8 list option list" where
  "null_terminated_ptrs values = map Some values @ [None]"

record SpawnRequest =
  sr_executable :: "u8 list"
  sr_argv :: "u8 list list"
  sr_argv_ptrs :: "u8 list option list"
  sr_env :: "u8 list list"
  sr_env_ptrs :: "u8 list option list"
  sr_cwd :: "u8 list option"
  sr_tty_name :: "u8 list"

definition SpawnRequest_new ::
    "(OsString \<times> OsString) list \<Rightarrow> SpawnConfig \<Rightarrow> u8 list \<Rightarrow> PtyxError + SpawnRequest" where
  "SpawnRequest_new vars_os config tty_name =
     and_then (cstring_os (sc_executable config) ''executable'') (\<lambda>executable.
     and_then (cstring_os (sc_executable config) ''executable'') (\<lambda>arg0.
     and_then (collect_results (map (\<lambda>arg. cstring_os arg ''argument'') (sc_argv config))) (\<lambda>args.
     let argv = arg0 # args; argv_ptrs = null_terminated_ptrs argv in
     and_then (environment vars_os config) (\<lambda>env.
     let env_ptrs = null_terminated_ptrs env in
     and_then (if sc_cwd config = [] then Inr None
               else and_then (cstring_os (sc_cwd config) ''cwd'') (\<lambda>c. Inr (Some c))) (\<lambda>cwd.
     Inr \<lparr>sr_executable = executable, sr_argv = argv, sr_argv_ptrs = argv_ptrs, sr_env = env,
          sr_env_ptrs = env_ptrs, sr_cwd = cwd, sr_tty_name = tty_name\<rparr>)))))"

section \<open>What the child sees\<close>

text \<open>An item split at its first equals sign, when it has a key.\<close>

definition split_item :: "u8 list \<Rightarrow> (OsString \<times> OsString) option" where
  "split_item item =
    (let key = takeWhile (\<lambda>b. b \<noteq> EQUALS) item in
     if key = item \<or> key = [] then None
     else Some (OsString key, OsString (drop (length key + 1) item)))"

text \<open>The variables the mode asks for: later entries win, and items win over the parent's.\<close>

definition env_spec :: "(OsString \<times> OsString) list \<Rightarrow> SpawnConfig \<Rightarrow> OsString \<Rightarrow> OsString option" where
  "env_spec vars_os config =
    (let parent = map_of (rev vars_os);
         items = map_of (rev (List.map_filter split_item (sc_env_items config))) in
     case sc_env_mode config of
       Inherit \<Rightarrow> parent
     | Overlay \<Rightarrow> parent ++ items
     | Replace \<Rightarrow> items
     | Clear \<Rightarrow> Map.empty)"

lemma position_takeWhile:
  "position p xs = (if \<exists>x \<in> set xs. p x then Some (length (takeWhile (\<lambda>x. \<not> p x) xs)) else None)"
  by (induction xs) auto

lemma split_item_Some:
  "split_item item = Some kv \<longleftrightarrow>
     (\<exists>eq. position (\<lambda>b. b = EQUALS) item = Some eq \<and> eq \<noteq> 0
        \<and> kv = (OsString (take eq item), OsString (drop (eq + 1) item)))"
  by (auto simp: split_item_def Let_def position_takeWhile takeWhile_eq_all_conv takeWhile_eq_take
      simp flip: takeWhile_eq_take)

lemma insert_items_Inr:
  "insert_items items env =
     (if \<forall>item \<in> set items. split_item item \<noteq> None
      then Inr (fold (\<lambda>(k, v). btree_insert k v) (List.map_filter split_item items) env)
      else insert_items items env)"
proof (induction items arbitrary: env)
  case (Cons item items)
  show ?case
  proof (cases "\<forall>i \<in> set (item # items). split_item i \<noteq> None")
    case True
    then obtain eq where eq: "position (\<lambda>b. b = EQUALS) item = Some eq" "eq \<noteq> 0"
      "split_item item = Some (OsString (take eq item), OsString (drop (eq + 1) item))"
      by (auto simp: split_item_Some)
    have rest: "\<forall>i \<in> set items. split_item i \<noteq> None"
      using True by simp
    let ?env = "btree_insert (OsString (take eq item)) (OsString (drop (eq + 1) item)) env"
    have "insert_items items ?env = Inr (fold (\<lambda>(k, v). btree_insert k v) (List.map_filter split_item items) ?env)"
      by (subst Cons.IH) (simp add: rest)
    then show ?thesis
      using True eq by (simp add: map_filter_def)
  qed auto
qed (simp add: map_filter_def)

lemma insert_items_Inl:
  assumes "\<exists>item \<in> set items. split_item item = None"
  shows "\<exists>e. insert_items items env = Inl e \<and> (e = missing_separator_error \<or> e = empty_key_error)"
  using assms
proof (induction items arbitrary: env)
  case (Cons item items)
  show ?case
  proof (cases "split_item item")
    case None
    then have "position (\<lambda>b. b = EQUALS) item = None \<or> position (\<lambda>b. b = EQUALS) item = Some 0"
      using split_item_Some [of item]
      by (cases "position (\<lambda>b. b = EQUALS) item") fastforce+
    then show ?thesis by auto
  next
    case (Some kv)
    then obtain eq where "position (\<lambda>b. b = EQUALS) item = Some eq" "eq \<noteq> 0"
      by (auto simp: split_item_Some)
    then show ?thesis
      using Cons Some by simp
  qed
qed simp

definition env_item :: "OsString \<times> OsString \<Rightarrow> u8 list" where
  "env_item kv = os_bytes (fst kv) @ EQUALS # os_bytes (snd kv)"

lemma collect_cstrings:
  "collect_results (map (\<lambda>(k, v). cstring_bytes e (os_bytes k @ EQUALS # os_bytes v)) m) =
     (if \<exists>kv \<in> set m. 0 \<in> set (env_item kv) then Inl e else Inr (map env_item m))"
  by (induction m) (auto simp: cstring_bytes_def env_item_def)

lemma environment_cases:
  fixes vars_os :: "(OsString \<times> OsString) list" and config :: SpawnConfig
  defines "bad_item \<equiv> sc_env_mode config \<in> {Overlay, Replace}
      \<and> (\<exists>item \<in> set (sc_env_items config). split_item item = None)"
    and "nul_item \<equiv> \<exists>k v. env_spec vars_os config k = Some v \<and> 0 \<in> set (env_item (k, v))"
  obtains
    (bad_item) e where "bad_item" "environment vars_os config = Inl e" "err_kind e = InvalidArgument"
  | (nul) e where "\<not> bad_item" "nul_item" "environment vars_os config = Inl e" "err_kind e = InvalidArgument"
  | (ok) m where "\<not> bad_item" "\<not> nul_item" "environment vars_os config = Inr (map env_item m)"
      "sorted_wrt (<) (map fst m)" "map_of m = env_spec vars_os config"
      "\<forall>kv \<in> set m. 0 \<notin> set (env_item kv)"
proof -
  let ?uses = "sc_env_mode config \<in> {Overlay, Replace}"
  let ?kvs = "List.map_filter split_item (sc_env_items config)"
  define env0 where "env0 = (if sc_env_mode config \<in> {Inherit, Overlay}
      then fold (\<lambda>(k, v). btree_insert k v) vars_os [] else [])"
  have empty: "btree_valid ([] :: btree)"
    by (simp add: btree_valid_def)
  have env0: "btree_valid env0"
    "map_of env0 = (if sc_env_mode config \<in> {Inherit, Overlay} then map_of (rev vars_os) else Map.empty)"
    using btree.inserts_lookup [OF empty, of vars_os] empty by (simp_all add: env0_def)
  show ?thesis
  proof (cases bad_item)
    case True
    then obtain e where "insert_items (sc_env_items config) env0 = Inl e"
      "e = missing_separator_error \<or> e = empty_key_error"
      using insert_items_Inl unfolding bad_item_def by blast
    then show ?thesis
      using True by (intro bad_item [OF True, of e])
        (auto simp: bad_item_def environment_def env0_def Let_def missing_separator_error_def empty_key_error_def)
  next
    case False
    define env where "env = (if ?uses then fold (\<lambda>(k, v). btree_insert k v) ?kvs env0 else env0)"
    have "(if ?uses then insert_items (sc_env_items config) env0 else Inr env0) = Inr env"
      using False insert_items_Inr [of "sc_env_items config" env0] by (auto simp: env_def bad_item_def)
    moreover have "environment vars_os config =
        and_then (if ?uses then insert_items (sc_env_items config) env0 else Inr env0)
          (\<lambda>env. collect_results
            (map (\<lambda>(k, v). cstring_bytes env_nul_error (os_bytes k @ EQUALS # os_bytes v)) env))"
      unfolding environment_def env0_def Let_def by (rule refl)
    ultimately have result: "environment vars_os config =
        (if \<exists>kv \<in> set env. 0 \<in> set (env_item kv) then Inl env_nul_error else Inr (map env_item env))"
      by (simp only: and_then_simps collect_cstrings)
    have valid: "btree_valid env" and lookups: "map_of env = env_spec vars_os config"
      using env0 btree.inserts_lookup [OF env0(1), of ?kvs]
      by (cases "sc_env_mode config"; simp add: env_def env_spec_def Let_def)+
    then have sorted: "sorted_wrt (<) (map fst env)" "distinct (map fst env)"
      by (simp_all add: btree_valid_def strict_sorted_iff)
    then have nul_iff: "(\<exists>kv \<in> set env. 0 \<in> set (env_item kv)) \<longleftrightarrow> nul_item"
      by (auto simp: nul_item_def lookups [symmetric] map_of_eq_Some_iff)
    show ?thesis
    proof (cases nul_item)
      case True
      then show ?thesis
        using False result nul_iff by (intro nul [of env_nul_error]) (auto simp: env_nul_error_def)
    next
      case clean: False
      then show ?thesis
        using False result nul_iff sorted lookups by (intro ok [of env]) auto
    qed
  qed
qed

lemma environment_accepts:
  "is_ok (environment vars_os config) \<longleftrightarrow>
     (sc_env_mode config \<in> {Overlay, Replace} \<longrightarrow> (\<forall>item \<in> set (sc_env_items config). split_item item \<noteq> None))
   \<and> (\<forall>k v. env_spec vars_os config k = Some v \<longrightarrow> 0 \<notin> set (env_item (k, v)))"
  by (cases rule: environment_cases [where vars_os = vars_os and config = config])
    (simp_all del: not_None_eq, blast+)

lemma environment_shape:
  "case environment vars_os config of
     Inr out \<Rightarrow> \<forall>item \<in> set out. 0 \<notin> set item
   | Inl e \<Rightarrow> err_kind e = InvalidArgument"
  by (cases rule: environment_cases [where vars_os = vars_os and config = config]) auto

text \<open>
  C24. The child gets exactly the environment its mode asks for. When \<open>environment\<close> succeeds, its
  entries are \<open>KEY=VALUE\<close> for the specified variables, each once, in ascending key order, without
  NUL: the parent's variables for inherit, those overridden and extended by the items for overlay,
  only the items for replace, nothing for clear; of several items with one key the last counts, and
  a value may contain equals signs. It fails, always with \<open>InvalidArgument\<close>, only when the mode
  uses the items and one has no key or no equals sign, or when an entry would contain a NUL.
\<close>

theorem environment_contents:
  "case environment vars_os config of
     Inr out \<Rightarrow> \<exists>m. sorted_wrt (<) (map fst m) \<and> map_of m = env_spec vars_os config
       \<and> out = map env_item m \<and> list_all (\<lambda>item. 0 \<notin> set item) out
   | Inl e \<Rightarrow> err_kind e = InvalidArgument
       \<and> ((sc_env_mode config \<in> {Overlay, Replace}
             \<and> (\<exists>item \<in> set (sc_env_items config). split_item item = None))
          \<or> (\<exists>k v. env_spec vars_os config k = Some v \<and> 0 \<in> set (env_item (k, v))))"
  by (cases rule: environment_cases [where vars_os = vars_os and config = config])
    (simp, simp, force simp: list_all_iff)

text \<open>
  Requests to \<open>exec\<close> are well formed. A spawn request that is made carries the configured
  executable, working directory (none when it is empty) and arguments unchanged, with the
  executable as argument zero; both pointer arrays point to their strings in order and end in their
  only null pointer, so \<open>exec\<close> neither stops early nor runs past the end; and no string has an
  interior NUL that would cut it short. A request that is refused is refused as an invalid argument.
\<close>

theorem spawn_request_well_formed:
  "case SpawnRequest_new vars_os config tty_name of
     Inr req \<Rightarrow> sr_executable req = sc_executable config
       \<and> sr_argv req = sc_executable config # sc_argv config
       \<and> sr_argv_ptrs req = map Some (sr_argv req) @ [None]
       \<and> environment vars_os config = Inr (sr_env req)
       \<and> sr_env_ptrs req = map Some (sr_env req) @ [None]
       \<and> sr_cwd req = (if sc_cwd config = [] then None else Some (sc_cwd config))
       \<and> list_all (\<lambda>s. 0 \<notin> set s) (sr_argv req @ sr_env req)
       \<and> pred_option (\<lambda>s. 0 \<notin> set s) (sr_cwd req)
   | Inl e \<Rightarrow> err_kind e = InvalidArgument"
proof -
  have args: "collect_results (map (\<lambda>arg. if 0 \<in> set arg then Inl e else Inr arg) xs) =
      (if \<exists>x \<in> set xs. 0 \<in> set x then Inl e else Inr xs)" for e :: PtyxError and xs :: "u8 list list"
    by (induction xs) auto
  note env = environment_shape [where vars_os = vars_os and config = config]
  show ?thesis
  proof (cases "SpawnRequest_new vars_os config tty_name")
    case (Inl e)
    then show ?thesis
      using env
      by (auto simp: SpawnRequest_new_def args and_then_Inl_iff cstring_os_def cstring_bytes_def Let_def
          split: if_splits)
  next
    case (Inr req)
    then show ?thesis
      using env
      by (auto simp: SpawnRequest_new_def args and_then_Inr_iff cstring_os_def cstring_bytes_def Let_def
          null_terminated_ptrs_def list_all_iff split: if_splits)
  qed
qed

section \<open>The other platforms\<close>

text \<open>
  Elsewhere the environment is set up on \<open>portable_pty\<close>'s command builder, whose \<open>env_clear\<close> and
  \<open>env\<close> are parameters.
\<close>

fun apply_items ::
    "(u8 list \<Rightarrow> u8 list \<Rightarrow> 'c \<Rightarrow> 'c) \<Rightarrow> u8 list list \<Rightarrow> 'c \<Rightarrow> (PtyxError + unit) \<times> 'c" where
  "apply_items env_set [] command = (Inr (), command)"
| "apply_items env_set (item # items) command =
     (let text = utf8_lossy item in
      case position (\<lambda>c. c = EQUALS) text of
        None \<Rightarrow> (Inl missing_separator_error, command)
      | Some eq \<Rightarrow>
          let key = take eq text; value = drop (eq + 1) text in
          if key = [] then (Inl empty_key_error, command)
          else if 0 \<in> set text then (Inl env_nul_error, command)
          else apply_items env_set items (env_set key value command))"

definition apply_env ::
    "('c \<Rightarrow> 'c) \<Rightarrow> (u8 list \<Rightarrow> u8 list \<Rightarrow> 'c \<Rightarrow> 'c) \<Rightarrow> 'c \<Rightarrow> EnvironmentMode \<Rightarrow> u8 list list
     \<Rightarrow> (PtyxError + unit) \<times> 'c" where
  "apply_env env_clear env_set command mode items =
    (case mode of
       Inherit \<Rightarrow> (Inr (), command)
     | _ \<Rightarrow>
         let command = (if mode \<in> {Replace, Clear} then env_clear command else command) in
         if mode = Clear then (Inr (), command) else apply_items env_set items command)"

definition byte_env :: "(OsString \<Rightarrow> OsString option) \<Rightarrow> u8 list \<Rightarrow> u8 list option" where
  "byte_env m key = map_option os_bytes (m (OsString key))"

lemma byte_env_upd: "byte_env (m(OsString k \<mapsto> OsString v)) = (byte_env m)(k \<mapsto> v)"
  by (auto simp: byte_env_def fun_eq_iff)

lemma apply_items_result:
  assumes set_law: "\<And>k v c. getenv (env_set k v c) = (getenv c)(k \<mapsto> v)"
    and clean: "\<forall>item \<in> set items. utf8_valid item \<and> 0 \<notin> set item"
    and env: "getenv command = byte_env m"
  shows "case apply_items env_set items command of
      (Inr _, c) \<Rightarrow> (\<forall>item \<in> set items. split_item item \<noteq> None)
        \<and> getenv c = byte_env (m ++ map_of (rev (List.map_filter split_item items)))
    | (Inl _, c) \<Rightarrow> \<exists>item \<in> set items. split_item item = None"
  using clean env
proof (induction items arbitrary: command m)
  case (Cons item items)
  have lossy: "utf8_lossy item = item"
    using Cons.prems(1) utf8_lossy_valid by (auto simp: utf8_valid_def)
  show ?case
  proof (cases "split_item item")
    case None
    then have "position (\<lambda>b. b = EQUALS) item = None \<or> position (\<lambda>b. b = EQUALS) item = Some 0"
      using split_item_Some [of item]
      by (cases "position (\<lambda>b. b = EQUALS) item") fastforce+
    then show ?thesis
      using None by (auto simp: lossy Let_def)
  next
    case (Some kv)
    then obtain eq where eq: "position (\<lambda>b. b = EQUALS) item = Some eq" "eq \<noteq> 0"
      and kv: "kv = (OsString (take eq item), OsString (drop (eq + 1) item))"
      by (auto simp: split_item_Some)
    have ne: "take eq item \<noteq> []"
      using eq by (cases item) auto
    let ?m = "m(OsString (take eq item) \<mapsto> OsString (drop (eq + 1) item))"
    have "getenv (env_set (take eq item) (drop (eq + 1) item) command) = byte_env ?m"
      using Cons.prems(2) by (simp add: set_law byte_env_upd)
    note ih = Cons.IH [OF _ this]
    have spec: "m ++ map_of (rev (List.map_filter split_item (item # items)))
        = ?m ++ map_of (rev (List.map_filter split_item items))"
      using Some by (auto simp: map_filter_def kv fun_eq_iff map_add_def split: option.splits)
    show ?thesis
      using ih Cons.prems(1) eq ne Some spec
      by (auto simp: lossy Let_def split: prod.splits sum.splits)
  qed
qed (simp add: map_filter_def)


definition demo_spawn :: "EnvironmentMode \<Rightarrow> u8 list list \<Rightarrow> SpawnConfig" where
  "demo_spawn mode items = \<lparr>sc_executable = [115, 104], sc_argv = [], sc_env_items = items, sc_env_mode = mode,
     sc_cwd = [], sc_size = \<lparr>pty_rows = 24, pty_cols = 80, pty_pixel_width = 0, pty_pixel_height = 0\<rparr>\<rparr>"


end
