(* ===== verification/Monitor.thy ===== *)
theory Monitor
  imports Pipes Environment
begin

text \<open>
  The processes of the Linux child supervisor: \<open>native/src/process_linux.rs\<close>. Three of them talk
  over two pipes: the PTY program's process reports a failed \<open>exec\<close> to the monitor, the monitor
  reports the program's PID and exit code to the host. What the kernel answers a process is an
  argument of its model; a process that waits for good has no result.
\<close>

section \<open>The program's process\<close>

text \<open>The system calls between \<open>fork\<close> and \<open>exec\<close>; the kernel answers an error number or a value.\<close>

datatype signal_name = SIGCHLD | SIGHUP | SIGINT | SIGQUIT | SIGTERM | SIGALRM

datatype child_call =
    Sigaction_default signal_name
  | Sigprocmask_empty
  | Setsid
  | Open_rdwr "u8 list"
  | Ioctl_TIOCSCTTY i32
  | Dup2 i32 i32
  | Close_fd i32
  | Chdir "u8 list"
  | Execvpe "u8 list" "u8 list option list" "u8 list option list"

type_synonym kernel = "child_call \<Rightarrow> i32 + i32"

definition STDIN_FILENO :: i32 where "STDIN_FILENO = 0"
definition STDOUT_FILENO :: i32 where "STDOUT_FILENO = 1"
definition STDERR_FILENO :: i32 where "STDERR_FILENO = 2"

text \<open>
  \<open>checked\<close> makes a call and goes on with its value, or ends in \<open>report_exec_error\<close> with \<open>errno\<close>;
  \<open>ignored\<close> ignores the answer. A run is the calls made and the error to report; without one,
  the program has taken over.
\<close>

definition checked :: "kernel \<Rightarrow> child_call \<Rightarrow> (i32 \<Rightarrow> child_call list \<times> i32 option) \<Rightarrow> child_call list \<times> i32 option" where
  "checked answer call k =
    (case answer call of
       Inl errno \<Rightarrow> ([call], Some errno)
     | Inr value \<Rightarrow> (case k value of (calls, result) \<Rightarrow> (call # calls, result)))"

definition ignored :: "child_call \<Rightarrow> child_call list \<times> i32 option \<Rightarrow> child_call list \<times> i32 option" where
  "ignored call k = (case k of (calls, result) \<Rightarrow> (call # calls, result))"

definition reset_signal_raw :: "signal_name \<Rightarrow> child_call list \<times> i32 option \<Rightarrow> child_call list \<times> i32 option" where
  "reset_signal_raw signal k = ignored (Sigaction_default signal) k"

definition exec_child :: "kernel \<Rightarrow> SpawnRequest \<Rightarrow> child_call list \<times> i32 option" where
  "exec_child answer spawn =
    (let exec = checked answer (Execvpe (sr_executable spawn) (sr_argv_ptrs spawn) (sr_env_ptrs spawn))
           (\<lambda>_. ([], None));
         cwd_exec = (case sr_cwd spawn of Some cwd \<Rightarrow> checked answer (Chdir cwd) (\<lambda>_. exec) | None \<Rightarrow> exec) in
     foldr reset_signal_raw [SIGCHLD, SIGHUP, SIGINT, SIGQUIT, SIGTERM, SIGALRM]
       (ignored Sigprocmask_empty
         (checked answer Setsid (\<lambda>_.
          checked answer (Open_rdwr (sr_tty_name spawn)) (\<lambda>tty_fd.
          checked answer (Ioctl_TIOCSCTTY tty_fd) (\<lambda>_.
          checked answer (Dup2 tty_fd STDIN_FILENO) (\<lambda>_.
          checked answer (Dup2 tty_fd STDOUT_FILENO) (\<lambda>_.
          checked answer (Dup2 tty_fd STDERR_FILENO) (\<lambda>_.
          if sint tty_fd > sint STDERR_FILENO then ignored (Close_fd tty_fd) cwd_exec else cwd_exec)))))))))"

text \<open>What the process leaves in the pipe to the monitor, over a pipe end of its own.\<close>

definition report_exec_error :: "bool \<Rightarrow> i32 option \<Rightarrow> write_end \<Rightarrow> write_end" where
  "report_exec_error little result w =
    (case result of None \<Rightarrow> w | Some errno \<Rightarrow> snd (write_i32_raw little errno w))"

section \<open>The monitor\<close>

text \<open>
  \<open>waitpid\<close> for one process answers that it was reaped with a status, an error number, or another
  PID. When there is no further answer, the process waited for is still running.
\<close>

datatype wait_reply = Reaped i32 | Wait_fails i32 | Other_pid

text \<open>The macros of \<open>sys/wait.h\<close> that take a wait status apart are parameters.\<close>

record wait_macros =
  WIFEXITED :: "i32 \<Rightarrow> bool"
  WEXITSTATUS :: "i32 \<Rightarrow> i32"
  WIFSIGNALED :: "i32 \<Rightarrow> bool"
  WTERMSIG :: "i32 \<Rightarrow> i32"

fun wait_for_pid_raw :: "wait_macros \<Rightarrow> wait_reply list \<Rightarrow> (i32 \<times> wait_reply list) option" where
  "wait_for_pid_raw W [] = None"
| "wait_for_pid_raw W (Reaped status # rest) =
     Some (if WIFEXITED W status then WEXITSTATUS W status
           else if WIFSIGNALED W status then 128 + WTERMSIG W status
           else 1, rest)"
| "wait_for_pid_raw W (Wait_fails e # rest) =
     (if e = EINTR then wait_for_pid_raw W rest else Some (1, rest))"
| "wait_for_pid_raw W (Other_pid # rest) = Some (1, rest)"

text \<open>\<open>reap_pid\<close> gives what is left of the script.\<close>

fun reap_pid :: "wait_reply list \<Rightarrow> wait_reply list option" where
  "reap_pid [] = None"
| "reap_pid (Reaped status # rest) = Some rest"
| "reap_pid (Wait_fails e # rest) = (if e = EINTR then reap_pid rest else Some rest)"
| "reap_pid (Other_pid # rest) = reap_pid rest"

text \<open>What the kernel answers the monitor: \<open>pipe2\<close>, \<open>fork\<close>, the pipe to the child, \<open>waitpid\<close>.\<close>

record monitor_os =
  mo_errno :: i32
  mo_pipe2 :: "i32 + unit"
  mo_fork :: "i32 + i32"
  mo_exec_pipe :: read_end
  mo_waits :: "wait_reply list"

text \<open>
  The monitor's end of the event pipe, and the code it exits with, when it does. The branch of
  \<open>fork\<close> with PID 0 is \<open>exec_child\<close> above; resetting \<open>SIGCHLD\<close> and closing the unused pipe ends
  show in the model only as \<open>p_open\<close> of the read ends.
\<close>

definition run_monitor :: "bool \<Rightarrow> wait_macros \<Rightarrow> monitor_os \<Rightarrow> write_end \<Rightarrow> write_end \<times> i32 option" where
  "run_monitor little W os event_fd =
    (case mo_pipe2 os of
       Inl errno \<Rightarrow> (snd (write_message_raw little MONITOR_EXEC_ERROR errno event_fd), Some 1)
     | Inr _ \<Rightarrow>
    (case mo_fork os of
       Inl errno \<Rightarrow> (snd (write_message_raw little MONITOR_EXEC_ERROR errno event_fd), Some 1)
     | Inr child_pid \<Rightarrow>
    (case read_i32_or_eof_raw little (mo_errno os) 0 (mo_exec_pipe os) of
       None \<Rightarrow> (event_fd, None)
     | Some ((result, errno, exec_error), _) \<Rightarrow>
         if result = 1 \<or> result = - 1 then
           let value = (if result = 1 then exec_error else errno);
               event_fd = snd (write_message_raw little MONITOR_EXEC_ERROR value event_fd) in
           (event_fd, map_option (\<lambda>_. 1) (wait_for_pid_raw W (mo_waits os)))
         else
           let event_fd = snd (write_message_raw little MONITOR_PID child_pid event_fd) in
           (case wait_for_pid_raw W (mo_waits os) of
              None \<Rightarrow> (event_fd, None)
            | Some (exit_code, _) \<Rightarrow>
                (snd (write_message_raw little MONITOR_EXIT exit_code event_fd), Some 0)))))"

section \<open>The host\<close>

text \<open>
  \<open>portable_pty\<close>'s exit status is a parameter of type \<open>'st\<close>, built by \<open>with_exit_code\<close>.
\<close>

record 'st SupervisedChild =
  sv_pid :: i32
  sv_monitor_pid :: i32
  sv_events :: read_end
  sv_cached :: "'st option"

text \<open>What the kernel answers the host: \<open>pipe2\<close>, \<open>fork\<close>, the pipe from the monitor, \<open>waitpid\<close>.\<close>

record spawn_os =
  so_pipe2 :: "i32 + unit"
  so_fork :: "i32 + i32"
  so_events :: read_end
  so_waits :: "wait_reply list"

definition invalid_message_error :: PtyxError where
  "invalid_message_error = PtyxError_new SpawnFailed ''PTY child monitor returned an invalid spawn message''"

definition process_linux_spawn ::
    "bool \<Rightarrow> (i32 \<Rightarrow> string) \<Rightarrow> (OsString \<times> OsString) list \<Rightarrow> SpawnConfig \<Rightarrow> u8 list \<Rightarrow> spawn_os
     \<Rightarrow> ((PtyxError + 'st SupervisedChild) \<times> wait_reply list) option" where
  "process_linux_spawn little strerror vars_os config tty_name os =
    (let waits = so_waits os;
         reaped = (\<lambda>error. map_option (\<lambda>waits. (Inl error, waits)) (reap_pid waits)) in
     case SpawnRequest_new vars_os config tty_name of
       Inl error \<Rightarrow> Some (Inl error, waits)
     | Inr request \<Rightarrow>
    (case so_pipe2 os of
       Inl e \<Rightarrow> Some (Inl (PtyxError_io SpawnFailed (from_raw_os_error strerror e)), waits)
     | Inr _ \<Rightarrow>
    (case so_fork os of
       Inl e \<Rightarrow> Some (Inl (PtyxError_io SpawnFailed (from_raw_os_error strerror e)), waits)
     | Inr monitor_pid \<Rightarrow>
    (case read_message little strerror SpawnFailed (so_events os) of
       None \<Rightarrow> None
     | Some (Inl error, _) \<Rightarrow> reaped error
     | Some (Inr message, events) \<Rightarrow>
         if mm_tag message = MONITOR_PID then
           Some (Inr \<lparr>sv_pid = mm_value message, sv_monitor_pid = monitor_pid, sv_events = events,
             sv_cached = None\<rparr>, waits)
         else if mm_tag message = MONITOR_EXEC_ERROR then
           reaped (PtyxError_io SpawnFailed (from_raw_os_error strerror (mm_value message)))
         else reaped invalid_message_error))))"

function read_exit_status ::
    "bool \<Rightarrow> (i32 \<Rightarrow> string) \<Rightarrow> (u32 \<Rightarrow> 'st) \<Rightarrow> wait_reply list \<Rightarrow> 'st SupervisedChild
     \<Rightarrow> ((io_error + 'st) \<times> 'st SupervisedChild \<times> wait_reply list) option" where
  "read_exit_status little strerror with_exit_code waits child =
    (case read_message little strerror WaitFailed (sv_events child) of
       None \<Rightarrow> None
     | Some (Inl error, events) \<Rightarrow>
         Some (Inl (io_error_new Io_Other (err_message error)), child\<lparr>sv_events := events\<rparr>, waits)
     | Some (Inr message, events) \<Rightarrow>
         if mm_tag message = MONITOR_EXIT then
           let status = with_exit_code (mm_value message) in
           map_option (\<lambda>waits. (Inr status, child\<lparr>sv_events := events, sv_cached := Some status\<rparr>, waits))
             (reap_pid waits)
         else read_exit_status little strerror with_exit_code waits (child\<lparr>sv_events := events\<rparr>))"
  by pat_completeness auto
termination
  by (relation "measure (\<lambda>(_, _, _, _, child). length (p_bytes (sv_events child)))")
    (auto dest: read_message_shorter)

declare read_exit_status.simps [simp del]

definition child_wait ::
    "bool \<Rightarrow> (i32 \<Rightarrow> string) \<Rightarrow> (u32 \<Rightarrow> 'st) \<Rightarrow> wait_reply list \<Rightarrow> 'st SupervisedChild
     \<Rightarrow> ((io_error + 'st) \<times> 'st SupervisedChild \<times> wait_reply list) option" where
  "child_wait little strerror with_exit_code waits child =
    (case sv_cached child of
       Some status \<Rightarrow> Some (Inr status, child, waits)
     | None \<Rightarrow> read_exit_status little strerror with_exit_code waits child)"

text \<open>\<open>poll\<close> without a timeout: how many descriptors are ready, or an error number.\<close>

definition child_try_wait ::
    "bool \<Rightarrow> (i32 \<Rightarrow> string) \<Rightarrow> (u32 \<Rightarrow> 'st) \<Rightarrow> i32 + nat \<Rightarrow> wait_reply list \<Rightarrow> 'st SupervisedChild
     \<Rightarrow> ((io_error + 'st option) \<times> 'st SupervisedChild \<times> wait_reply list) option" where
  "child_try_wait little strerror with_exit_code poll waits child =
    (case sv_cached child of
       Some status \<Rightarrow> Some (Inr (Some status), child, waits)
     | None \<Rightarrow>
    (case poll of
       Inl e \<Rightarrow> Some (Inl (from_raw_os_error strerror e), child, waits)
     | Inr result \<Rightarrow>
         if result = 0 then Some (Inr None, child, waits)
         else map_option (\<lambda>(r, child, waits). (and_then r (\<lambda>status. Inr (Some status)), child, waits))
           (read_exit_status little strerror with_exit_code waits child)))"

text \<open>\<open>process_id\<close>: a \<open>pid_t\<close> that is not negative is the same bits as a \<open>u32\<close>.\<close>

definition child_process_id :: "'st SupervisedChild \<Rightarrow> u32 option" where
  "child_process_id child = (if sint (sv_pid child) < 0 then None else Some (sv_pid child))"

definition kill_pid :: "(i32 \<Rightarrow> string) \<Rightarrow> i32 + unit \<Rightarrow> io_error + unit" where
  "kill_pid strerror reply = map_err (from_raw_os_error strerror) reply"

section \<open>The three processes together\<close>

text \<open>
  How the kernel disturbs the four pipe ends: the child's and the monitor's end of the \<open>exec\<close> pipe,
  and the monitor's and the host's end of the event pipe.
\<close>

record disturbances =
  d_child :: "io_step list"
  d_exec :: "io_step list"
  d_monitor :: "io_step list"
  d_host :: "io_step list"

definition calm_run :: "disturbances \<Rightarrow> bool" where
  "calm_run d \<longleftrightarrow> list_all step_calm (d_child d) \<and> list_all step_calm (d_exec d)
     \<and> list_all step_calm (d_monitor d) \<and> list_all step_calm (d_host d)"

text \<open>
  The monitor over a child that was forked with \<open>child_pid\<close> and ran \<open>exec_child\<close>; what it had in
  the event pipe when it exited, or by now when it has not exited.
\<close>

definition monitor_run ::
    "bool \<Rightarrow> wait_macros \<Rightarrow> kernel \<Rightarrow> SpawnRequest \<Rightarrow> i32 \<Rightarrow> wait_reply list \<Rightarrow> disturbances
     \<Rightarrow> write_end \<times> i32 option" where
  "monitor_run little W answer request child_pid waits d =
     run_monitor little W
       \<lparr>mo_errno = 0, mo_pipe2 = Inr (), mo_fork = Inr child_pid,
        mo_exec_pipe = \<lparr>p_bytes = w_sent (report_exec_error little (snd (exec_child answer request))
            \<lparr>w_sent = [], w_script = d_child d\<rparr>), p_open = False, p_script = d_exec d\<rparr>,
        mo_waits = waits\<rparr>
       \<lparr>w_sent = [], w_script = d_monitor d\<rparr>"

definition host_events :: "write_end \<times> i32 option \<Rightarrow> disturbances \<Rightarrow> read_end" where
  "host_events run d = \<lparr>p_bytes = w_sent (fst run), p_open = (snd run = None), p_script = d_host d\<rparr>"

definition host_spawn ::
    "bool \<Rightarrow> (i32 \<Rightarrow> string) \<Rightarrow> (OsString \<times> OsString) list \<Rightarrow> SpawnConfig \<Rightarrow> u8 list \<Rightarrow> i32
     \<Rightarrow> wait_reply list \<Rightarrow> read_end \<Rightarrow> ((PtyxError + 'st SupervisedChild) \<times> wait_reply list) option" where
  "host_spawn little strerror vars_os config tty_name monitor_pid waits events =
     process_linux_spawn little strerror vars_os config tty_name
       \<lparr>so_pipe2 = Inr (), so_fork = Inr monitor_pid, so_events = events, so_waits = waits\<rparr>"

text \<open>How a process ended, and the shell's convention for it.\<close>

datatype child_end = Exits_with i32 | Killed_by i32

fun shell_code :: "child_end \<Rightarrow> i32" where
  "shell_code (Exits_with code) = code"
| "shell_code (Killed_by signal) = 128 + signal"

text \<open>The documented meaning of the macros for a status.\<close>

fun ended :: "wait_macros \<Rightarrow> i32 \<Rightarrow> child_end \<Rightarrow> bool" where
  "ended W status (Exits_with code) \<longleftrightarrow> WIFEXITED W status \<and> WEXITSTATUS W status = code"
| "ended W status (Killed_by signal) \<longleftrightarrow>
     \<not> WIFEXITED W status \<and> WIFSIGNALED W status \<and> WTERMSIG W status = signal"

lemma wait_for_pid_ended:
  "list_all (\<lambda>r. r = Wait_fails EINTR) interruptions \<Longrightarrow> ended W status how \<Longrightarrow>
     wait_for_pid_raw W (interruptions @ Reaped status # rest) = Some (shell_code how, rest)"
  by (induction interruptions) (cases how; auto)+

lemma write_message_calm:
  "list_all step_calm (w_script w) \<Longrightarrow>
     \<exists>script. write_message_raw little tag value w =
         (True, \<lparr>w_sent = w_sent w @ message_bytes little \<lparr>mm_tag = tag, mm_value = value\<rparr>, w_script = script\<rparr>)
       \<and> list_all step_calm script"
  unfolding write_message_raw_def write_all_raw_def by (rule write_all_calm)

text \<open>What the monitor has sent, by the outcome of the child's \<open>exec\<close>.\<close>

lemma monitor_run_exec_failed:
  assumes "calm_run d" "snd (exec_child answer request) = Some errno"
  shows "w_sent (fst (monitor_run little W answer request child_pid waits d))
      = message_bytes little \<lparr>mm_tag = MONITOR_EXEC_ERROR, mm_value = errno\<rparr>"
    "snd (monitor_run little W answer request child_pid waits d)
      = map_option (\<lambda>_. 1) (wait_for_pid_raw W waits)"
proof -
  let ?w = "\<lparr>w_sent = [], w_script = d_child d\<rparr>"
  have sent: "w_sent (report_exec_error little (Some errno) ?w) = to_ne_bytes little errno"
    using write_all_calm [of "d_child d" "to_ne_bytes little errno" "[]"] assms(1)
    by (auto simp: report_exec_error_def write_i32_raw_def write_all_raw_def calm_run_def)
  let ?p = "\<lparr>p_bytes = to_ne_bytes little errno, p_open = False, p_script = d_exec d\<rparr>"
  obtain errno' p' where read: "read_i32_or_eof_raw little 0 0 ?p = Some ((1, errno', errno), p')"
    using read_i32_value [of ?p little errno "[]" 0 0] assms(1) by (auto simp: calm_def calm_run_def)
  obtain script where "write_message_raw little MONITOR_EXEC_ERROR errno \<lparr>w_sent = [], w_script = d_monitor d\<rparr>
      = (True, \<lparr>w_sent = message_bytes little \<lparr>mm_tag = MONITOR_EXEC_ERROR, mm_value = errno\<rparr>, w_script = script\<rparr>)"
    using write_message_calm [of "\<lparr>w_sent = [], w_script = d_monitor d\<rparr>" little MONITOR_EXEC_ERROR errno] assms(1)
    by (auto simp: calm_run_def)
  then show "w_sent (fst (monitor_run little W answer request child_pid waits d))
      = message_bytes little \<lparr>mm_tag = MONITOR_EXEC_ERROR, mm_value = errno\<rparr>"
    "snd (monitor_run little W answer request child_pid waits d)
      = map_option (\<lambda>_. 1) (wait_for_pid_raw W waits)"
    by (simp_all add: monitor_run_def run_monitor_def assms(2) sent read Let_def)
qed

lemma monitor_run_exec_ok:
  assumes "calm_run d" "snd (exec_child answer request) = None"
  shows "monitor_run little W answer request child_pid waits d =
    (let sent = message_bytes little \<lparr>mm_tag = MONITOR_PID, mm_value = child_pid\<rparr>;
         w = snd (write_message_raw little MONITOR_PID child_pid \<lparr>w_sent = [], w_script = d_monitor d\<rparr>) in
     case wait_for_pid_raw W waits of
       None \<Rightarrow> (w, None)
     | Some (code, _) \<Rightarrow> (snd (write_message_raw little MONITOR_EXIT code w), Some 0))"
proof -
  let ?p = "\<lparr>p_bytes = [], p_open = False, p_script = d_exec d\<rparr>"
  obtain errno' p' where "read_i32_or_eof_raw little 0 0 ?p = Some ((0, errno', 0), p')"
    using read_i32_eof [of ?p little 0 0] assms(1) by (auto simp: calm_def calm_run_def)
  then show ?thesis
    by (simp add: monitor_run_def run_monitor_def assms(2) report_exec_error_def Let_def)
qed

lemma monitor_run_sent:
  assumes "calm_run d" "snd (exec_child answer request) = None"
  shows "w_sent (fst (monitor_run little W answer request child_pid waits d)) =
      message_bytes little \<lparr>mm_tag = MONITOR_PID, mm_value = child_pid\<rparr> @
      (case wait_for_pid_raw W waits of
         None \<Rightarrow> [] | Some (code, _) \<Rightarrow> message_bytes little \<lparr>mm_tag = MONITOR_EXIT, mm_value = code\<rparr>)"
    "snd (monitor_run little W answer request child_pid waits d) =
      map_option (\<lambda>_. 0) (wait_for_pid_raw W waits)"
proof -
  let ?w = "\<lparr>w_sent = [], w_script = d_monitor d\<rparr>"
  obtain script where pid: "write_message_raw little MONITOR_PID child_pid ?w =
      (True, \<lparr>w_sent = message_bytes little \<lparr>mm_tag = MONITOR_PID, mm_value = child_pid\<rparr>, w_script = script\<rparr>)"
    "list_all step_calm script"
    using write_message_calm [of ?w little MONITOR_PID child_pid] assms(1) by (auto simp: calm_run_def)
  have more: "\<exists>script'. write_message_raw little MONITOR_EXIT code
      \<lparr>w_sent = message_bytes little \<lparr>mm_tag = MONITOR_PID, mm_value = child_pid\<rparr>, w_script = script\<rparr> =
      (True, \<lparr>w_sent = message_bytes little \<lparr>mm_tag = MONITOR_PID, mm_value = child_pid\<rparr> @
         message_bytes little \<lparr>mm_tag = MONITOR_EXIT, mm_value = code\<rparr>, w_script = script'\<rparr>)" for code
    using write_message_calm [of "\<lparr>w_sent = _, w_script = script\<rparr>" little MONITOR_EXIT code] pid(2) by auto
  have exit: "w_sent (snd (write_message_raw little MONITOR_EXIT code
      \<lparr>w_sent = message_bytes little \<lparr>mm_tag = MONITOR_PID, mm_value = child_pid\<rparr>, w_script = script\<rparr>)) =
      message_bytes little \<lparr>mm_tag = MONITOR_PID, mm_value = child_pid\<rparr> @
      message_bytes little \<lparr>mm_tag = MONITOR_EXIT, mm_value = code\<rparr>" for code
    using more [of code] by auto
  show "w_sent (fst (monitor_run little W answer request child_pid waits d)) =
      message_bytes little \<lparr>mm_tag = MONITOR_PID, mm_value = child_pid\<rparr> @
      (case wait_for_pid_raw W waits of
         None \<Rightarrow> [] | Some (code, _) \<Rightarrow> message_bytes little \<lparr>mm_tag = MONITOR_EXIT, mm_value = code\<rparr>)"
    "snd (monitor_run little W answer request child_pid waits d) =
      map_option (\<lambda>_. 0) (wait_for_pid_raw W waits)"
    by (auto simp: monitor_run_exec_ok [OF assms] pid exit Let_def split: option.splits)
qed

lemma calm_host_events: "calm_run d \<Longrightarrow> calm (host_events run d)"
  by (simp add: host_events_def calm_def calm_run_def)

text \<open>Spawning over an event pipe that starts with the child's PID.\<close>

lemma host_spawn_pid:
  assumes "calm events" "p_bytes events = message_bytes little \<lparr>mm_tag = MONITOR_PID, mm_value = pid\<rparr> @ rest"
    and "SpawnRequest_new vars_os config tty_name = Inr request"
  obtains child where
    "host_spawn little strerror vars_os config tty_name monitor_pid waits events = Some (Inr child, waits)"
    "sv_pid child = pid" "sv_monitor_pid child = monitor_pid" "sv_cached child = None"
    "calm (sv_events child)" "p_bytes (sv_events child) = rest" "p_open (sv_events child) = p_open events"
proof -
  obtain p' where p': "read_message little strerror SpawnFailed events
      = Some (Inr \<lparr>mm_tag = MONITOR_PID, mm_value = pid\<rparr>, p')" "p_bytes p' = rest"
    "p_open p' = p_open events" "calm p'"
    using assms(1,2) by (rule read_message_calm)
  show ?thesis
    by (rule that [of "\<lparr>sv_pid = pid, sv_monitor_pid = monitor_pid, sv_events = p', sv_cached = None\<rparr>"])
      (simp_all add: host_spawn_def process_linux_spawn_def assms(3) p' Let_def)
qed

lemma read_exit_status_exit:
  assumes "calm (sv_events child)"
    and "p_bytes (sv_events child) = message_bytes little \<lparr>mm_tag = MONITOR_EXIT, mm_value = code\<rparr> @ rest"
    and "reap_pid waits = Some waits'"
  obtains child' where "read_exit_status little strerror with_exit_code waits child =
      Some (Inr (with_exit_code code), child', waits')"
    "sv_cached child' = Some (with_exit_code code)" "sv_pid child' = sv_pid child"
proof -
  obtain p' where "read_message little strerror WaitFailed (sv_events child)
      = Some (Inr \<lparr>mm_tag = MONITOR_EXIT, mm_value = code\<rparr>, p')"
    using assms(1,2) by (rule read_message_calm)
  then show ?thesis
    by (intro that [of "child\<lparr>sv_events := p', sv_cached := Some (with_exit_code code)\<rparr>"])
      (simp_all add: read_exit_status.simps Let_def assms(3))
qed

lemma monitor_delivers:
  fixes with_exit_code :: "u32 \<Rightarrow> 'st"
  assumes "calm_run d" "SpawnRequest_new vars_os config tty_name = Inr request"
    and "snd (exec_child answer request) = None"
    and "list_all (\<lambda>r. r = Wait_fails EINTR) interruptions" "ended W status how"
    and "reap_pid waits = Some waits'"
    and run_def: "run = monitor_run little W answer request child_pid (interruptions @ [Reaped status]) d"
  obtains child child' where "snd run = Some 0"
    "host_spawn little strerror vars_os config tty_name monitor_pid waits (host_events run d) = Some (Inr child, waits)"
    "sv_pid child = child_pid" "sv_cached child = None"
    "read_exit_status little strerror with_exit_code waits child =
      Some (Inr (with_exit_code (shell_code how)), child', waits')"
    "sv_cached child' = Some (with_exit_code (shell_code how))"
proof -
  have waited: "wait_for_pid_raw W (interruptions @ [Reaped status]) = Some (shell_code how, [])"
    using assms(4,5) by (rule wait_for_pid_ended)
  note sent = monitor_run_sent [OF assms(1,3), where waits = "interruptions @ [Reaped status]"]
  have exit: "snd run = Some 0"
    using sent(2) waited by (simp add: run_def)
  have bytes: "p_bytes (host_events run d) = message_bytes little \<lparr>mm_tag = MONITOR_PID, mm_value = child_pid\<rparr>
      @ message_bytes little \<lparr>mm_tag = MONITOR_EXIT, mm_value = shell_code how\<rparr> @ []"
    using sent(1) waited by (simp add: host_events_def run_def)
  obtain child :: "'st SupervisedChild" where child:
    "host_spawn little strerror vars_os config tty_name monitor_pid waits (host_events run d) = Some (Inr child, waits)"
    "sv_pid child = child_pid" "sv_cached child = None" "calm (sv_events child)"
    "p_bytes (sv_events child) = message_bytes little \<lparr>mm_tag = MONITOR_EXIT, mm_value = shell_code how\<rparr> @ []"
    using host_spawn_pid [OF calm_host_events [OF assms(1)] bytes assms(2)] by metis
  obtain child' where child':
    "read_exit_status little strerror with_exit_code waits child =
      Some (Inr (with_exit_code (shell_code how)), child', waits')"
    "sv_cached child' = Some (with_exit_code (shell_code how))"
    using read_exit_status_exit [OF child(4,5) assms(6)] by metis
  show thesis
    using exit child(1-3) child' by (rule that)
qed

text \<open>
  C6. The exit of the program reaches the host. However the four pipe ends split and interrupt
  transfers and however often \<open>waitpid\<close> is interrupted: when the program's \<open>exec\<close> succeeds and it
  ends, the monitor exits with 0, \<open>spawn\<close> returns a child with the program's PID, and \<open>wait\<close> returns
  its exit code, or 128 plus the number of the signal that killed it. The status is kept: every later
  \<open>wait\<close> and \<open>try_wait\<close> returns it again without a system call.
\<close>

theorem child_exit_is_delivered:
  fixes with_exit_code :: "u32 \<Rightarrow> 'st"
  assumes "calm_run d" "SpawnRequest_new vars_os config tty_name = Inr request"
    and "snd (exec_child answer request) = None"
    and "list_all (\<lambda>r. r = Wait_fails EINTR) interruptions" "ended W status how"
    and "reap_pid waits = Some waits'"
    and run_def: "run = monitor_run little W answer request child_pid (interruptions @ [Reaped status]) d"
  shows "snd run = Some 0 \<and>
    (\<exists>child child'.
       host_spawn little strerror vars_os config tty_name monitor_pid waits (host_events run d)
         = Some (Inr child, waits)
     \<and> sv_pid child = child_pid
     \<and> child_wait little strerror with_exit_code waits child
         = Some (Inr (with_exit_code (shell_code how)), child', waits')
     \<and> child_wait little strerror with_exit_code later child'
         = Some (Inr (with_exit_code (shell_code how)), child', later)
     \<and> child_try_wait little strerror with_exit_code poll later child'
         = Some (Inr (Some (with_exit_code (shell_code how))), child', later))"
  by (rule monitor_delivers [OF assms, of strerror monitor_pid with_exit_code])
    (auto simp: child_wait_def child_try_wait_def)

text \<open>
  C20. A failed \<open>exec\<close> is a failed spawn. When a step between \<open>fork\<close> and \<open>exec\<close> fails with an error
  number, that number arrives as it is: \<open>spawn\<close> returns \<open>SpawnFailed\<close> with the system's message for
  it, after both the child and the monitor were reaped.
\<close>

theorem exec_failure_is_spawn_failure:
  assumes "calm_run d" "SpawnRequest_new vars_os config tty_name = Inr request"
    and "snd (exec_child answer request) = Some errno"
    and "list_all (\<lambda>r. r = Wait_fails EINTR) interruptions" "ended W status how"
    and "reap_pid waits = Some waits'"
    and run_def: "run = monitor_run little W answer request child_pid (interruptions @ [Reaped status]) d"
  shows "snd run = Some 1 \<and>
    host_spawn little strerror vars_os config tty_name monitor_pid waits (host_events run d)
      = Some (Inl (PtyxError_io SpawnFailed (from_raw_os_error strerror errno)), waits')"
proof -
  note sent = monitor_run_exec_failed [OF assms(1,3), where waits = "interruptions @ [Reaped status]"]
  have bytes: "p_bytes (host_events run d)
      = message_bytes little \<lparr>mm_tag = MONITOR_EXEC_ERROR, mm_value = errno\<rparr> @ []"
    using sent(1) by (simp add: host_events_def run_def)
  obtain p' where "read_message little strerror SpawnFailed (host_events run d)
      = Some (Inr \<lparr>mm_tag = MONITOR_EXEC_ERROR, mm_value = errno\<rparr>, p')"
    using calm_host_events [OF assms(1)] bytes by (rule read_message_calm)
  then show ?thesis
    using sent(2) wait_for_pid_ended [OF assms(4,5)]
    by (simp add: run_def host_spawn_def process_linux_spawn_def assms(2,6) MONITOR_PID_def MONITOR_EXEC_ERROR_def)
qed

text \<open>
  C31. No exit is reported before it happened. While the program is running, \<open>spawn\<close> has already
  returned its PID, \<open>try_wait\<close> reports nothing (the event pipe is empty, so \<open>poll\<close> counts no ready
  descriptor), and \<open>wait\<close> blocks; the child handle is unchanged.
\<close>

theorem no_status_before_exit:
  fixes with_exit_code :: "u32 \<Rightarrow> 'st"
  assumes "calm_run d" "SpawnRequest_new vars_os config tty_name = Inr request"
    and "snd (exec_child answer request) = None"
    and "list_all (\<lambda>r. r = Wait_fails EINTR) interruptions"
    and run_def: "run = monitor_run little W answer request child_pid interruptions d"
  shows "snd run = None \<and>
    (\<exists>child.
       host_spawn little strerror vars_os config tty_name monitor_pid waits (host_events run d)
         = Some (Inr child, waits)
     \<and> sv_pid child = child_pid \<and> p_bytes (sv_events child) = []
     \<and> child_try_wait little strerror with_exit_code (Inr 0) waits child = Some (Inr None, child, waits)
     \<and> child_wait little strerror with_exit_code waits child = None)"
proof -
  have waited: "wait_for_pid_raw W interruptions = None"
    using assms(4) by (induction interruptions) auto
  note sent = monitor_run_sent [OF assms(1,3), where waits = interruptions]
  have bytes: "p_bytes (host_events run d) = message_bytes little \<lparr>mm_tag = MONITOR_PID, mm_value = child_pid\<rparr> @ []"
    using sent(1) waited by (simp add: host_events_def run_def)
  obtain child :: "'st SupervisedChild" where child:
    "host_spawn little strerror vars_os config tty_name monitor_pid waits (host_events run d) = Some (Inr child, waits)"
    "sv_pid child = child_pid" "sv_cached child = None" "calm (sv_events child)"
    "p_bytes (sv_events child) = []" "p_open (sv_events child) = p_open (host_events run d)"
    using host_spawn_pid [OF calm_host_events [OF assms(1)] bytes assms(2)] by metis
  have "p_open (sv_events child)"
    using child(6) sent(2) waited by (simp add: host_events_def run_def)
  then have "read_message little strerror WaitFailed (sv_events child) = None"
    using read_message_blocked [OF child(4)] child(5) by simp
  then show ?thesis
    using child(1-3,5) sent(2) waited
    by (auto simp: run_def child_wait_def child_try_wait_def read_exit_status.simps)
qed

lemma read_exit_status_closed:
  "\<not> p_open (sv_events child) \<Longrightarrow> reap_pid waits \<noteq> None \<Longrightarrow>
     read_exit_status little strerror with_exit_code waits child \<noteq> None"
proof (induction little strerror with_exit_code waits child rule: read_exit_status.induct)
  case (1 little strerror with_exit_code waits child)
  obtain r events where read: "read_message little strerror WaitFailed (sv_events child) = Some (r, events)"
      "\<not> p_open events"
    using read_message_closed [OF 1(2)] by metis
  show ?case
  proof (cases r)
    case (Inr message)
    then show ?thesis
      using 1(1) [OF read(1)] 1(3) read
      by (auto simp: read_exit_status.simps [of little strerror with_exit_code waits child] Let_def)
  qed (use read in \<open>simp add: read_exit_status.simps\<close>)
qed

text \<open>
  C32. The death of the monitor is noticed. When the event pipe is closed, \<open>spawn\<close> and \<open>wait\<close> return
  whatever bytes are in it and however they are disturbed, as soon as the dead monitor can be reaped.
  When it was killed before it had sent all of the exit code, so that less than a message is left,
  \<open>wait\<close> fails with \<open>unexpected end of file\<close> instead of making up an exit code.
\<close>

theorem monitor_death_is_noticed:
  fixes with_exit_code :: "u32 \<Rightarrow> 'st" and child :: "'st SupervisedChild"
  assumes "\<not> p_open events" "reap_pid waits = Some waits'"
    and "sv_events child = events" "sv_cached child = None"
  shows "(host_spawn little strerror vars_os config tty_name monitor_pid waits events
        :: ((PtyxError + 'st SupervisedChild) \<times> wait_reply list) option) \<noteq> None
    \<and> child_wait little strerror with_exit_code waits child \<noteq> None
    \<and> (calm events \<and> length (p_bytes events) < 8 \<longrightarrow>
        (\<exists>child'. child_wait little strerror with_exit_code waits child
          = Some (Inl (io_error_new Io_Other ''unexpected end of file''), child', waits)))"
proof (intro conjI impI)
  obtain r events' where "read_message little strerror SpawnFailed events = Some (r, events')"
    using read_message_closed [OF assms(1)] by metis
  then show "(host_spawn little strerror vars_os config tty_name monitor_pid waits events
        :: ((PtyxError + 'st SupervisedChild) \<times> wait_reply list) option) \<noteq> None"
    by (auto simp: host_spawn_def process_linux_spawn_def assms(2) Let_def split: sum.splits)
  show "child_wait little strerror with_exit_code waits child \<noteq> None"
    using read_exit_status_closed [of child waits little strerror with_exit_code] assms
    by (simp add: child_wait_def)
next
  assume short: "calm events \<and> length (p_bytes events) < 8"
  then have "\<exists>p'. read_message little strerror WaitFailed events
      = Some (Inl (PtyxError_io WaitFailed UnexpectedEof_error), p')"
    using read_message_short [where p = events and little = little and kind = WaitFailed and strerror = strerror] assms(1) by (auto split: option.splits)
  then show "\<exists>child'. child_wait little strerror with_exit_code waits child
      = Some (Inl (io_error_new Io_Other ''unexpected end of file''), child', waits)"
    using assms by (auto simp: child_wait_def read_exit_status.simps UnexpectedEof_error_def)
qed

section \<open>Before the program runs\<close>

text \<open>Whether a call was answered as its caller wants; the answers of the others are not looked at.\<close>

fun went_well :: "kernel \<Rightarrow> child_call \<Rightarrow> bool" where
  "went_well answer (Sigaction_default signal) = True"
| "went_well answer Sigprocmask_empty = True"
| "went_well answer (Close_fd fd) = True"
| "went_well answer call = is_ok (answer call)"

text \<open>The calls of a process that succeeds, when its terminal is opened as \<open>tty_fd\<close>.\<close>

definition exec_plan :: "SpawnRequest \<Rightarrow> i32 \<Rightarrow> child_call list" where
  "exec_plan request tty_fd =
     map Sigaction_default [SIGCHLD, SIGHUP, SIGINT, SIGQUIT, SIGTERM, SIGALRM] @
     [Sigprocmask_empty, Setsid, Open_rdwr (sr_tty_name request), Ioctl_TIOCSCTTY tty_fd,
      Dup2 tty_fd 0, Dup2 tty_fd 1, Dup2 tty_fd 2] @
     (if sint tty_fd > 2 then [Close_fd tty_fd] else []) @
     (case sr_cwd request of None \<Rightarrow> [] | Some cwd \<Rightarrow> [Chdir cwd]) @
     [Execvpe (sr_executable request) (sr_argv_ptrs request) (sr_env_ptrs request)]"

lemmas exec_child_eval =
  exec_child_def exec_plan_def checked_def ignored_def reset_signal_raw_def STDIN_FILENO_def
  STDOUT_FILENO_def STDERR_FILENO_def Let_def

text \<open>
  C30. The program starts in a clean session on its terminal, or not at all. When it takes over, the
  process had reset its signals, become the leader of a new session, opened the terminal, made it
  the controlling one and its standard input, output and error, closed the extra descriptor and
  changed to the working directory, in this order and each successfully. Otherwise the calls are the
  beginning of that plan, the last one failed with the error number that is reported, and those
  before it went well: nothing is done after a failure.
\<close>

theorem program_starts_on_its_terminal:
  "case exec_child answer request of
     (calls, None) \<Rightarrow> \<exists>tty_fd. answer (Open_rdwr (sr_tty_name request)) = Inr tty_fd
       \<and> calls = exec_plan request tty_fd \<and> list_all (went_well answer) calls
   | (calls, Some errno) \<Rightarrow> (\<exists>tty_fd. prefix calls (exec_plan request tty_fd)) \<and> calls \<noteq> []
       \<and> answer (last calls) = Inl errno \<and> list_all (went_well answer) (butlast calls)"
proof (cases "answer Setsid")
  case Setsid: (Inr sid)
  show ?thesis
  proof (cases "answer (Open_rdwr (sr_tty_name request))")
    case Open: (Inr tty_fd)
    show ?thesis
      using Setsid Open
      by (cases "answer (Ioctl_TIOCSCTTY tty_fd)"; cases "answer (Dup2 tty_fd 0)";
          cases "answer (Dup2 tty_fd 1)"; cases "answer (Dup2 tty_fd 2)"; cases "sr_cwd request")
        (auto simp: exec_child_eval split: sum.splits intro!: exI [of _ tty_fd])
  qed (use Setsid in \<open>auto simp: exec_child_eval\<close>)
qed (auto simp: exec_child_eval)

text \<open>
  Messages survive the pipe. Messages of any tag and value (every 32-bit value included),
  written one after the other through partial and interrupted writes, are received as the same
  messages in the same order through reads split at other places, on machines of either endianness.
\<close>

theorem messages_survive_the_pipe:
  assumes "list_all step_calm writes" "list_all step_calm reads"
  shows "fst (receive (read_exact_fd strerror 8) (message_of little) (length messages)
      \<lparr>p_bytes = w_sent (fold (\<lambda>m w. snd (write_message_raw little (mm_tag m) (mm_value m) w)) messages
          \<lparr>w_sent = [], w_script = writes\<rparr>), p_open = still_open, p_script = reads\<rparr>) = messages"
proof -
  have sent: "w_sent (fold (\<lambda>m w. snd (write_message_raw little (mm_tag m) (mm_value m) w)) messages w)
      = w_sent w @ concat (map (message_bytes little) messages)"
    if "list_all step_calm (w_script w)" for w
    using that
  proof (induction messages arbitrary: w)
    case (Cons m messages)
    have m: "\<lparr>mm_tag = mm_tag m, mm_value = mm_value m\<rparr> = m"
      by simp
    obtain script where "write_message_raw little (mm_tag m) (mm_value m) w
        = (True, \<lparr>w_sent = w_sent w @ message_bytes little m, w_script = script\<rparr>)" "list_all step_calm script"
      using write_message_calm [OF Cons.prems, of little "mm_tag m" "mm_value m"] unfolding m by blast
    then show ?case
      using Cons.IH [of "\<lparr>w_sent = w_sent w @ message_bytes little m, w_script = script\<rparr>"] by simp
  qed simp
  show ?thesis
    using message_pipe.receive_all [of "\<lparr>p_bytes = concat (map (message_bytes little) messages),
        p_open = still_open, p_script = reads\<rparr>" little messages "[]" strerror] assms(2)
    by (auto simp: sent assms(1) calm_def)
qed

section \<open>Examples\<close>

text \<open>A shell in a clear environment, Linux's encoding of a wait status, and some disturbances.\<close>

definition demo_request :: SpawnRequest where
  "demo_request =
     \<lparr>sr_executable = [115, 104], sr_argv = [[115, 104]], sr_argv_ptrs = [Some [115, 104], None],
      sr_env = [], sr_env_ptrs = [None], sr_cwd = None, sr_tty_name = [47, 116]\<rparr>"

definition demo_kernel :: "i32 + i32 \<Rightarrow> kernel" where
  "demo_kernel exec call =
    (case call of Open_rdwr _ \<Rightarrow> Inr 3 | Execvpe _ _ _ \<Rightarrow> exec | _ \<Rightarrow> Inr 0)"

definition linux_macros :: wait_macros where
  "linux_macros =
     \<lparr>WIFEXITED = (\<lambda>s. s AND 0x7F = 0), WEXITSTATUS = (\<lambda>s. drop_bit 8 s AND 0xFF),
      WIFSIGNALED = (\<lambda>s. s AND 0x7F \<noteq> 0 \<and> s AND 0x7F \<noteq> 0x7F), WTERMSIG = (\<lambda>s. s AND 0x7F)\<rparr>"

definition demo_disturbances :: disturbances where
  "demo_disturbances =
     \<lparr>d_child = [At_most 3, Fails EINTR], d_exec = [Fails EINTR, At_most 1],
      d_monitor = [At_most 5, Fails EINTR, At_most 0], d_host = [At_most 2, At_most 7, Fails EINTR]\<rparr>"

lemma demo_request: "SpawnRequest_new [] (demo_spawn Clear []) [47, 116] = Inr demo_request"
  by code_simp

lemma demo_disturbances: "calm_run demo_disturbances"
  by code_simp

lemma demo_exec:
  "snd (exec_child (demo_kernel reply) demo_request) = (case reply of Inl e \<Rightarrow> Some e | Inr _ \<Rightarrow> None)"
  by (cases reply) (simp_all add: exec_child_eval demo_kernel_def demo_request_def)

lemma demo_ended: "ended linux_macros 9 (Killed_by 9)" "ended linux_macros 0x7F00 (Exits_with 127)"
  by code_simp+

text \<open>A program that is killed by signal 9 while \<open>waitpid\<close> is interrupted once gives 137.\<close>

theorem child_exit_is_delivered_witness:
  "snd (monitor_run True linux_macros (demo_kernel (Inr 0)) demo_request 77
      ([Wait_fails EINTR] @ [Reaped 9]) demo_disturbances) = Some 0 \<and>
   (\<exists>child child'.
     host_spawn True (\<lambda>_. []) [] (demo_spawn Clear []) [47, 116] 76 [Reaped 0]
       (host_events (monitor_run True linux_macros (demo_kernel (Inr 0)) demo_request 77
          ([Wait_fails EINTR] @ [Reaped 9]) demo_disturbances) demo_disturbances) = Some (Inr child, [Reaped 0])
   \<and> sv_pid child = 77
   \<and> child_wait True (\<lambda>_. []) (\<lambda>c. c) [Reaped 0] child = Some (Inr (shell_code (Killed_by 9)), child', [])
   \<and> child_wait True (\<lambda>_. []) (\<lambda>c. c) [] child' = Some (Inr (shell_code (Killed_by 9)), child', [])
   \<and> child_try_wait True (\<lambda>_. []) (\<lambda>c. c) (Inr 0) [] child' = Some (Inr (Some (shell_code (Killed_by 9))), child', []))
   \<and> shell_code (Killed_by 9) = 137"
  by (rule conjI [THEN conj_assoc [THEN iffD1]],
      rule child_exit_is_delivered [OF demo_disturbances demo_request _ _ demo_ended(1) _ refl])
    (simp_all add: demo_exec)

text \<open>An \<open>exec\<close> that fails with \<open>ENOENT\<close>.\<close>

theorem exec_failure_is_spawn_failure_witness:
  "host_spawn False (\<lambda>_. ''none'') [] (demo_spawn Clear []) [47, 116] 76 [Reaped 256]
       (host_events (monitor_run False linux_macros (demo_kernel (Inl 2)) demo_request 77
          ([] @ [Reaped 0x7F00]) demo_disturbances) demo_disturbances)
     = Some (Inl (PtyxError_io SpawnFailed (from_raw_os_error (\<lambda>_. ''none'') 2)), [])"
  by (rule exec_failure_is_spawn_failure [OF demo_disturbances demo_request _ _ demo_ended(2) _ refl, THEN conjunct2])
    (simp_all add: demo_exec)

theorem no_status_before_exit_witness:
  "\<exists>child. host_spawn True (\<lambda>_. []) [] (demo_spawn Clear []) [47, 116] 76 []
       (host_events (monitor_run True linux_macros (demo_kernel (Inr 0)) demo_request 77
          [Wait_fails EINTR] demo_disturbances) demo_disturbances) = Some (Inr child, [])
   \<and> child_try_wait True (\<lambda>_. []) (\<lambda>c. c) (Inr 0) [] child = Some (Inr None, child, [])
   \<and> child_wait True (\<lambda>_. []) (\<lambda>c. c) [] child = None"
  using no_status_before_exit [OF demo_disturbances demo_request _ _ refl,
      of "demo_kernel (Inr 0)" "[Wait_fails EINTR]" True linux_macros 77 "\<lambda>_. []" 76 "[]" "\<lambda>c. c"]
  by (auto simp: demo_exec)

text \<open>The monitor was killed after three bytes of its last message.\<close>

theorem monitor_death_is_noticed_witness:
  "\<exists>child'. child_wait True (\<lambda>_. []) (\<lambda>c. c) [Reaped 9]
      \<lparr>sv_pid = 77, sv_monitor_pid = 76,
       sv_events = \<lparr>p_bytes = [2, 0, 0], p_open = False, p_script = [Fails EINTR]\<rparr>, sv_cached = None\<rparr>
    = Some (Inl (io_error_new Io_Other ''unexpected end of file''), child', [Reaped 9])"
  using monitor_death_is_noticed
    [of "\<lparr>p_bytes = [2, 0, 0], p_open = False, p_script = [Fails EINTR]\<rparr>" "[Reaped 9]" "[]"
      "\<lparr>sv_pid = 77, sv_monitor_pid = 76,
        sv_events = \<lparr>p_bytes = [2, 0, 0], p_open = False, p_script = [Fails EINTR]\<rparr>, sv_cached = None\<rparr>"
      True "\<lambda>_. []" _ _ _ _ "\<lambda>c. c"]
  by (auto simp: calm_def)

theorem messages_survive_the_pipe_witness:
  "fst (receive (read_exact_fd (\<lambda>_. []) 8) (message_of False) 2
      \<lparr>p_bytes = w_sent (fold (\<lambda>m w. snd (write_message_raw False (mm_tag m) (mm_value m) w))
          [\<lparr>mm_tag = 1, mm_value = 77\<rparr>, \<lparr>mm_tag = 2, mm_value = - 1\<rparr>]
          \<lparr>w_sent = [], w_script = [At_most 3, Fails EINTR]\<rparr>), p_open = True, p_script = [At_most 5, Fails EINTR]\<rparr>)
    = [\<lparr>mm_tag = 1, mm_value = 77\<rparr>, \<lparr>mm_tag = 2, mm_value = - 1\<rparr>]"
  using messages_survive_the_pipe [where messages = "[\<lparr>mm_tag = 1, mm_value = 77\<rparr>, \<lparr>mm_tag = 2, mm_value = - 1\<rparr>]"
      and writes = "[At_most 3, Fails EINTR]" and reads = "[At_most 5, Fails EINTR]" and little = False
      and strerror = "\<lambda>_. []" and still_open = True]
  by (simp add: numeral_2_eq_2 del: fold.simps receive.simps)

end
