(* ===== verification/Process.thy ===== *)
theory Process
  imports Monitor
begin

text \<open>
  The child process as a session sees it: \<open>native/src/process.rs\<close>, and \<open>SessionInner\<close> of
  \<open>native/src/session.rs\<close>. The compile-time platform is an argument. A child handle of
  \<open>portable_pty\<close> is a parameter of type \<open>'c\<close> with the operations of its trait; on Linux it is
  \<open>SupervisedChild\<close> of \<open>Monitor\<close>. A call that blocks for good has the result \<open>None\<close>.
\<close>

section \<open>Data\<close>

datatype platform = Linux | MacOS | Windows

definition unix :: "platform \<Rightarrow> bool" where
  "unix plat \<longleftrightarrow> plat \<noteq> Windows"

text \<open>
  \<open>WaitState\<close>: the result of waiting for the child, and the threads asleep in \<open>Condvar::wait\<close>.
\<close>

record WaitState =
  ws_result :: "(PtyxError + i32) option mutex"
  ws_asleep :: "nat set"

text \<open>
  The shared state of a session. The PTY master is a parameter of type \<open>'m\<close>; what the boxed
  reader, writer and killer do is the reply scripts of the components that call them. The exit
  watcher is its \<open>kqueue\<close> descriptor (macOS only).
\<close>

record ('m, 'c) SessionInner =
  si_master :: "'m mutex"
  si_reader :: "unit mutex"
  si_writer :: "unit mutex"
  si_child :: "'c option mutex"
  si_killer :: "unit mutex"
  si_exit_watcher :: "i32 option"
  si_wait_state :: WaitState
  si_read_busy :: bool
  si_write_busy :: bool
  si_closed :: bool
  si_child_pid :: "u32 option"
  si_tty_name :: "u8 list option"

text \<open>The trait \<open>Child\<close> and its exit status.\<close>

record ('c, 'st) child_trait =
  ct_wait :: "'c \<Rightarrow> (io_error + 'st) option"
  ct_process_id :: "'c \<Rightarrow> u32 option"
  ct_exit_code :: "'st \<Rightarrow> u32"

section \<open>The wait state\<close>

definition wait_poisoned_error :: PtyxError where
  "wait_poisoned_error = PtyxError_new Error ''wait state lock poisoned''"

definition WaitState_new :: WaitState where
  "WaitState_new = \<lparr>ws_result = new_mutex None, ws_asleep = {}\<rparr>"

definition is_ready :: "WaitState \<Rightarrow> PtyxError + bool" where
  "is_ready ws = and_then (lock wait_poisoned_error (ws_result ws)) (\<lambda>result. Inr (result \<noteq> None))"

text \<open>
  One pass of \<open>wait\<close> by a thread: it returns the result, or falls asleep with the lock released.
  A wake-up, spurious or not, runs the next pass.
\<close>

definition wait_pass :: "nat \<Rightarrow> WaitState \<Rightarrow> (PtyxError + i32) option \<times> WaitState" where
  "wait_pass thread ws =
    (case lock wait_poisoned_error (ws_result ws) of
       Inl error \<Rightarrow> (Some (Inl error), ws\<lparr>ws_asleep := ws_asleep ws - {thread}\<rparr>)
     | Inr (Some result) \<Rightarrow> (Some result, ws\<lparr>ws_asleep := ws_asleep ws - {thread}\<rparr>)
     | Inr None \<Rightarrow> (None, ws\<lparr>ws_asleep := insert thread (ws_asleep ws)\<rparr>))"

definition complete :: "PtyxError + i32 \<Rightarrow> WaitState \<Rightarrow> WaitState" where
  "complete next_result ws =
    (case lock () (ws_result ws) of
       Inl _ \<Rightarrow> ws
     | Inr result \<Rightarrow>
         \<lparr>ws_result = (if result = None then set_guarded (Some next_result) (ws_result ws) else ws_result ws),
          ws_asleep = {}\<rparr>)"

interpretation wait_cell: write_once complete "\<lambda>ws. guarded (ws_result ws)" "\<lambda>ws. \<not> poisoned (ws_result ws)"
  by unfold_locales (auto simp: complete_def lock_def)

text \<open>What threads do with a wait state.\<close>

datatype wait_action = Wait_by nat | Complete_with "PtyxError + i32"

fun wait_act :: "wait_action \<Rightarrow> WaitState \<Rightarrow> WaitState" where
  "wait_act (Wait_by thread) ws = snd (wait_pass thread ws)"
| "wait_act (Complete_with result) ws = complete result ws"

fun completions :: "wait_action list \<Rightarrow> (PtyxError + i32) list" where
  "completions [] = []"
| "completions (Wait_by thread # acts) = completions acts"
| "completions (Complete_with result # acts) = result # completions acts"

definition wait_settled :: "WaitState \<Rightarrow> bool" where
  "wait_settled ws \<longleftrightarrow> \<not> poisoned (ws_result ws) \<and> (guarded (ws_result ws) \<noteq> None \<longrightarrow> ws_asleep ws = {})"

lemma wait_act_settled: "wait_settled ws \<Longrightarrow> wait_settled (wait_act a ws)"
  by (cases a) (auto simp: wait_settled_def wait_pass_def complete_def lock_def split: option.splits)

lemma wait_act_get:
  "wait_settled ws \<Longrightarrow> guarded (ws_result (wait_act a ws)) =
     (case a of Wait_by _ \<Rightarrow> guarded (ws_result ws)
      | Complete_with r \<Rightarrow> guarded (ws_result (complete r ws)))"
  by (cases a) (auto simp: wait_settled_def wait_pass_def lock_def split: option.splits)

lemma wait_run:
  "wait_settled ws \<Longrightarrow> wait_settled (fold wait_act acts ws)
     \<and> guarded (ws_result (fold wait_act acts ws)) =
       (case guarded (ws_result ws) of Some r \<Rightarrow> Some r
        | None \<Rightarrow> (case completions acts of [] \<Rightarrow> None | r # _ \<Rightarrow> Some r))"
proof (induction acts arbitrary: ws)
  case (Cons a acts)
  have "guarded (ws_result (wait_act a ws)) =
      (case guarded (ws_result ws) of Some r \<Rightarrow> Some r
       | None \<Rightarrow> (case a of Wait_by _ \<Rightarrow> None | Complete_with r \<Rightarrow> Some r))"
    using wait_act_get [OF Cons.prems, of a] Cons.prems wait_cell.put_first wait_cell.put_later
    by (cases a) (auto simp: wait_settled_def split: option.splits)
  then show ?case
    using Cons.IH [OF wait_act_settled [OF Cons.prems, of a]]
    by (cases a) (auto split: option.splits list.splits)
qed (simp split: option.splits)

text \<open>
  C15. Everybody who waits for the child learns the same result, and nobody sleeps through it. However
  waits and completions by any threads interleave: the first completion decides the result, later
  ones change nothing, \<open>is_ready\<close> holds from then on, every \<open>wait\<close> returns that result and not before
  there is one, and once there is a result no thread is asleep.
\<close>

theorem wait_result_is_shared:
  fixes acts :: "wait_action list"
  defines "ws \<equiv> fold wait_act acts WaitState_new"
  shows "is_ready ws = Inr (completions acts \<noteq> [])
    \<and> fst (wait_pass thread ws) = (case completions acts of [] \<Rightarrow> None | result # _ \<Rightarrow> Some result)
    \<and> (completions acts = [] \<or> ws_asleep ws = {})"
  using wait_run [of WaitState_new acts]
  by (auto simp: ws_def wait_settled_def WaitState_new_def is_ready_def wait_pass_def new_mutex_def lock_def
      split: list.splits)

section \<open>Exit codes\<close>

text \<open>\<open>exit_code() as i32\<close> keeps the bits.\<close>

definition exit_code :: "('c, 'st) child_trait \<Rightarrow> 'st \<Rightarrow> i32" where
  "exit_code trait exit = ct_exit_code trait exit"

definition exit_code_from_wait_status :: "wait_macros \<Rightarrow> i32 \<Rightarrow> i32" where
  "exit_code_from_wait_status W status =
    (if sint status \<le> 255 then status
     else if WIFEXITED W status then WEXITSTATUS W status
     else if WIFSIGNALED W status then 128 + WTERMSIG W status
     else 0)"

text \<open>
  Linux and macOS encode the end of a process in the same way: the exit code in the second byte, or
  the signal in the lowest seven bits (with bit 7 for a core dump).
\<close>

definition exited_status :: "u8 \<Rightarrow> i32" where
  "exited_status code = push_bit 8 (ucast code)"

definition killed_status :: "u8 \<Rightarrow> bool \<Rightarrow> i32" where
  "killed_status signal core = (ucast signal AND 0x7F) OR (if core then 0x80 else 0)"

definition unix_macros :: "wait_macros \<Rightarrow> bool" where
  "unix_macros W \<longleftrightarrow>
     (\<forall>s. WIFEXITED W s \<longleftrightarrow> s AND 0x7F = 0) \<and> (\<forall>s. WEXITSTATUS W s = drop_bit 8 s AND 0xFF)
     \<and> (\<forall>s. WIFSIGNALED W s \<longleftrightarrow> s AND 0x7F \<noteq> 0 \<and> s AND 0x7F \<noteq> 0x7F) \<and> (\<forall>s. WTERMSIG W s = s AND 0x7F)"

section \<open>The exit watcher\<close>

text \<open>\<open>kqueue\<close> and \<open>kevent\<close> answer an error number or a value; \<open>Drop\<close> closes the descriptor.\<close>

definition ExitWatcher_new :: "(i32 \<Rightarrow> string) \<Rightarrow> i32 + i32 \<Rightarrow> (i32 \<Rightarrow> i32 + unit) \<Rightarrow> PtyxError + i32" where
  "ExitWatcher_new strerror kqueue_reply register =
    (case kqueue_reply of
       Inl e \<Rightarrow> Inl (PtyxError_io NativeError (from_raw_os_error strerror e))
     | Inr kqueue \<Rightarrow>
         (case register kqueue of
            Inl e \<Rightarrow> Inl (PtyxError_io NativeError (from_raw_os_error strerror e))
          | Inr _ \<Rightarrow> Inr kqueue))"

text \<open>The event that \<open>kevent\<close> waits for carries the wait status of the child.\<close>

definition ExitWatcher_wait ::
    "(i32 \<Rightarrow> string) \<Rightarrow> wait_macros \<Rightarrow> (i32 + i32) option \<Rightarrow> (PtyxError + i32) option" where
  "ExitWatcher_wait strerror W event =
     map_option (\<lambda>reply. case reply of
         Inl e \<Rightarrow> Inl (PtyxError_io WaitFailed (from_raw_os_error strerror e))
       | Inr status \<Rightarrow> Inr (exit_code_from_wait_status W status)) event"

section \<open>Starting a child\<close>

text \<open>\<open>portable_pty\<close>'s command builder, as a parameter of type \<open>'b\<close>.\<close>

record 'b command_builder =
  cb_new :: "u8 list \<Rightarrow> 'b"
  cb_args :: "u8 list list \<Rightarrow> 'b \<Rightarrow> 'b"
  cb_cwd :: "u8 list \<Rightarrow> 'b \<Rightarrow> 'b"
  cb_env_clear :: "'b \<Rightarrow> 'b"
  cb_env :: "u8 list \<Rightarrow> u8 list \<Rightarrow> 'b \<Rightarrow> 'b"

definition command :: "'b command_builder \<Rightarrow> SpawnConfig \<Rightarrow> PtyxError + 'b" where
  "command B config =
    (let command = cb_new B (sc_executable config);
         command = cb_args B (sc_argv config) command;
         command = (if sc_cwd config \<noteq> [] then cb_cwd B (sc_cwd config) command else command) in
     case apply_env (cb_env_clear B) (cb_env B) command (sc_env_mode config) (sc_env_items config) of
       (Inl error, _) \<Rightarrow> Inl error
     | (Inr _, command) \<Rightarrow> Inr command)"

text \<open>\<open>linux_spawn\<close> is \<open>process_linux_spawn\<close>, \<open>spawn_command\<close> the slave's method elsewhere.\<close>

definition spawn_child ::
    "platform \<Rightarrow> (SpawnConfig \<Rightarrow> u8 list \<Rightarrow> (PtyxError + 'c) option) \<Rightarrow> 'b command_builder
     \<Rightarrow> ('b \<Rightarrow> io_error + 'c) \<Rightarrow> SpawnConfig \<Rightarrow> u8 list option \<Rightarrow> (PtyxError + 'c) option" where
  "spawn_child plat linux_spawn B spawn_command config tty_name =
    (if plat = Linux then
       (case tty_name of
          None \<Rightarrow> Some (Inl (PtyxError_new Unsupported ''TTY name unavailable''))
        | Some tty_name \<Rightarrow> linux_spawn config tty_name)
     else Some (and_then (command B config) (\<lambda>command. map_err (PtyxError_io SpawnFailed) (spawn_command command))))"

section \<open>Signals\<close>

definition ESRCH :: i32 where "ESRCH = 3"
definition ECHILD :: i32 where "ECHILD = 10"
definition SIGKILL_number :: i32 where "SIGKILL_number = 9"

definition has_cached_exit :: "('m, 'c) SessionInner \<Rightarrow> PtyxError + bool" where
  "has_cached_exit inner = is_ready (si_wait_state inner)"

text \<open>The result, and the PID and signal of the \<open>kill\<close> system call when there is one.\<close>

definition signal_child ::
    "(i32 \<Rightarrow> string) \<Rightarrow> i32 + unit \<Rightarrow> ('m, 'c) SessionInner \<Rightarrow> i32 \<Rightarrow> (PtyxError + bool) \<times> (i32 \<times> i32) option" where
  "signal_child strerror kill_reply inner signal =
    (case si_child_pid inner of
       None \<Rightarrow> (Inr False, None)
     | Some pid \<Rightarrow>
         ((case kill_reply of
             Inl e \<Rightarrow>
               if e = ESRCH then Inr False
               else Inl (PtyxError_io NativeError (from_raw_os_error strerror e))
           | Inr _ \<Rightarrow> Inr True), Some (pid, signal)))"

definition force_kill_signal :: "platform \<Rightarrow> i32" where
  "force_kill_signal plat = (if unix plat then SIGKILL_number else 0)"

text \<open>Without signals the killer is asked, with its reply an argument.\<close>

definition process_kill ::
    "platform \<Rightarrow> (i32 \<Rightarrow> string) \<Rightarrow> i32 + unit \<Rightarrow> io_error + unit \<Rightarrow> ('m, 'c) SessionInner \<Rightarrow> i32
     \<Rightarrow> (PtyxError + bool) \<times> (i32 \<times> i32) option" where
  "process_kill plat strerror kill_reply killer_reply inner signal =
    (case has_cached_exit inner of
       Inl error \<Rightarrow> (Inl error, None)
     | Inr True \<Rightarrow> (Inr False, None)
     | Inr False \<Rightarrow>
         if unix plat then signal_child strerror kill_reply inner signal
         else (and_then (lock (PtyxError_new Error ''child killer lock poisoned'') (si_killer inner))
                 (\<lambda>_. and_then (map_err (PtyxError_io NativeError) killer_reply) (\<lambda>_. Inr True)), None))"

section \<open>Waiting for the child\<close>

definition take_child :: "('m, 'c) SessionInner \<Rightarrow> (PtyxError + 'c) \<times> ('m, 'c) SessionInner" where
  "take_child inner =
    (case lock (PtyxError_new Error ''child lock poisoned'') (si_child inner) of
       Inl error \<Rightarrow> (Inl error, inner)
     | Inr child \<Rightarrow>
         (ok_or (PtyxError_new Closed ''child handle is closed'') child,
          inner\<lparr>si_child := set_guarded None (si_child inner)\<rparr>))"

definition is_no_child_error :: "io_error \<Rightarrow> bool" where
  "is_no_child_error error \<longleftrightarrow> raw_os_error error = Some ECHILD"

definition reaped_elsewhere_error :: PtyxError where
  "reaped_elsewhere_error =
     PtyxError_new WaitFailed ''child exit status was reaped before ptyx could observe it''"

text \<open>
  With a watcher the exit code is the watcher's; the \<open>try_wait\<close> after it only reaps the child, and
  its result is dropped.
\<close>

definition wait_child ::
    "platform \<Rightarrow> (i32 \<Rightarrow> string) \<Rightarrow> wait_macros \<Rightarrow> (i32 + i32) option \<Rightarrow> ('c, 'st) child_trait
     \<Rightarrow> ('m, 'c) SessionInner \<Rightarrow> (PtyxError + i32) option \<times> ('m, 'c) SessionInner" where
  "wait_child plat strerror W event trait inner =
    (case take_child inner of
       (Inl error, inner) \<Rightarrow> (Some (Inl error), inner)
     | (Inr child, inner) \<Rightarrow>
         (if plat = MacOS \<and> si_exit_watcher inner \<noteq> None then ExitWatcher_wait strerror W event
          else map_option (\<lambda>reply. case reply of
                   Inr status \<Rightarrow> Inr (exit_code trait status)
                 | Inl e \<Rightarrow>
                     if is_no_child_error e then Inl reaped_elsewhere_error else Inl (PtyxError_io WaitFailed e))
                 (ct_wait trait child), inner))"

text \<open>The thread that \<open>start_exit_waiter\<close> spawns: it completes the wait state when the child ended.\<close>

definition exit_waiter ::
    "platform \<Rightarrow> (i32 \<Rightarrow> string) \<Rightarrow> wait_macros \<Rightarrow> (i32 + i32) option \<Rightarrow> ('c, 'st) child_trait
     \<Rightarrow> ('m, 'c) SessionInner \<Rightarrow> ('m, 'c) SessionInner" where
  "exit_waiter plat strerror W event trait inner =
    (case wait_child plat strerror W event trait inner of
       (None, inner) \<Rightarrow> inner
     | (Some result, inner) \<Rightarrow> inner\<lparr>si_wait_state := complete result (si_wait_state inner)\<rparr>)"


section \<open>The same death on two platforms\<close>

lemma and_low_bits:
  "unat w < 2 ^ n \<Longrightarrow> w AND mask n = w" for w :: i32
  by (simp add: take_bit_eq_mask [symmetric] word_unat_eq_iff unsigned_take_bit_eq take_bit_nat_eq_self)

lemma mask_7: "(mask 7 :: i32) = 0x7F" and mask_8: "(mask 8 :: i32) = 0xFF"
  by (simp_all add: mask_eq_exp_minus_1)

lemma unat_i32_byte: "unat (ucast b :: i32) = unat b" for b :: u8
  by (rule unat_ucast_up) simp

lemma killed_status_signal:
  assumes "signal < 0x7F"
  shows "killed_status signal core AND 0x7F = ucast signal" "unat (killed_status signal core) \<le> 255"
proof -
  have "unat (ucast signal :: i32) < 2 ^ 7"
    using assms by (simp add: unat_i32_byte word_less_nat_alt)
  then have signal: "(ucast signal :: i32) AND 0x7F = ucast signal"
    using and_low_bits [of "ucast signal" 7] by (simp only: mask_7)
  then show "killed_status signal core AND 0x7F = ucast signal"
    by (simp add: killed_status_def bit.conj_disj_distrib2 and.assoc)
  have "killed_status signal core = take_bit 8 (killed_status signal core)"
    by (simp add: take_bit_eq_mask mask_8 killed_status_def bit.conj_disj_distrib2 and.assoc)
  moreover have "unat (take_bit 8 w) < 2 ^ 8" for w :: i32
    by (simp only: unsigned_take_bit_eq take_bit_nat_less_exp)
  ultimately have "unat (killed_status signal core) < 2 ^ 8"
    by metis
  then show "unat (killed_status signal core) \<le> 255"
    by simp
qed

lemma exited_status_parts:
  "exited_status code AND 0x7F = 0" "drop_bit 8 (exited_status code) AND 0xFF = ucast code"
  "unat (exited_status code) = 256 * unat code"
proof -
  show "exited_status code AND 0x7F = 0"
    unfolding mask_7 [symmetric] by (rule bit_word_eqI) (auto simp: exited_status_def bit_simps)
  show "drop_bit 8 (exited_status code) AND 0xFF = ucast code"
    unfolding mask_8 [symmetric]
    by (rule bit_word_eqI) (auto simp: exited_status_def bit_simps dest: bit_imp_le_length)
  have "unat code < 256"
    using unsigned_less [of code] by simp
  then show "unat (exited_status code) = 256 * unat code"
    by (simp add: exited_status_def push_bit_eq_mult unat_word_ariths unat_i32_byte)
qed

lemma sint_i32_small: "unat w < 2 ^ 31 \<Longrightarrow> sint w = int (unat w)" for w :: i32
  using sint_small [of w] by simp

text \<open>
  C28. An exit code is the same on both platforms, a death by signal is not. For the wait status of a
  program that exits with a code, the Linux monitor and the macOS watcher both report that code. For
  one that was killed by a signal the monitor reports 128 plus the signal, as a shell does; the
  watcher returns the raw status (the signal itself when no core was dumped), because its first test
  takes every status up to 255 for a code, so its own branch for signals is never reached for it.
\<close>

theorem exit_codes_by_platform:
  assumes "unix_macros W" "0 < signal" "signal < 0x7F"
  shows "wait_for_pid_raw W [Reaped (exited_status code)] = Some (ucast code, [])
    \<and> exit_code_from_wait_status W (exited_status code) = ucast code
    \<and> wait_for_pid_raw W [Reaped (killed_status signal core)] = Some (128 + ucast signal, [])
    \<and> exit_code_from_wait_status W (killed_status signal core) = killed_status signal core
    \<and> exit_code_from_wait_status W (killed_status signal False) = ucast signal"
proof -
  have signal: "(ucast signal :: i32) \<noteq> 0" "(ucast signal :: i32) \<noteq> 0x7F"
    using assms(2,3) unat_i32_byte [of signal] by (auto simp: word_less_nat_alt)
  have "exit_code_from_wait_status W (exited_status code) = ucast code"
  proof (cases "code = 0")
    case True
    then show ?thesis
      by (simp add: exit_code_from_wait_status_def exited_status_def)
  next
    case False
    then have large: "255 < unat (exited_status code)" and small: "unat (exited_status code) < 2 ^ 31"
      using unsigned_less [of code, where ?'a = nat] unat_gt_0 [of code]
      by (simp_all add: exited_status_parts)
    have "\<not> sint (exited_status code) \<le> 255"
      unfolding sint_i32_small [OF small] using large by linarith
    then show ?thesis
      using assms(1) by (simp add: exit_code_from_wait_status_def unix_macros_def exited_status_parts)
  qed
  moreover have raw: "exit_code_from_wait_status W (killed_status signal core) = killed_status signal core" for core
  proof -
    have "sint (killed_status signal core) \<le> 255"
    proof -
      have small: "unat (killed_status signal core) \<le> 255"
        by (rule killed_status_signal(2) [OF assms(3)])
      then have "unat (killed_status signal core) < 2 ^ 31"
        by (rule le_less_trans) simp
      with small show ?thesis
        by (simp only: sint_i32_small)
    qed
    then show ?thesis
      by (simp add: exit_code_from_wait_status_def)
  qed
  moreover have "killed_status signal False = ucast signal"
    using killed_status_signal(1) [OF assms(3), of False] by (simp add: killed_status_def and.assoc)
  ultimately show ?thesis
    using raw [of False] assms(1) signal killed_status_signal(1) [OF assms(3), of core]
    by (simp add: unix_macros_def exited_status_parts)
qed

lemma linux_macros: "unix_macros linux_macros"
  by (simp add: unix_macros_def linux_macros_def)

theorem exit_codes_by_platform_witness:
  "wait_for_pid_raw linux_macros [Reaped (exited_status 3)] = Some (3, [])
   \<and> exit_code_from_wait_status linux_macros (exited_status 3) = 3
   \<and> wait_for_pid_raw linux_macros [Reaped (killed_status 9 False)] = Some (137, [])
   \<and> exit_code_from_wait_status linux_macros (killed_status 9 False) = 9"
proof -
  have "(9 :: u8) < 0x7F" "(0 :: u8) < 9"
    by simp_all
  note platforms = exit_codes_by_platform [OF linux_macros this(2,1), of 3 False]
  have "(128 :: i32) + ucast (9 :: u8) = 137" "(ucast (9 :: u8) :: i32) = 9" "(ucast (3 :: u8) :: i32) = 3"
    by simp_all
  with platforms show ?thesis
    by metis
qed

text \<open>A session before its exit is signalled with \<open>SIGTERM\<close>; after it, it is not.\<close>

definition demo_inner :: "PtyxErrorKind option \<Rightarrow> (unit, unit) SessionInner" where
  "demo_inner kind =
     \<lparr>si_master = new_mutex (), si_reader = new_mutex (), si_writer = new_mutex (), si_child = new_mutex (Some ()),
      si_killer = new_mutex (), si_exit_watcher = None,
      si_wait_state = (case kind of None \<Rightarrow> WaitState_new
        | Some kind \<Rightarrow> complete (Inl (PtyxError_new kind ''gone'')) WaitState_new),
      si_read_busy = False, si_write_busy = False, si_closed = False, si_child_pid = Some 77, si_tty_name = None\<rparr>"


end
