(* ===== verification/WriteQueue.thy ===== *)
theory WriteQueue
  imports Errors Interfaces
begin

text \<open>
  The shared write queue of \<open>native/src/writer.rs\<close>: \<open>WriteQueueState\<close> behind its mutex,
  and the condition variable, of which the model keeps the number of threads blocked in
  \<open>wait\<close>. Every function is one critical section, so an interleaving of threads is a sequence
  of these functions. \<open>dequeue\<close> is one pass of its loop: \<open>None\<close> means the caller blocks in
  \<open>wait\<close>, and when it is woken it runs the pass again.
\<close>

record WriteQueueState =
  queue :: "u8 list list"
  queued_bytes :: usize
  closed :: bool
  failure :: "PtyxError option"

record WriteQueueShared =
  wq_state :: "WriteQueueState mutex"
  wq_ready :: nat \<comment> \<open>threads blocked on the condition variable\<close>
  wq_max_bytes :: usize

definition WriteQueueShared_new :: "usize \<Rightarrow> WriteQueueShared" where
  "WriteQueueShared_new max_bytes =
     \<lparr>wq_state = new_mutex \<lparr>queue = [], queued_bytes = 0, closed = False, failure = None\<rparr>,
      wq_ready = 0, wq_max_bytes = max_bytes\<rparr>"

definition queue_full_error :: PtyxError where
  "queue_full_error = PtyxError_new WouldBlock ''PTY write queue is full''"

definition allocation_error :: PtyxError where
  "allocation_error = PtyxError_new OutOfMemory ''failed to allocate write chunk''"

definition queue_poisoned_error :: PtyxError where
  "queue_poisoned_error = PtyxError_new Error ''write queue lock poisoned''"

definition queue_closed_error :: PtyxError where
  "queue_closed_error = PtyxError_new Closed ''session runtime is closed''"

text \<open>Taking the lock, and storing the guarded state back when it is released.\<close>

abbreviation wq_lock :: "WriteQueueShared \<Rightarrow> PtyxError + WriteQueueState" where
  "wq_lock q \<equiv> lock queue_poisoned_error (wq_state q)"

definition wq_store :: "WriteQueueState \<Rightarrow> WriteQueueShared \<Rightarrow> WriteQueueShared" where
  "wq_store st q = q\<lparr>wq_state := set_guarded st (wq_state q)\<rparr>"

definition notify_one :: "WriteQueueShared \<Rightarrow> WriteQueueShared" where
  "notify_one q = q\<lparr>wq_ready := wq_ready q - 1\<rparr>"

definition notify_all :: "WriteQueueShared \<Rightarrow> WriteQueueShared" where
  "notify_all q = q\<lparr>wq_ready := 0\<rparr>"

definition validate_enqueue :: "WriteQueueShared \<Rightarrow> WriteQueueState \<Rightarrow> usize \<Rightarrow> PtyxError + unit" where
  "validate_enqueue q st byte_count =
    (case failure st of
       Some error \<Rightarrow> Inl error
     | None \<Rightarrow>
         if closed st then Inl queue_closed_error
         else if saturating_add (queued_bytes st) byte_count > wq_max_bytes q then Inl queue_full_error
         else Inr ())"

definition check_enqueue_allowed :: "WriteQueueShared \<Rightarrow> usize \<Rightarrow> PtyxError + unit" where
  "check_enqueue_allowed q byte_count = and_then (wq_lock q) (\<lambda>st. validate_enqueue q st byte_count)"

definition enqueue_owned ::
    "WriteQueueShared \<Rightarrow> u8 list \<Rightarrow> (PtyxError \<times> u8 list + unit) \<times> WriteQueueShared" where
  "enqueue_owned q bytes =
    (if bytes = [] then (Inr (), q)
     else
       let byte_count = vec_len bytes in
       if byte_count > wq_max_bytes q then (Inl (queue_full_error, bytes), q)
       else case wq_lock q of
         Inl error \<Rightarrow> (Inl (error, bytes), q)
       | Inr st \<Rightarrow>
           (case validate_enqueue q st byte_count of
              Inl error \<Rightarrow> (Inl (error, bytes), q)
            | Inr _ \<Rightarrow>
                (Inr (), notify_one (wq_store (st\<lparr>queued_bytes := queued_bytes st + byte_count,
                                                  queue := queue st @ [bytes]\<rparr>) q))))"

text \<open>
  \<open>enqueue_bytes\<close> checks under the lock, releases it to copy the bytes, and enqueues under the
  lock again. Other threads may run in between: \<open>meanwhile\<close> is what they do to the queue.
  \<open>can_reserve\<close> is the allocator's answer.
\<close>

definition enqueue_bytes ::
    "(usize \<Rightarrow> bool) \<Rightarrow> (WriteQueueShared \<Rightarrow> WriteQueueShared) \<Rightarrow> WriteQueueShared \<Rightarrow> u8 list
     \<Rightarrow> (PtyxError + unit) \<times> WriteQueueShared" where
  "enqueue_bytes can_reserve meanwhile q bytes =
    (if bytes = [] then (Inr (), q)
     else
       let byte_count = vec_len bytes in
       if byte_count > wq_max_bytes q then (Inl queue_full_error, q)
       else case check_enqueue_allowed q byte_count of
         Inl error \<Rightarrow> (Inl error, q)
       | Inr _ \<Rightarrow>
           if \<not> can_reserve byte_count then (Inl allocation_error, q)
           else (case enqueue_owned (meanwhile q) bytes of (r, q') \<Rightarrow> (map_err fst r, q')))"

definition dequeue :: "WriteQueueShared \<Rightarrow> (PtyxError + u8 list option) option \<times> WriteQueueShared" where
  "dequeue q =
    (case wq_lock q of
       Inl error \<Rightarrow> (Some (Inl error), q)
     | Inr st \<Rightarrow>
         (case queue st of
            chunk # rest \<Rightarrow>
              (Some (Inr (Some chunk)),
               wq_store (st\<lparr>queue := rest,
                            queued_bytes := saturating_sub (queued_bytes st) (vec_len chunk)\<rparr>) q)
          | [] \<Rightarrow>
              (case failure st of
                 Some error \<Rightarrow> (Some (Inl error), q)
               | None \<Rightarrow>
                   if closed st then (Some (Inr None), q)
                   else (None, q\<lparr>wq_ready := wq_ready q + 1\<rparr>))))"

definition close :: "WriteQueueShared \<Rightarrow> (PtyxError + unit) \<times> WriteQueueShared" where
  "close q =
    (case wq_lock q of
       Inl error \<Rightarrow> (Inl error, q)
     | Inr st \<Rightarrow>
         (Inr (), notify_all (wq_store (st\<lparr>closed := True, queue := [], queued_bytes := 0\<rparr>) q)))"

definition fail :: "WriteQueueShared \<Rightarrow> PtyxError \<Rightarrow> (PtyxError + unit) \<times> WriteQueueShared" where
  "fail q error =
    (case wq_lock q of
       Inl e \<Rightarrow> (Inl e, q)
     | Inr st \<Rightarrow>
         (Inr (), notify_all (wq_store (st\<lparr>failure := Some error, queue := [], queued_bytes := 0\<rparr>) q)))"

definition is_closed :: "WriteQueueShared \<Rightarrow> PtyxError + bool" where
  "is_closed q = and_then (wq_lock q) (\<lambda>st. Inr (closed st))"

section \<open>Projections and the well-formedness invariant\<close>

abbreviation wq :: "WriteQueueShared \<Rightarrow> WriteQueueState" where
  "wq q \<equiv> guarded (wq_state q)"

definition chunk_bytes :: "u8 list list \<Rightarrow> nat" where
  "chunk_bytes cs = sum_list (map length cs)"

lemma chunk_bytes_simps [simp]:
  "chunk_bytes [] = 0"
  "chunk_bytes (c # cs) = length c + chunk_bytes cs"
  "chunk_bytes (cs @ ds) = chunk_bytes cs + chunk_bytes ds"
  by (simp_all add: chunk_bytes_def)

lemma length_concat_chunk_bytes: "length (concat cs) = chunk_bytes cs"
  by (induction cs) auto

text \<open>
  The counter is the exact number of queued bytes and within the limit, no queued chunk is empty
  (so dequeuing always makes progress), and a closed or failed queue holds nothing.
\<close>

definition wq_inv :: "WriteQueueShared \<Rightarrow> bool" where
  "wq_inv q \<longleftrightarrow>
     unat (queued_bytes (wq q)) = chunk_bytes (queue (wq q))
   \<and> queued_bytes (wq q) \<le> wq_max_bytes q
   \<and> [] \<notin> set (queue (wq q))
   \<and> (closed (wq q) \<or> failure (wq q) \<noteq> None \<longrightarrow> queue (wq q) = [])
   \<and> unat (wq_max_bytes q) < 2 ^ 63"

text \<open>
  Nobody sleeps through work: while a thread is blocked on the condition variable, there is
  nothing for it to do.
\<close>

definition wq_no_lost_wakeup :: "WriteQueueShared \<Rightarrow> bool" where
  "wq_no_lost_wakeup q \<longleftrightarrow>
     wq_ready q \<le> 1 \<and>
     (wq_ready q \<noteq> 0 \<longrightarrow> queue (wq q) = [] \<and> \<not> closed (wq q) \<and> failure (wq q) = None)"

lemma wq_store_simps [simp]:
  "wq (wq_store st q) = st"
  "poisoned (wq_state (wq_store st q)) = poisoned (wq_state q)"
  "wq_ready (wq_store st q) = wq_ready q"
  "wq_max_bytes (wq_store st q) = wq_max_bytes q"
  by (simp_all add: wq_store_def)

lemma notify_simps [simp]:
  "wq_state (notify_one q) = wq_state q"
  "wq_max_bytes (notify_one q) = wq_max_bytes q"
  "wq_ready (notify_one q) = wq_ready q - 1"
  "wq_state (notify_all q) = wq_state q"
  "wq_max_bytes (notify_all q) = wq_max_bytes q"
  "wq_ready (notify_all q) = 0"
  by (simp_all add: notify_one_def notify_all_def)

lemma validate_enqueue_Inr_iff:
  "validate_enqueue q st n = Inr u \<longleftrightarrow>
     failure st = None \<and> \<not> closed st \<and> saturating_add (queued_bytes st) n \<le> wq_max_bytes q"
  by (auto simp: validate_enqueue_def split: option.splits)

lemma saturating_within:
  "unat m < 2 ^ 63 \<Longrightarrow> saturating_add a b \<le> m \<longleftrightarrow> unat a + unat b \<le> unat m" for a b m :: usize
  by (auto simp: word_le_nat_alt unat_saturating_add)

text \<open>An accepted chunk fits: the counter's \<open>+=\<close> cannot wrap (nor panic in a checked build).\<close>

lemma enqueue_counter_exact:
  assumes "unat (wq_max_bytes q) < 2 ^ 63" "validate_enqueue q st (vec_len bytes) = Inr u" "vec_fits bytes"
  shows "unat (queued_bytes st + vec_len bytes) = unat (queued_bytes st) + length bytes
    \<and> unat (queued_bytes st) + length bytes \<le> unat (wq_max_bytes q)"
proof -
  have "unat (queued_bytes st) + length bytes \<le> unat (wq_max_bytes q)"
    using assms by (auto simp: validate_enqueue_Inr_iff saturating_within unat_vec_len)
  then show ?thesis
    using assms by (simp add: unat_plus_no_overflow unat_vec_len)
qed

lemma enqueue_owned_cases:
  assumes "enqueue_owned q bytes = (r, q')"
  obtains (refused) e where "r = Inl (e, bytes)" "q' = q" "bytes \<noteq> []"
  | (empty) "r = Inr ()" "q' = q" "bytes = []"
  | (queued) "r = Inr ()" "bytes \<noteq> []" "\<not> poisoned (wq_state q)"
      "validate_enqueue q (wq q) (vec_len bytes) = Inr ()"
      "q' = notify_one (wq_store (wq q\<lparr>queued_bytes := queued_bytes (wq q) + vec_len bytes,
                                      queue := queue (wq q) @ [bytes]\<rparr>) q)"
proof -
  note def = assms [unfolded enqueue_owned_def Let_def lock_def, symmetric]
  consider "bytes = []" | "bytes \<noteq> []" "wq_max_bytes q < vec_len bytes"
    | "bytes \<noteq> []" "\<not> wq_max_bytes q < vec_len bytes" "poisoned (wq_state q)"
    | e where "bytes \<noteq> []" "\<not> wq_max_bytes q < vec_len bytes" "\<not> poisoned (wq_state q)"
        "validate_enqueue q (wq q) (vec_len bytes) = Inl e"
    | "bytes \<noteq> []" "\<not> wq_max_bytes q < vec_len bytes" "\<not> poisoned (wq_state q)"
        "validate_enqueue q (wq q) (vec_len bytes) = Inr ()"
    by (cases "validate_enqueue q (wq q) (vec_len bytes)") auto
  then show thesis
  proof cases
    case 1
    with def show thesis by (intro empty) simp_all
  next
    case 2
    with def show thesis by (intro refused) simp_all
  next
    case 3
    with def show thesis by (intro refused) simp_all
  next
    case 4
    with def show thesis by (intro refused) simp_all
  next
    case 5
    with def show thesis by (intro queued) simp_all
  qed
qed

lemma dequeue_cases:
  assumes "dequeue q = (s, q')"
  obtains (poison) "s = Some (Inl queue_poisoned_error)" "q' = q" "poisoned (wq_state q)"
  | (chunk) chunk rest where "s = Some (Inr (Some chunk))" "queue (wq q) = chunk # rest"
      "\<not> poisoned (wq_state q)"
      "q' = wq_store (wq q\<lparr>queue := rest,
                           queued_bytes := saturating_sub (queued_bytes (wq q)) (vec_len chunk)\<rparr>) q"
  | (failed) e where "s = Some (Inl e)" "failure (wq q) = Some e" "queue (wq q) = []" "q' = q"
      "\<not> poisoned (wq_state q)"
  | (drained) "s = Some (Inr None)" "failure (wq q) = None" "closed (wq q)" "queue (wq q) = []" "q' = q"
      "\<not> poisoned (wq_state q)"
  | (blocked) "s = None" "queue (wq q) = []" "failure (wq q) = None" "\<not> closed (wq q)"
      "q' = q\<lparr>wq_ready := wq_ready q + 1\<rparr>" "\<not> poisoned (wq_state q)"
proof -
  note def = assms [unfolded dequeue_def lock_def, symmetric]
  show thesis
  proof (cases "poisoned (wq_state q)")
    case True
    with def show thesis by (intro poison) simp_all
  next
    case sound: False
    show thesis
    proof (cases "queue (wq q)")
      case (Cons c rest)
      with sound def show thesis by (intro chunk [of c rest]) simp_all
    next
      case Nil
      show thesis
      proof (cases "failure (wq q)")
        case (Some e)
        with sound Nil def show thesis by (intro failed [of e]) simp_all
      next
        case None
        show thesis
        proof (cases "closed (wq q)")
          case True
          with None sound Nil def show thesis by (intro drained) simp_all
        next
          case False
          with None sound Nil def show thesis by (intro blocked) simp_all
        qed
      qed
    qed
  qed
qed

lemma wq_inv_new: "unat max_bytes < 2 ^ 63 \<Longrightarrow> wq_inv (WriteQueueShared_new max_bytes)"
  by (simp add: wq_inv_def WriteQueueShared_new_def new_mutex_def)

lemma enqueue_owned_inv:
  assumes "wq_inv q" "vec_fits bytes" "enqueue_owned q bytes = (r, q')"
  shows "wq_inv q'"
  using assms(3)
proof (cases rule: enqueue_owned_cases)
  case queued
  note exact = enqueue_counter_exact [OF _ queued(4) assms(2)]
  show ?thesis
    using queued assms(1) exact
    by (auto simp: wq_inv_def validate_enqueue_Inr_iff word_le_nat_alt)
qed (use assms in auto)

lemma dequeue_inv:
  assumes "wq_inv q" "dequeue q = (s, q')"
  shows "wq_inv q'"
  using assms(2)
proof (cases rule: dequeue_cases)
  case (chunk c rest)
  have "length c < 2 ^ 63"
    using assms(1) chunk by (auto simp: wq_inv_def word_le_nat_alt)
  then have "unat (vec_len c) = length c"
    by (simp add: unat_vec_len vec_fits_def)
  then show ?thesis
    using assms(1) chunk by (auto simp: wq_inv_def unat_saturating_sub word_le_nat_alt)
qed (use assms in \<open>auto simp: wq_inv_def\<close>)

lemma close_inv: "wq_inv q \<Longrightarrow> wq_inv (snd (close q))"
  by (auto simp: close_def lock_def wq_inv_def)

lemma fail_inv: "wq_inv q \<Longrightarrow> wq_inv (snd (fail q e))"
  by (auto simp: fail_def lock_def wq_inv_def)

lemma enqueue_bytes_inv:
  assumes "wq_inv q" "vec_fits bytes" "wq_inv (meanwhile q)"
  shows "wq_inv (snd (enqueue_bytes can_reserve meanwhile q bytes))"
proof -
  obtain r q' where step: "enqueue_owned (meanwhile q) bytes = (r, q')" by fastforce
  have "wq_inv q'" by (rule enqueue_owned_inv [OF assms(3,2) step])
  then show ?thesis
    using assms(1) step by (auto simp: enqueue_bytes_def Let_def split: sum.splits)
qed

section \<open>The queue as a bounded FIFO queue\<close>

definition wq_accepting :: "WriteQueueShared \<Rightarrow> bool" where
  "wq_accepting q \<longleftrightarrow> \<not> poisoned (wq_state q) \<and> failure (wq q) = None \<and> \<not> closed (wq q)"

lemma enqueue_owned_accepts:
  assumes "wq_inv q" "wq_accepting q" "vec_fits bytes" "bytes \<noteq> []"
  shows "is_ok (fst (enqueue_owned q bytes)) \<longleftrightarrow>
    chunk_bytes (queue (wq q)) + length bytes \<le> unat (wq_max_bytes q)"
proof -
  have small: "unat (wq_max_bytes q) < 2 ^ 63" and total: "unat (queued_bytes (wq q)) = chunk_bytes (queue (wq q))"
    using assms(1) by (simp_all add: wq_inv_def)
  have "saturating_add (queued_bytes (wq q)) (vec_len bytes) \<le> wq_max_bytes q
      \<longleftrightarrow> chunk_bytes (queue (wq q)) + length bytes \<le> unat (wq_max_bytes q)"
    using small total assms(3) by (simp add: saturating_within unat_vec_len)
  moreover have "chunk_bytes (queue (wq q)) + length bytes \<le> unat (wq_max_bytes q)
      \<Longrightarrow> \<not> wq_max_bytes q < vec_len bytes"
    using assms(3) by (simp add: word_less_nat_alt unat_vec_len)
  ultimately show ?thesis
    using assms(2,4)
    by (auto simp: enqueue_owned_def Let_def lock_def wq_accepting_def validate_enqueue_def not_less)
qed

interpretation wqueue: bounded_queue enqueue_owned dequeue "\<lambda>q. queue (wq q)" wq_inv vec_fits
  "\<lambda>q. unat (wq_max_bytes q)" wq_accepting
proof
  fix q q' x r s u e
  show "wq_inv q \<Longrightarrow> vec_fits x \<Longrightarrow> enqueue_owned q x = (r, q') \<Longrightarrow> wq_inv q'"
    by (rule enqueue_owned_inv)
  show "wq_inv q \<Longrightarrow> vec_fits x \<Longrightarrow> enqueue_owned q x = (Inr u, q') \<Longrightarrow>
      queue (wq q') = queue (wq q) @ (if x = [] then [] else [x])"
    by (auto elim: enqueue_owned_cases)
  show "wq_inv q \<Longrightarrow> vec_fits x \<Longrightarrow> enqueue_owned q x = (Inl e, q') \<Longrightarrow>
      queue (wq q') = queue (wq q)"
    by (auto elim: enqueue_owned_cases)
  show "wq_inv q \<Longrightarrow> dequeue q = (s, q') \<Longrightarrow> wq_inv q'"
    by (rule dequeue_inv)
  show "wq_inv q \<Longrightarrow> dequeue q = (Some (Inr (Some x)), q') \<Longrightarrow> queue (wq q) = x # queue (wq q')"
    by (auto elim!: dequeue_cases)
  show "wq_inv q \<Longrightarrow> dequeue q = (s, q') \<Longrightarrow> \<nexists>x. s = Some (Inr (Some x)) \<Longrightarrow>
      queue (wq q') = queue (wq q)"
    by (auto elim!: dequeue_cases)
  show "wq_inv q \<Longrightarrow> sum_list (map length (queue (wq q))) \<le> unat (wq_max_bytes q)"
    by (simp add: wq_inv_def word_le_nat_alt flip: chunk_bytes_def)
  show "wq_inv q \<Longrightarrow> wq_accepting q \<Longrightarrow> vec_fits x \<Longrightarrow> x \<noteq> [] \<Longrightarrow>
      is_ok (fst (enqueue_owned q x)) =
        (sum_list (map length (queue (wq q))) + length x \<le> unat (wq_max_bytes q))"
    by (simp add: enqueue_owned_accepts flip: chunk_bytes_def)
  show "enqueue_owned q x = (r, q') \<Longrightarrow> unat (wq_max_bytes q') = unat (wq_max_bytes q)"
    by (auto elim: enqueue_owned_cases)
  show "dequeue q = (s, q') \<Longrightarrow> unat (wq_max_bytes q') = unat (wq_max_bytes q)"
    by (auto elim!: dequeue_cases)
qed

text \<open>
  Writes come out whole and in order. From a new queue, however pushes by any threads and pops
  by the writer interleave, the non-empty chunks the queue accepted are exactly the chunks popped
  so far followed by those still queued: nothing is lost, duplicated, split, merged or reordered,
  and the backlog never exceeds the configured limit.
\<close>

theorem write_queue_fifo:
  assumes "unat max_bytes < 2 ^ 63" "pushes_fit vec_fits ops"
    and run: "queue_exec enqueue_owned dequeue (WriteQueueShared_new max_bytes) ops = (acc, out, q')"
  shows "filter (\<lambda>x. x \<noteq> []) acc = out @ queue (wq q')
    \<and> chunk_bytes (queue (wq q')) \<le> unat max_bytes"
proof -
  have inv: "wq_inv (WriteQueueShared_new max_bytes)"
    by (rule wq_inv_new) fact
  have new: "queue (wq (WriteQueueShared_new max_bytes)) = []"
      "wq_max_bytes (WriteQueueShared_new max_bytes) = max_bytes"
    by (simp_all add: WriteQueueShared_new_def new_mutex_def)
  show ?thesis
    using wqueue.exec_fifo [OF inv assms(2) run] wqueue.backlog_bounded [OF inv assms(2) run] new
    by (simp add: chunk_bytes_def)
qed

theorem write_queue_fifo_witness:
  "\<exists>acc out q'. queue_exec enqueue_owned dequeue (WriteQueueShared_new 4)
       [Push [1, 2], Push [3], Pop, Push [4, 5], Push [6]] = (acc, out, q')
     \<and> acc = [[1, 2], [3], [4, 5], [6]] \<and> out = [[1, 2]] \<and> queue (wq q') = [[3], [4, 5], [6]]
     \<and> filter (\<lambda>x. x \<noteq> []) acc = out @ queue (wq q')"
proof -
  define ops where "ops = [Push [1, 2], Push [3], Pop, Push [4, 5], Push [6 :: u8]]"
  obtain acc out q' where run:
    "queue_exec enqueue_owned dequeue (WriteQueueShared_new 4) ops = (acc, out, q')"
    by (metis prod_cases3)
  then have "acc = [[1, 2], [3], [4, 5], [6]]" "out = [[1, 2]]" "queue (wq q') = [[3], [4, 5], [6]]"
    by (auto simp: ops_def WriteQueueShared_new_def new_mutex_def enqueue_owned_def dequeue_def lock_def
        validate_enqueue_def vec_len_def saturating_add_def saturating_sub_def wq_store_def
        set_guarded_def notify_one_def)
  moreover have "pushes_fit vec_fits ops"
    by (simp add: ops_def vec_fits_def)
  ultimately show ?thesis
    using write_queue_fifo [OF _ _ run] run by (auto simp: ops_def)
qed

section \<open>Any run of the queue\<close>

text \<open>
  A run of the queue by any number of clients and one consumer. A blocked consumer does not run;
  it is woken by a notification or, as the platform allows, spuriously.
\<close>

datatype wq_action =
    Enqueue "u8 list"
  | Dequeue
  | Close
  | Fail PtyxError
  | Spurious_Wakeup

fun wq_act :: "WriteQueueShared \<Rightarrow> wq_action \<Rightarrow> WriteQueueShared" where
  "wq_act q (Enqueue bytes) = snd (enqueue_owned q bytes)"
| "wq_act q Dequeue = (if wq_ready q \<noteq> 0 then q else snd (dequeue q))"
| "wq_act q Close = snd (close q)"
| "wq_act q (Fail error) = snd (fail q error)"
| "wq_act q Spurious_Wakeup = q\<lparr>wq_ready := 0\<rparr>"

definition wq_run :: "WriteQueueShared \<Rightarrow> wq_action list \<Rightarrow> WriteQueueShared" where
  "wq_run q acts = foldl wq_act q acts"

fun action_fits :: "wq_action \<Rightarrow> bool" where
  "action_fits (Enqueue bytes) = vec_fits bytes"
| "action_fits _ = True"

lemma wq_act_inv: "wq_inv q \<Longrightarrow> action_fits a \<Longrightarrow> wq_inv (wq_act q a)"
proof (cases a)
  case (Enqueue bytes)
  moreover assume "wq_inv q" "action_fits a"
  ultimately show ?thesis
    by (cases "enqueue_owned q bytes") (auto dest: enqueue_owned_inv)
next
  case Dequeue
  moreover assume "wq_inv q"
  ultimately show ?thesis
    by (cases "dequeue q") (auto dest: dequeue_inv)
qed (simp_all add: close_inv fail_inv, simp add: wq_inv_def)

lemma enqueue_owned_wakeup:
  "wq_no_lost_wakeup q \<Longrightarrow> wq_no_lost_wakeup (snd (enqueue_owned q bytes))"
  by (cases "enqueue_owned q bytes") (auto elim!: enqueue_owned_cases simp: wq_no_lost_wakeup_def)

lemma dequeue_wakeup:
  "wq_no_lost_wakeup q \<Longrightarrow> wq_ready q = 0 \<Longrightarrow> wq_no_lost_wakeup (snd (dequeue q))"
  by (cases "dequeue q") (auto elim!: dequeue_cases simp: wq_no_lost_wakeup_def)

lemma wq_act_wakeup: "wq_no_lost_wakeup q \<Longrightarrow> wq_no_lost_wakeup (wq_act q a)"
proof (cases a)
  case Close
  moreover assume "wq_no_lost_wakeup q"
  ultimately show ?thesis
    by (auto simp: close_def lock_def wq_no_lost_wakeup_def)
next
  case (Fail error)
  moreover assume "wq_no_lost_wakeup q"
  ultimately show ?thesis
    by (auto simp: fail_def lock_def wq_no_lost_wakeup_def)
qed (auto simp: enqueue_owned_wakeup dequeue_wakeup, simp add: wq_no_lost_wakeup_def)

lemma wq_run_inv: "wq_inv q \<Longrightarrow> list_all action_fits acts \<Longrightarrow> wq_inv (wq_run q acts)"
  unfolding wq_run_def by (induction acts arbitrary: q) (auto simp: wq_act_inv)

lemma wq_run_wakeup: "wq_no_lost_wakeup q \<Longrightarrow> wq_no_lost_wakeup (wq_run q acts)"
  unfolding wq_run_def by (induction acts arbitrary: q) (auto simp: wq_act_wakeup)

text \<open>
  C22. The queue's accounting is exact in every reachable state, and no wakeup is lost. In any run
  from a new queue, the byte counter equals the total length of the queued chunks and stays within
  the limit (so it never wraps), no empty chunk is queued, a closed or failed queue is empty, and
  whenever the consumer sleeps on the condition variable there really is nothing for it to do: no
  chunk, no failure, no close.
\<close>

theorem write_queue_invariant:
  fixes max_bytes :: usize
  assumes "unat max_bytes < 2 ^ 63" "list_all action_fits acts"
  defines "q \<equiv> wq_run (WriteQueueShared_new max_bytes) acts"
  shows "unat (queued_bytes (wq q)) = chunk_bytes (queue (wq q))
    \<and> unat (queued_bytes (wq q)) \<le> unat (wq_max_bytes q)
    \<and> [] \<notin> set (queue (wq q))
    \<and> (closed (wq q) \<or> failure (wq q) \<noteq> None \<longrightarrow> queue (wq q) = [])
    \<and> (wq_ready q \<noteq> 0 \<longrightarrow> queue (wq q) = [] \<and> \<not> closed (wq q) \<and> failure (wq q) = None)"
proof -
  have "wq_inv q"
    unfolding q_def by (rule wq_run_inv [OF wq_inv_new]) fact+
  moreover have "wq_no_lost_wakeup q"
    unfolding q_def
    by (rule wq_run_wakeup) (simp add: wq_no_lost_wakeup_def WriteQueueShared_new_def)
  ultimately show ?thesis
    by (simp add: wq_inv_def wq_no_lost_wakeup_def word_le_nat_alt)
qed

theorem write_queue_invariant_witness:
  "wq_ready (wq_run (WriteQueueShared_new 8) [Enqueue [1], Dequeue, Dequeue]) = 1
   \<and> queue (wq (wq_run (WriteQueueShared_new 8) [Enqueue [1], Dequeue, Dequeue])) = []"
proof -
  let ?acts = "[Enqueue [1], Dequeue, Dequeue]"
  have sleeps: "wq_ready (wq_run (WriteQueueShared_new 8) ?acts) = 1"
    by (simp add: wq_run_def WriteQueueShared_new_def new_mutex_def enqueue_owned_def dequeue_def
        lock_def validate_enqueue_def vec_len_def saturating_add_def wq_store_def set_guarded_def
        notify_one_def)
  show ?thesis
    using write_queue_invariant [of 8 ?acts] sleeps by (simp add: vec_fits_def)
qed

section \<open>The queue's contract\<close>

text \<open>
  What the queue promises, without counters, locks or wakeups: a phase and a list of chunks.
\<close>

datatype queue_phase = Open | Shut | Broken PtyxError

record queue_spec =
  phase :: queue_phase
  chunks :: "u8 list list"

definition wq_abs :: "WriteQueueShared \<Rightarrow> queue_spec" where
  "wq_abs q =
     \<lparr>phase = (case failure (wq q) of Some e \<Rightarrow> Broken e
              | None \<Rightarrow> if closed (wq q) then Shut else Open),
      chunks = queue (wq q)\<rparr>"

definition spec_enqueue :: "nat \<Rightarrow> queue_spec \<Rightarrow> u8 list \<Rightarrow> (PtyxError + unit) \<times> queue_spec" where
  "spec_enqueue limit a bytes =
    (if bytes = [] then (Inr (), a)
     else if length bytes > limit then (Inl queue_full_error, a)
     else case phase a of
       Broken e \<Rightarrow> (Inl e, a)
     | Shut \<Rightarrow> (Inl queue_closed_error, a)
     | Open \<Rightarrow> if chunk_bytes (chunks a) + length bytes > limit then (Inl queue_full_error, a)
               else (Inr (), a\<lparr>chunks := chunks a @ [bytes]\<rparr>))"

definition spec_dequeue :: "queue_spec \<Rightarrow> (PtyxError + u8 list option) option \<times> queue_spec" where
  "spec_dequeue a =
    (case chunks a of
       c # cs \<Rightarrow> (Some (Inr (Some c)), a\<lparr>chunks := cs\<rparr>)
     | [] \<Rightarrow> (case phase a of Broken e \<Rightarrow> Some (Inl e) | Shut \<Rightarrow> Some (Inr None) | Open \<Rightarrow> None, a))"

definition spec_close :: "queue_spec \<Rightarrow> queue_spec" where
  "spec_close a =
     \<lparr>phase = (case phase a of Broken e \<Rightarrow> Broken e | _ \<Rightarrow> Shut), chunks = []\<rparr>"

definition spec_fail :: "PtyxError \<Rightarrow> queue_spec \<Rightarrow> queue_spec" where
  "spec_fail e a = \<lparr>phase = Broken e, chunks = []\<rparr>"

lemma enqueue_owned_refines:
  assumes inv: "wq_inv q" and sound: "\<not> poisoned (wq_state q)" and fits: "vec_fits bytes"
  shows "(map_err fst (fst (enqueue_owned q bytes)), wq_abs (snd (enqueue_owned q bytes)))
    = spec_enqueue (unat (wq_max_bytes q)) (wq_abs q) bytes"
proof -
  have small: "unat (wq_max_bytes q) < 2 ^ 63" and total: "unat (queued_bytes (wq q)) = chunk_bytes (queue (wq q))"
    using inv by (simp_all add: wq_inv_def)
  have "wq_max_bytes q < saturating_add (queued_bytes (wq q)) (vec_len bytes)
      \<longleftrightarrow> unat (wq_max_bytes q) < chunk_bytes (queue (wq q)) + length bytes"
    using saturating_within [OF small, of "queued_bytes (wq q)" "vec_len bytes"] total fits
    by (simp add: unat_vec_len flip: not_le)
  moreover have "wq_max_bytes q < vec_len bytes \<longleftrightarrow> unat (wq_max_bytes q) < length bytes"
    using fits by (simp add: word_less_nat_alt unat_vec_len)
  ultimately show ?thesis
    using sound
    by (simp add: enqueue_owned_def spec_enqueue_def Let_def lock_def validate_enqueue_def wq_abs_def
        split: option.split)
qed

lemma dequeue_refines:
  assumes "\<not> poisoned (wq_state q)"
  shows "(fst (dequeue q), wq_abs (snd (dequeue q))) = spec_dequeue (wq_abs q)"
  using assms
  by (cases "queue (wq q)")
    (auto simp: dequeue_def spec_dequeue_def lock_def wq_abs_def split: option.split)

lemma close_refines: "\<not> poisoned (wq_state q) \<Longrightarrow> wq_abs (snd (close q)) = spec_close (wq_abs q)"
  by (auto simp: close_def spec_close_def lock_def wq_abs_def split: option.split)

lemma fail_refines: "\<not> poisoned (wq_state q) \<Longrightarrow> wq_abs (snd (fail q e)) = spec_fail e (wq_abs q)"
  by (auto simp: fail_def spec_fail_def lock_def wq_abs_def)

text \<open>
  C14. The queue implements its contract. Seen through the abstraction to a phase (open, shut,
  broken by an error) and a list of chunks, each operation behaves as the specification says, on
  every branch: enqueuing ignores empty data, refuses data larger than the whole limit first, then
  reports the recorded failure, then the close, then a full queue, and otherwise appends;
  dequeuing hands out the oldest chunk, or the failure, or the end of the queue, or blocks;
  closing and failing discard the backlog, and a failure survives a later close.
\<close>

theorem write_queue_refines_contract:
  assumes "wq_inv q" "\<not> poisoned (wq_state q)" "vec_fits bytes"
  shows "(map_err fst (fst (enqueue_owned q bytes)), wq_abs (snd (enqueue_owned q bytes)))
        = spec_enqueue (unat (wq_max_bytes q)) (wq_abs q) bytes
    \<and> (fst (dequeue q), wq_abs (snd (dequeue q))) = spec_dequeue (wq_abs q)
    \<and> wq_abs (snd (close q)) = spec_close (wq_abs q)
    \<and> wq_abs (snd (fail q e)) = spec_fail e (wq_abs q)"
  using assms enqueue_owned_refines dequeue_refines close_refines fail_refines by blast

theorem write_queue_refines_contract_witness:
  "wq_inv (WriteQueueShared_new 8)
   \<and> wq_abs (snd (enqueue_owned (WriteQueueShared_new 8) [1, 2])) = \<lparr>phase = Open, chunks = [[1, 2]]\<rparr>"
proof -
  have inv: "wq_inv (WriteQueueShared_new 8)"
    by (rule wq_inv_new) simp
  show ?thesis
    using write_queue_refines_contract [OF inv, of "[1, 2]"] inv
    by (simp add: WriteQueueShared_new_def new_mutex_def vec_fits_def spec_enqueue_def wq_abs_def)
qed

section \<open>Enqueuing by copy\<close>

lemma wq_act_max_bytes: "wq_max_bytes (wq_act q a) = wq_max_bytes q"
proof (cases a)
  case (Enqueue bytes)
  then show ?thesis
    by (cases "enqueue_owned q bytes") (auto elim: enqueue_owned_cases)
next
  case Dequeue
  then show ?thesis
    by (cases "dequeue q") (auto elim!: dequeue_cases)
qed (simp_all add: close_def fail_def split: sum.split)

lemma wq_run_max_bytes: "wq_max_bytes (wq_run q acts) = wq_max_bytes q"
  unfolding wq_run_def by (induction acts arbitrary: q) (simp_all add: wq_act_max_bytes)

lemma enqueue_bytes_atomic:
  "enqueue_bytes can_reserve id q bytes =
     (if bytes \<noteq> [] \<and> is_ok (fst (enqueue_owned q bytes)) \<and> \<not> can_reserve (vec_len bytes)
      then (Inl allocation_error, q)
      else map_prod (map_err fst) id (enqueue_owned q bytes))"
  by (auto simp: enqueue_bytes_def enqueue_owned_def check_enqueue_allowed_def Let_def lock_def split: sum.split)

lemma enqueue_bytes_interrupted:
  assumes "wq_max_bytes (meanwhile q) = wq_max_bytes q"
  shows "enqueue_bytes can_reserve meanwhile q bytes =
    (if bytes \<noteq> [] \<and> is_ok (fst (enqueue_bytes can_reserve id q bytes))
     then enqueue_bytes can_reserve id (meanwhile q) bytes
     else enqueue_bytes can_reserve id q bytes)"
proof (cases "bytes = [] \<or> vec_len bytes > wq_max_bytes q")
  case True
  then show ?thesis
    by (auto simp: enqueue_bytes_def Let_def)
next
  case False
  show ?thesis
  proof (cases "check_enqueue_allowed q (vec_len bytes)")
    case (Inl e)
    then show ?thesis
      using False by (simp add: enqueue_bytes_def Let_def)
  next
    case (Inr u)
    then have ok: "is_ok (fst (enqueue_owned q bytes))"
      using False
      by (auto simp: enqueue_owned_def check_enqueue_allowed_def Let_def lock_def split: sum.splits if_splits)
    show ?thesis
      using False Inr ok assms by (simp add: enqueue_bytes_atomic) (simp add: enqueue_bytes_def Let_def split: prod.split)
  qed
qed

text \<open>
  C18. Releasing the lock to copy is harmless. \<open>enqueue_bytes\<close> checks the queue, releases it while
  it copies the bytes, and enqueues under the lock again. Whatever the writer and other clients do to
  the queue in between, the call behaves like one atomic step: if the first check refuses, like the
  atomic call at its beginning, and otherwise like the atomic call after everything that happened in
  between. And the atomic call is \<open>enqueue_owned\<close> on the copy, except that it may run out of memory.
\<close>

theorem enqueue_is_atomic:
  "enqueue_bytes can_reserve (\<lambda>q. wq_run q acts) q bytes =
     (if bytes \<noteq> [] \<and> is_ok (fst (enqueue_bytes can_reserve id q bytes))
      then enqueue_bytes can_reserve id (wq_run q acts) bytes
      else enqueue_bytes can_reserve id q bytes)
   \<and> enqueue_bytes can_reserve id q bytes =
     (if bytes \<noteq> [] \<and> is_ok (fst (enqueue_owned q bytes)) \<and> \<not> can_reserve (vec_len bytes)
      then (Inl allocation_error, q)
      else map_prod (map_err fst) id (enqueue_owned q bytes))"
  by (simp only: enqueue_bytes_interrupted [OF wq_run_max_bytes] enqueue_bytes_atomic simp_thms)

end
