(* ===== verification/Runtime.thy ===== *)
theory Runtime
  imports Process Output WriteQueue
begin

text \<open>
  The runtime of a session: \<open>native/src/runtime.rs\<close> but for its thread loops (see \<open>Loops\<close>), the
  \<open>Session\<close> record of \<open>native/src/session.rs\<close> and the lazily started thread of the \<open>WriteQueue\<close> of
  \<open>native/src/writer.rs\<close>. Threads run elsewhere; here they are started and joined. A thread that
  was started and not joined is a handle. Whether the system can start a thread, and whether a
  joined thread had panicked, are arguments. The operations record what they do to the outside, in
  order: signals, and the threads they wait for with the flags those threads can see at that moment.
\<close>

section \<open>Threads\<close>

datatype thread = Reader_thread | Wait_thread | Mode_thread | Writer_thread | Child_waiter

datatype join_reply = Join_ok | Join_panicked

record thread_system =
  ts_spawn :: "thread \<Rightarrow> io_error + unit"
  ts_join :: "thread \<Rightarrow> join_reply"

datatype session_act =
    Signalled i32 i32 \<comment> \<open>PID and signal\<close>
  | Joined thread bool bool \<comment> \<open>stop flag set, write queue closed\<close>

section \<open>The write queue and its thread\<close>

record WriteQueue_handle =
  wh_shared :: WriteQueueShared
  wh_handle :: "unit option mutex"

definition handle_poisoned_error :: PtyxError where
  "handle_poisoned_error = PtyxError_new Error ''writer handle lock poisoned''"

definition WriteQueue_new :: "usize \<Rightarrow> WriteQueue_handle" where
  "WriteQueue_new max_bytes = \<lparr>wh_shared = WriteQueueShared_new max_bytes, wh_handle = new_mutex None\<rparr>"

definition ensure_started :: "thread_system \<Rightarrow> WriteQueue_handle \<Rightarrow> (PtyxError + unit) \<times> WriteQueue_handle" where
  "ensure_started ts w =
    (case lock handle_poisoned_error (wh_handle w) of
       Inl error \<Rightarrow> (Inl error, w)
     | Inr (Some _) \<Rightarrow> (Inr (), w)
     | Inr None \<Rightarrow>
         (case ts_spawn ts Writer_thread of
            Inl error \<Rightarrow> (Inl (PtyxError_io NativeError error), w)
          | Inr _ \<Rightarrow> (Inr (), w\<lparr>wh_handle := set_guarded (Some ()) (wh_handle w)\<rparr>)))"

definition WriteQueue_enqueue_bytes ::
    "thread_system \<Rightarrow> (usize \<Rightarrow> bool) \<Rightarrow> (WriteQueueShared \<Rightarrow> WriteQueueShared) \<Rightarrow> WriteQueue_handle \<Rightarrow> u8 list
     \<Rightarrow> (PtyxError + unit) \<times> WriteQueue_handle" where
  "WriteQueue_enqueue_bytes ts can_reserve meanwhile w bytes =
    (case ensure_started ts w of
       (Inl error, w) \<Rightarrow> (Inl error, w)
     | (Inr _, w) \<Rightarrow>
         (case enqueue_bytes can_reserve meanwhile (wh_shared w) bytes of
            (r, q) \<Rightarrow> (r, w\<lparr>wh_shared := q\<rparr>)))"

definition WriteQueue_enqueue_owned ::
    "thread_system \<Rightarrow> WriteQueue_handle \<Rightarrow> u8 list \<Rightarrow> (PtyxError \<times> u8 list + unit) \<times> WriteQueue_handle" where
  "WriteQueue_enqueue_owned ts w bytes =
    (case ensure_started ts w of
       (Inl error, w) \<Rightarrow> (Inl (error, bytes), w)
     | (Inr _, w) \<Rightarrow> (case enqueue_owned (wh_shared w) bytes of (r, q) \<Rightarrow> (r, w\<lparr>wh_shared := q\<rparr>)))"

definition WriteQueue_close :: "WriteQueue_handle \<Rightarrow> (PtyxError + unit) \<times> WriteQueue_handle" where
  "WriteQueue_close w = (case close (wh_shared w) of (r, q) \<Rightarrow> (r, w\<lparr>wh_shared := q\<rparr>))"

text \<open>Joining a thread, when there is a handle for it.\<close>

definition join_thread ::
    "thread_system \<Rightarrow> thread \<Rightarrow> string \<Rightarrow> bool \<Rightarrow> bool \<Rightarrow> bool \<Rightarrow> (PtyxError + unit) \<times> session_act list" where
  "join_thread ts t message stopping queue_closed present =
    (if \<not> present then (Inr (), [])
     else (case ts_join ts t of
         Join_ok \<Rightarrow> Inr ()
       | Join_panicked \<Rightarrow> Inl (PtyxError_new NativeError message), [Joined t stopping queue_closed]))"

definition WriteQueue_join ::
    "thread_system \<Rightarrow> bool \<Rightarrow> WriteQueue_handle \<Rightarrow> (PtyxError + unit) \<times> WriteQueue_handle \<times> session_act list" where
  "WriteQueue_join ts stopping w =
    (case lock handle_poisoned_error (wh_handle w) of
       Inl error \<Rightarrow> (Inl error, w, [])
     | Inr handle \<Rightarrow>
         (case join_thread ts Writer_thread ''writer panicked'' stopping (closed (wq (wh_shared w))) (handle \<noteq> None) of
            (r, acts) \<Rightarrow> (r, w\<lparr>wh_handle := set_guarded None (wh_handle w)\<rparr>, acts)))"

section \<open>Sessions and runtimes\<close>

record SessionRuntime =
  rt_stop :: bool
  rt_inflight :: "u64 mutex"
  rt_require_acks :: bool
  rt_writer :: WriteQueue_handle
  rt_handle :: "unit option"
  rt_wait_handle :: "unit option"
  rt_mode_handle :: "unit option"

record ('m, 'c) Session =
  ss_inner :: "('m, 'c) SessionInner"
  ss_runtime :: "SessionRuntime option mutex"
  ss_child_waiter :: "unit option mutex"

definition runtime_poisoned_error :: PtyxError where
  "runtime_poisoned_error = PtyxError_new Error ''runtime lock poisoned''"

definition runtime_closed_error :: PtyxError where
  "runtime_closed_error = PtyxError_new Closed ''session runtime is closed''"

definition session_is_closed_error :: PtyxError where
  "session_is_closed_error = PtyxError_new Closed ''session is closed''"

definition set_runtime :: "SessionRuntime option \<Rightarrow> ('m, 'c) Session \<Rightarrow> ('m, 'c) Session" where
  "set_runtime rt session = session\<lparr>ss_runtime := set_guarded rt (ss_runtime session)\<rparr>"

section \<open>Writing and acknowledging\<close>

definition ack_output :: "('m, 'c) Session \<Rightarrow> u64 \<Rightarrow> (PtyxError + unit) \<times> ('m, 'c) Session" where
  "ack_output session byte_count =
    (case lock runtime_poisoned_error (ss_runtime session) of
       Inl error \<Rightarrow> (Inl error, session)
     | Inr None \<Rightarrow> (Inl runtime_closed_error, session)
     | Inr (Some rt) \<Rightarrow>
         if rt_require_acks rt then
           (case lock inflight_poisoned_error (rt_inflight rt) of
              Inl error \<Rightarrow> (Inl error, session)
            | Inr bytes \<Rightarrow>
                (Inr (), set_runtime
                  (Some (rt\<lparr>rt_inflight := set_guarded (saturating_sub bytes byte_count) (rt_inflight rt)\<rparr>)) session))
         else (Inr (), session))"

definition session_write ::
    "thread_system \<Rightarrow> (usize \<Rightarrow> bool) \<Rightarrow> (WriteQueueShared \<Rightarrow> WriteQueueShared) \<Rightarrow> ('m, 'c) Session \<Rightarrow> u8 list
     \<Rightarrow> (PtyxError + unit) \<times> ('m, 'c) Session" where
  "session_write ts can_reserve meanwhile session bytes =
    (if bytes = [] then (Inr (), session)
     else if si_closed (ss_inner session) then (Inl session_is_closed_error, session)
     else case lock runtime_poisoned_error (ss_runtime session) of
       Inl error \<Rightarrow> (Inl error, session)
     | Inr None \<Rightarrow> (Inl runtime_closed_error, session)
     | Inr (Some rt) \<Rightarrow>
         (case WriteQueue_enqueue_bytes ts can_reserve meanwhile (rt_writer rt) bytes of
            (r, w) \<Rightarrow> (r, set_runtime (Some (rt\<lparr>rt_writer := w\<rparr>)) session)))"

definition session_write_owned ::
    "thread_system \<Rightarrow> ('m, 'c) Session \<Rightarrow> u8 list \<Rightarrow> (PtyxError \<times> u8 list + unit) \<times> ('m, 'c) Session" where
  "session_write_owned ts session bytes =
    (if si_closed (ss_inner session) then (Inl (session_is_closed_error, bytes), session)
     else case lock runtime_poisoned_error (ss_runtime session) of
       Inl error \<Rightarrow> (Inl (error, bytes), session)
     | Inr None \<Rightarrow> (Inl (runtime_closed_error, bytes), session)
     | Inr (Some rt) \<Rightarrow>
         (case WriteQueue_enqueue_owned ts (rt_writer rt) bytes of
            (r, w) \<Rightarrow> (r, set_runtime (Some (rt\<lparr>rt_writer := w\<rparr>)) session)))"

section \<open>Starting and closing the runtime\<close>

text \<open>
  \<open>start_runtime\<close>. When a thread cannot be started, the ones before it are stopped and joined and
  the error is returned; results of the clean-up are dropped, as by \<open>.ok()\<close>.
\<close>

definition abandon_runtime ::
    "thread_system \<Rightarrow> WriteQueue_handle \<Rightarrow> thread list \<Rightarrow> session_act list" where
  "abandon_runtime ts writer threads =
    (let writer = snd (WriteQueue_close writer); queue_closed = closed (wq (wh_shared writer)) in
     concat (map (\<lambda>t. snd (join_thread ts t [] True queue_closed True)) threads)
     @ snd (snd (WriteQueue_join ts True writer)))"

definition spawn_mode_watcher :: "platform \<Rightarrow> thread_system \<Rightarrow> PtyxError + unit option" where
  "spawn_mode_watcher plat ts =
    (if unix plat then
       (case ts_spawn ts Mode_thread of
          Inl error \<Rightarrow> Inl (PtyxError_io NativeError error)
        | Inr _ \<Rightarrow> Inr (Some ()))
     else Inr None)"

definition start_runtime ::
    "platform \<Rightarrow> thread_system \<Rightarrow> RuntimeConfig \<Rightarrow> ('m, 'c) Session
     \<Rightarrow> (PtyxError + unit) \<times> ('m, 'c) Session \<times> session_act list" where
  "start_runtime plat ts config session =
    (case lock runtime_poisoned_error (ss_runtime session) of
       Inl error \<Rightarrow> (Inl error, session, [])
     | Inr (Some _) \<Rightarrow> (Inl (PtyxError_new Busy ''session runtime already started''), session, [])
     | Inr None \<Rightarrow>
         let writer = WriteQueue_new (rc_write_queue_max_bytes config) in
         (case ts_spawn ts Reader_thread of
            Inl e \<Rightarrow> (Inl (PtyxError_io NativeError e), session, abandon_runtime ts writer [])
          | Inr _ \<Rightarrow>
         (case ts_spawn ts Wait_thread of
            Inl e \<Rightarrow> (Inl (PtyxError_io NativeError e), session, abandon_runtime ts writer [Reader_thread])
          | Inr _ \<Rightarrow>
         (case (if rc_enable_mode_events config then spawn_mode_watcher plat ts else Inr None) of
            Inl error \<Rightarrow> (Inl error, session, abandon_runtime ts writer [Reader_thread, Wait_thread])
          | Inr mode_handle \<Rightarrow>
              (Inr (), set_runtime (Some
                 \<lparr>rt_stop = False, rt_inflight = new_mutex 0, rt_require_acks = rc_require_acks config,
                  rt_writer = writer, rt_handle = Some (), rt_wait_handle = Some (), rt_mode_handle = mode_handle\<rparr>)
                 session, [])))))"

text \<open>
  \<open>close_runtime\<close>. A clean-up step that fails returns early; the runtime is then kept, without the
  handles already taken.
\<close>

definition close_runtime ::
    "thread_system \<Rightarrow> ('m, 'c) Session \<Rightarrow> (PtyxError + unit) \<times> ('m, 'c) Session \<times> session_act list" where
  "close_runtime ts session =
    (case lock runtime_poisoned_error (ss_runtime session) of
       Inl error \<Rightarrow> (Inl error, session, [])
     | Inr None \<Rightarrow> (Inr (), session, [])
     | Inr (Some rt) \<Rightarrow>
         let rt = rt\<lparr>rt_stop := True\<rparr> in
         (case WriteQueue_close (rt_writer rt) of
            (Inl error, w) \<Rightarrow> (Inl error, set_runtime (Some (rt\<lparr>rt_writer := w\<rparr>)) session, [])
          | (Inr _, w) \<Rightarrow>
         let rt = rt\<lparr>rt_writer := w\<rparr>; queue_closed = closed (wq (wh_shared w)) in
         (case join_thread ts Reader_thread ''session runtime panicked'' (rt_stop rt) queue_closed (rt_handle rt \<noteq> None) of
            (r, a1) \<Rightarrow> let rt = rt\<lparr>rt_handle := None\<rparr> in
         (case r of Inl error \<Rightarrow> (Inl error, set_runtime (Some rt) session, a1) | Inr _ \<Rightarrow>
         (case join_thread ts Wait_thread ''waiter panicked'' (rt_stop rt) queue_closed (rt_wait_handle rt \<noteq> None) of
            (r, a2) \<Rightarrow> let rt = rt\<lparr>rt_wait_handle := None\<rparr> in
         (case r of Inl error \<Rightarrow> (Inl error, set_runtime (Some rt) session, a1 @ a2) | Inr _ \<Rightarrow>
         (case join_thread ts Mode_thread ''mode watcher panicked'' (rt_stop rt) queue_closed (rt_mode_handle rt \<noteq> None) of
            (r, a3) \<Rightarrow> let rt = rt\<lparr>rt_mode_handle := None\<rparr> in
         (case r of Inl error \<Rightarrow> (Inl error, set_runtime (Some rt) session, a1 @ a2 @ a3) | Inr _ \<Rightarrow>
         (case WriteQueue_join ts (rt_stop rt) (rt_writer rt) of
            (Inl error, w, a4) \<Rightarrow>
              (Inl error, set_runtime (Some (rt\<lparr>rt_writer := w\<rparr>)) session, a1 @ a2 @ a3 @ a4)
          | (Inr _, _, a4) \<Rightarrow> (Inr (), set_runtime None session, a1 @ a2 @ a3 @ a4))))))))))"

end
