(* ===== verification/Session.thy ===== *)
theory Session
  imports Runtime
begin

text \<open>
  Sessions: the operations of \<open>native/src/session.rs\<close>, the exit waiter's handle of
  \<open>native/src/process.rs\<close>, and \<open>runtime::spawn\<close>. The PTY system is a parameter, and so are the
  system's answers to \<open>kill\<close> and what waiting for the child gives once it has ended.
\<close>

section \<open>The system around a session\<close>

record ('m, 'c) session_system = thread_system +
  sy_platform :: platform
  sy_strerror :: "i32 \<Rightarrow> string"
  sy_kill :: "i32 + unit" \<comment> \<open>\<open>libc::kill\<close>\<close>
  sy_killer :: "io_error + unit" \<comment> \<open>\<open>ChildKiller::kill\<close>\<close>
  sy_child_result :: "PtyxError + i32" \<comment> \<open>what \<open>wait_child\<close> returns when the child has ended\<close>
  sy_openpty :: "PtySize \<Rightarrow> io_error + 'm"
  sy_clone_reader :: "'m \<Rightarrow> io_error + unit"
  sy_take_writer :: "'m \<Rightarrow> io_error + unit"
  sy_tty_name :: "'m \<Rightarrow> u8 list option"
  sy_resize :: "PtySize \<Rightarrow> 'm \<Rightarrow> (io_error + unit) \<times> 'm"
  sy_get_size :: "'m \<Rightarrow> io_error + PtySize"
  sy_spawn_child :: "SpawnConfig \<Rightarrow> u8 list option \<Rightarrow> (PtyxError + 'c) option" \<comment> \<open>\<open>spawn_child\<close>\<close>
  sy_process_id :: "'c \<Rightarrow> u32 option"
  sy_exit_watcher :: "u32 \<Rightarrow> PtyxError + i32" \<comment> \<open>\<open>ExitWatcher_new\<close>\<close>

section \<open>The exit waiter\<close>

definition waiter_poisoned_error :: PtyxError where
  "waiter_poisoned_error = PtyxError_new Error ''child waiter lock poisoned''"

definition start_exit_waiter ::
    "('m, 'c, 'z) session_system_scheme \<Rightarrow> ('m, 'c) Session \<Rightarrow> (PtyxError + unit) \<times> ('m, 'c) Session" where
  "start_exit_waiter sys session =
    (case ts_spawn (thread_system.truncate sys) Child_waiter of
       Inl error \<Rightarrow> (Inl (PtyxError_io NativeError error), session)
     | Inr _ \<Rightarrow>
         (case lock waiter_poisoned_error (ss_child_waiter session) of
            Inl error \<Rightarrow> (Inl error, session)
          | Inr _ \<Rightarrow>
              (Inr (), session\<lparr>ss_child_waiter := set_guarded (Some ()) (ss_child_waiter session)\<rparr>)))"

text \<open>
  A waiter that ended without panicking has completed the wait state. The flags a waiter could see
  do not matter to it.
\<close>

definition join_exit_waiter ::
    "('m, 'c, 'z) session_system_scheme \<Rightarrow> ('m, 'c) Session
     \<Rightarrow> (PtyxError + unit) \<times> ('m, 'c) Session \<times> session_act list" where
  "join_exit_waiter sys session =
    (case lock waiter_poisoned_error (ss_child_waiter session) of
       Inl error \<Rightarrow> (Inl error, session, [])
     | Inr handle \<Rightarrow>
         let session = session\<lparr>ss_child_waiter := set_guarded None (ss_child_waiter session)\<rparr> in
         (case join_thread (thread_system.truncate sys) Child_waiter ''child waiter panicked'' True True (handle \<noteq> None) of
            (Inl error, acts) \<Rightarrow> (Inl error, session, acts)
          | (Inr _, []) \<Rightarrow> (Inr (), session, [])
          | (Inr _, acts) \<Rightarrow>
              (Inr (), session\<lparr>ss_inner := (ss_inner session)\<lparr>si_wait_state :=
                 complete (sy_child_result sys) (si_wait_state (ss_inner session))\<rparr>\<rparr>, acts)))"

section \<open>Operations\<close>

definition signal_act :: "(i32 \<times> i32) option \<Rightarrow> session_act list" where
  "signal_act sent = (case sent of None \<Rightarrow> [] | Some (pid, signal) \<Rightarrow> [Signalled pid signal])"

definition kill_inner ::
    "('m, 'c, 'z) session_system_scheme \<Rightarrow> ('m, 'c) Session \<Rightarrow> i32 \<Rightarrow> (PtyxError + bool) \<times> session_act list" where
  "kill_inner sys session signal =
    (case process_kill (sy_platform sys) (sy_strerror sys) (sy_kill sys) (sy_killer sys) (ss_inner session) signal of
       (r, sent) \<Rightarrow> (r, signal_act sent))"

definition session_kill ::
    "('m, 'c, 'z) session_system_scheme \<Rightarrow> ('m, 'c) Session \<Rightarrow> i32 \<Rightarrow> bool \<times> session_act list" where
  "session_kill sys session signal =
    (case kill_inner sys session signal of
       (Inl _, acts) \<Rightarrow> (False, acts)
     | (Inr b, acts) \<Rightarrow> (b, acts))"

definition session_close ::
    "('m, 'c, 'z) session_system_scheme \<Rightarrow> ('m, 'c) Session \<Rightarrow> ('m, 'c) Session \<times> session_act list" where
  "session_close sys session =
    (let session = session\<lparr>ss_inner := (ss_inner session)\<lparr>si_closed := True\<rparr>\<rparr>;
         (_, kill_acts) = kill_inner sys session (force_kill_signal (sy_platform sys));
         (_, session, runtime_acts) = close_runtime (thread_system.truncate sys) session;
         (_, session, waiter_acts) = join_exit_waiter sys session in
     (session, kill_acts @ runtime_acts @ waiter_acts))"

definition session_resize ::
    "('m, 'c, 'z) session_system_scheme \<Rightarrow> ('m, 'c) Session \<Rightarrow> PtySize \<Rightarrow> (PtyxError + unit) \<times> ('m, 'c) Session" where
  "session_resize sys session pty_size =
    (if si_closed (ss_inner session) then (Inl session_is_closed_error, session)
     else case lock (PtyxError_new Error ''master lock poisoned'') (si_master (ss_inner session)) of
       Inl error \<Rightarrow> (Inl error, session)
     | Inr master \<Rightarrow>
         (case sy_resize sys pty_size master of
            (r, master) \<Rightarrow>
              (map_err (PtyxError_io NativeError) r,
               session\<lparr>ss_inner := (ss_inner session)\<lparr>si_master := set_guarded master (si_master (ss_inner session))\<rparr>\<rparr>)))"

definition session_get_size ::
    "('m, 'c, 'z) session_system_scheme \<Rightarrow> ('m, 'c) Session \<Rightarrow> PtyxError + PtySize" where
  "session_get_size sys session =
     and_then (lock (PtyxError_new Error ''master lock poisoned'') (si_master (ss_inner session))) (\<lambda>master.
       map_err (PtyxError_io NativeError) (sy_get_size sys master))"

definition get_child_pid :: "('m, 'c) Session \<Rightarrow> PtyxError + u64" where
  "get_child_pid session =
     ok_or (PtyxError_new Unsupported ''child pid unavailable'') (map_option ucast (si_child_pid (ss_inner session)))"

definition get_tty_name :: "('m, 'c) Session \<Rightarrow> PtyxError + u8 list" where
  "get_tty_name session = ok_or (PtyxError_new Unsupported ''TTY name unavailable'') (si_tty_name (ss_inner session))"

section \<open>Starting a session\<close>

text \<open>\<open>CString::new(path.to_string_lossy()).ok()\<close>, on Unix.\<close>

definition tty_name_of :: "('m, 'c, 'z) session_system_scheme \<Rightarrow> 'm \<Rightarrow> u8 list option" where
  "tty_name_of sys master =
    (if unix (sy_platform sys) then
       Option.bind (sy_tty_name sys master)
         (\<lambda>path. let name = utf8_lossy path in if 0 \<in> set name then None else Some name)
     else None)"

definition session_spawn ::
    "('m, 'c, 'z) session_system_scheme \<Rightarrow> SpawnConfig
     \<Rightarrow> ((PtyxError + ('m, 'c) Session) \<times> session_act list) option" where
  "session_spawn sys config =
    (case sy_openpty sys (sc_size config) of
       Inl e \<Rightarrow> Some (Inl (PtyxError_io SpawnFailed e), [])
     | Inr master \<Rightarrow>
    (case sy_clone_reader sys master of
       Inl e \<Rightarrow> Some (Inl (PtyxError_io IoFailed e), [])
     | Inr _ \<Rightarrow>
    (case sy_take_writer sys master of
       Inl e \<Rightarrow> Some (Inl (PtyxError_io IoFailed e), [])
     | Inr _ \<Rightarrow>
    let tty_name = tty_name_of sys master in
    (case sy_spawn_child sys config tty_name of
       None \<Rightarrow> None
     | Some (Inl error) \<Rightarrow> Some (Inl error, [])
     | Some (Inr child) \<Rightarrow>
         let child_pid = sy_process_id sys child;
             exit_watcher = (if sy_platform sys = MacOS then
                 Option.bind child_pid (\<lambda>pid. case sy_exit_watcher sys pid of Inl _ \<Rightarrow> None | Inr w \<Rightarrow> Some w)
               else None);
             inner = \<lparr>si_master = new_mutex master, si_reader = new_mutex (), si_writer = new_mutex (),
               si_child = new_mutex (Some child), si_killer = new_mutex (), si_exit_watcher = exit_watcher,
               si_wait_state = WaitState_new, si_read_busy = False, si_write_busy = False, si_closed = False,
               si_child_pid = child_pid, si_tty_name = tty_name\<rparr>;
             session = \<lparr>ss_inner = inner, ss_runtime = new_mutex None, ss_child_waiter = new_mutex None\<rparr> in
         (case start_exit_waiter sys session of
            (Inl error, session) \<Rightarrow> Some (Inl error, snd (session_close sys session))
          | (Inr _, session) \<Rightarrow> Some (Inr session, []))))))"

definition runtime_spawn ::
    "('m, 'c, 'z) session_system_scheme \<Rightarrow> SessionOptions
     \<Rightarrow> ((PtyxError + ('m, 'c) Session) \<times> session_act list) option" where
  "runtime_spawn sys options =
    (case session_spawn sys (so_spawn options) of
       None \<Rightarrow> None
     | Some (Inl error, acts) \<Rightarrow> Some (Inl error, acts)
     | Some (Inr session, acts) \<Rightarrow>
         (case start_runtime (sy_platform sys) (thread_system.truncate sys) (so_runtime options) session of
            (Inl error, session, start_acts) \<Rightarrow>
              Some (Inl error, acts @ start_acts @ snd (session_close sys session))
          | (Inr _, session, start_acts) \<Rightarrow> Some (Inr session, acts @ start_acts)))"

section \<open>Runs of a session\<close>

text \<open>
  What can happen to a session: operations of the client, the exit waiter completing the wait state,
  and the session's threads working on the write queue and the in-flight counter.
\<close>

definition map_runtime :: "(SessionRuntime \<Rightarrow> SessionRuntime) \<Rightarrow> ('m, 'c) Session \<Rightarrow> ('m, 'c) Session" where
  "map_runtime f session = set_runtime (map_option f (guarded (ss_runtime session))) session"

definition map_queue :: "(WriteQueueShared \<Rightarrow> WriteQueueShared) \<Rightarrow> SessionRuntime \<Rightarrow> SessionRuntime" where
  "map_queue f rt = rt\<lparr>rt_writer := (rt_writer rt)\<lparr>wh_shared := f (wh_shared (rt_writer rt))\<rparr>\<rparr>"

text \<open>
  What the writer thread does to the queue. A write holds the lock of the runtime, so only the writer
  can work between the two locks of \<open>enqueue_bytes\<close>.
\<close>

datatype writer_work = Dequeues | Fails PtyxError

fun work_queue :: "writer_work \<Rightarrow> WriteQueueShared \<Rightarrow> WriteQueueShared" where
  "work_queue Dequeues q = snd (dequeue q)"
| "work_queue (Fails error) q = snd (fail q error)"

inductive session_step ::
    "('m, 'c, 'z) session_system_scheme \<Rightarrow> ('m, 'c) Session \<Rightarrow> session_act list \<Rightarrow> ('m, 'c) Session \<Rightarrow> bool"
  for sys where
  step_write: "session_write (thread_system.truncate sys) can_reserve (fold work_queue works) s bytes = (r, s')
    \<Longrightarrow> session_step sys s [] s'"
| step_write_owned: "session_write_owned (thread_system.truncate sys) s bytes = (r', s')
    \<Longrightarrow> session_step sys s [] s'"
| step_ack: "ack_output s byte_count = (r, s') \<Longrightarrow> session_step sys s [] s'"
| step_resize: "session_resize sys s pty_size = (r, s') \<Longrightarrow> session_step sys s [] s'"
| step_kill: "session_kill sys s signal = (b, acts) \<Longrightarrow> session_step sys s acts s"
| step_close: "session_close sys s = (s', acts) \<Longrightarrow> session_step sys s acts s'"
| step_child_ends: "session_step sys s []
    (s\<lparr>ss_inner := (ss_inner s)\<lparr>si_wait_state := complete (sy_child_result sys) (si_wait_state (ss_inner s))\<rparr>\<rparr>)"
| step_work: "session_step sys s [] (map_runtime (map_queue (work_queue w)) s)"
| step_reserve: "session_step sys s []
    (map_runtime (\<lambda>rt. rt\<lparr>rt_inflight := set_guarded bytes (rt_inflight rt)\<rparr>) s)"

inductive session_reachable ::
    "('m, 'c, 'z) session_system_scheme \<Rightarrow> SessionOptions \<Rightarrow> session_act list \<Rightarrow> ('m, 'c) Session \<Rightarrow> bool"
  for sys options where
  started: "runtime_spawn sys options = Some (Inr s, acts) \<Longrightarrow> session_reachable sys options acts s"
| stepped: "session_reachable sys options acts s \<Longrightarrow> session_step sys s new_acts s'
    \<Longrightarrow> session_reachable sys options (acts @ new_acts) s'"

section \<open>Well-formed sessions\<close>

text \<open>A runtime in the slot is running: nobody has stopped it, and its threads are still to be joined.\<close>

definition runtime_ok :: "('m, 'c, 'z) session_system_scheme \<Rightarrow> SessionOptions \<Rightarrow> SessionRuntime \<Rightarrow> bool" where
  "runtime_ok sys options rt \<longleftrightarrow>
     \<not> rt_stop rt \<and> rt_handle rt = Some () \<and> rt_wait_handle rt = Some ()
     \<and> rt_mode_handle rt =
         (if rc_enable_mode_events (so_runtime options) \<and> unix (sy_platform sys) then Some () else None)
     \<and> \<not> closed (wq (wh_shared (rt_writer rt)))
     \<and> \<not> poisoned (wq_state (wh_shared (rt_writer rt))) \<and> \<not> poisoned (wh_handle (rt_writer rt))"

definition session_ok :: "('m, 'c, 'z) session_system_scheme \<Rightarrow> SessionOptions \<Rightarrow> ('m, 'c) Session \<Rightarrow> bool" where
  "session_ok sys options s \<longleftrightarrow>
     \<not> poisoned (ss_runtime s) \<and> \<not> poisoned (ss_child_waiter s)
     \<and> \<not> poisoned (ws_result (si_wait_state (ss_inner s)))
     \<and> (case guarded (ss_runtime s) of
          None \<Rightarrow> si_closed (ss_inner s) \<and> guarded (ss_child_waiter s) = None
            \<and> guarded (ws_result (si_wait_state (ss_inner s))) \<noteq> None
        | Some rt \<Rightarrow> \<not> si_closed (ss_inner s) \<and> guarded (ss_child_waiter s) = Some () \<and> runtime_ok sys options rt)"

definition joins_succeed :: "('m, 'c, 'z) session_system_scheme \<Rightarrow> bool" where
  "joins_succeed sys \<longleftrightarrow> (\<forall>t. ts_join sys t = Join_ok)"

lemma ts_join_truncate [simp]: "ts_join (thread_system.truncate sys) = ts_join sys"
  and ts_spawn_truncate [simp]: "ts_spawn (thread_system.truncate sys) = ts_spawn sys"
  by (simp_all add: thread_system.truncate_def)

lemma set_runtime_simps [simp]:
  "guarded (ss_runtime (set_runtime rt s)) = rt" "poisoned (ss_runtime (set_runtime rt s)) = poisoned (ss_runtime s)"
  "ss_inner (set_runtime rt s) = ss_inner s" "ss_child_waiter (set_runtime rt s) = ss_child_waiter s"
  by (simp_all add: set_runtime_def)

text \<open>Working on the queue keeps it open and sound.\<close>

definition queue_open :: "WriteQueueShared \<Rightarrow> bool" where
  "queue_open q \<longleftrightarrow> \<not> closed (wq q) \<and> \<not> poisoned (wq_state q)"

lemma queue_open_work: "queue_open q \<Longrightarrow> queue_open (work_queue w q)"
proof (cases w)
  case Dequeues
  then show "queue_open q \<Longrightarrow> queue_open (work_queue w q)"
    by (cases rule: dequeue_cases [OF surjective_pairing [of "dequeue q"]]) (auto simp: queue_open_def)
qed (auto simp: queue_open_def fail_def lock_def)

lemma queue_open_works: "queue_open q \<Longrightarrow> queue_open (fold work_queue works q)"
  by (induction works arbitrary: q) (simp_all add: queue_open_work)

lemma queue_open_ops:
  "queue_open q \<Longrightarrow> enqueue_owned q bytes = (r, q') \<Longrightarrow> queue_open q'"
  "queue_open q \<Longrightarrow> enqueue_bytes can_reserve (fold work_queue works) q bytes = (r', q') \<Longrightarrow> queue_open q'"
proof -
  show owned: "queue_open q \<Longrightarrow> enqueue_owned q bytes = (r, q') \<Longrightarrow> queue_open q'" for q q' bytes r
    by (erule enqueue_owned_cases) (auto simp: queue_open_def)
  show "queue_open q \<Longrightarrow> enqueue_bytes can_reserve (fold work_queue works) q bytes = (r', q') \<Longrightarrow> queue_open q'"
    using owned queue_open_works [of q works]
    by (auto simp: enqueue_bytes_def Let_def split: if_splits sum.splits prod.splits)
qed

lemma ensure_started_frame:
  "\<not> poisoned (wh_handle w) \<Longrightarrow> ensure_started ts w = (r, w') \<Longrightarrow>
     wh_shared w' = wh_shared w \<and> \<not> poisoned (wh_handle w')"
  by (auto simp: ensure_started_def lock_def split: option.splits sum.splits)

lemma runtime_ok_writer:
  "runtime_ok sys options rt \<Longrightarrow> queue_open (wh_shared w) \<Longrightarrow> \<not> poisoned (wh_handle w)
     \<Longrightarrow> runtime_ok sys options (rt\<lparr>rt_writer := w\<rparr>)"
  by (simp add: runtime_ok_def queue_open_def)

lemma runtime_ok_queue:
  "runtime_ok sys options rt \<Longrightarrow> queue_open (wh_shared (rt_writer rt)) \<and> \<not> poisoned (wh_handle (rt_writer rt))"
  by (simp add: runtime_ok_def queue_open_def)

lemma write_queue_ops_ok:
  assumes "runtime_ok sys options rt"
  shows "WriteQueue_enqueue_bytes ts can_reserve (fold work_queue works) (rt_writer rt) bytes = (r, w)
      \<Longrightarrow> runtime_ok sys options (rt\<lparr>rt_writer := w\<rparr>)"
    and "WriteQueue_enqueue_owned ts (rt_writer rt) bytes = (r', w)
      \<Longrightarrow> runtime_ok sys options (rt\<lparr>rt_writer := w\<rparr>)"
  using runtime_ok_queue [OF assms] ensure_started_frame [of "rt_writer rt" ts]
  by (auto simp: WriteQueue_enqueue_bytes_def WriteQueue_enqueue_owned_def intro!: runtime_ok_writer [OF assms]
      split: prod.splits sum.splits dest!: queue_open_ops(1,2) [rotated])

lemma session_ok_running:
  "session_ok sys options s \<Longrightarrow> guarded (ss_runtime s) = Some rt \<Longrightarrow> runtime_ok sys options rt"
  by (simp add: session_ok_def)

lemma session_ok_set_runtime:
  "session_ok sys options s \<Longrightarrow> guarded (ss_runtime s) = Some rt \<Longrightarrow> runtime_ok sys options rt'
     \<Longrightarrow> session_ok sys options (set_runtime (Some rt') s)"
  by (simp add: session_ok_def)

lemma session_ok_map_runtime:
  "session_ok sys options s \<Longrightarrow> (\<And>rt. runtime_ok sys options rt \<Longrightarrow> runtime_ok sys options (f rt))
     \<Longrightarrow> session_ok sys options (map_runtime f s)"
  by (auto simp: session_ok_def map_runtime_def split: option.splits)

lemma write_ok:
  "session_ok sys options s \<Longrightarrow> session_write ts can_reserve (fold work_queue works) s bytes = (r, s') \<Longrightarrow> session_ok sys options s'"
  by (auto simp: session_write_def split: if_splits sum.splits option.splits prod.splits
      intro: session_ok_set_runtime write_queue_ops_ok(1) session_ok_running simp: lock_def)

lemma write_owned_ok:
  "session_ok sys options s \<Longrightarrow> session_write_owned ts s bytes = (r, s') \<Longrightarrow> session_ok sys options s'"
  by (auto simp: session_write_owned_def split: if_splits sum.splits option.splits prod.splits
      intro: session_ok_set_runtime write_queue_ops_ok(2) session_ok_running simp: lock_def)

lemma runtime_ok_inflight [simp]:
  "runtime_ok sys options (rt\<lparr>rt_inflight := m\<rparr>) = runtime_ok sys options rt"
  by (simp add: runtime_ok_def)

lemma ack_ok:
  "session_ok sys options s \<Longrightarrow> ack_output s n = (r, s') \<Longrightarrow> session_ok sys options s'"
  by (auto simp: ack_output_def lock_def split: if_splits sum.splits option.splits
      intro!: session_ok_set_runtime simp: session_ok_running)

lemma resize_ok:
  "session_ok sys options s \<Longrightarrow> session_resize sys s pty_size = (r, s') \<Longrightarrow> session_ok sys options s'"
  by (auto simp: session_resize_def session_ok_def lock_def split: if_splits sum.splits option.splits prod.splits)

lemma complete_result:
  "\<not> poisoned (ws_result ws) \<Longrightarrow> \<not> poisoned (ws_result (complete r ws))
     \<and> guarded (ws_result (complete r ws)) =
       (case guarded (ws_result ws) of None \<Rightarrow> Some r | Some r' \<Rightarrow> Some r')"
  by (simp add: complete_def lock_def split: option.splits)

lemma child_ends_ok:
  "session_ok sys options s \<Longrightarrow> session_ok sys options
     (s\<lparr>ss_inner := (ss_inner s)\<lparr>si_wait_state := complete result (si_wait_state (ss_inner s))\<rparr>\<rparr>)"
  by (auto simp: session_ok_def complete_def lock_def split: option.splits)

section \<open>Closing\<close>

text \<open>The joins of \<open>close\<close>: the started threads, with the stop flag set and the queue closed.\<close>

definition close_joins :: "SessionRuntime \<Rightarrow> session_act list" where
  "close_joins rt =
     [Joined Reader_thread True True, Joined Wait_thread True True]
     @ (if rt_mode_handle rt \<noteq> None then [Joined Mode_thread True True] else [])
     @ (if guarded (wh_handle (rt_writer rt)) \<noteq> None then [Joined Writer_thread True True] else [])
     @ [Joined Child_waiter True True]"

lemma close_opens:
  "queue_open q \<Longrightarrow> \<exists>q'. close q = (Inr (), q') \<and> closed (wq q')"
  by (simp add: close_def queue_open_def lock_def)

lemma close_runtime_running:
  assumes "\<And>t. ts_join ts t = Join_ok" "\<not> poisoned (ss_runtime s)" "guarded (ss_runtime s) = Some rt"
    and "rt_handle rt = Some ()" "rt_wait_handle rt = Some ()"
    and "queue_open (wh_shared (rt_writer rt))" "\<not> poisoned (wh_handle (rt_writer rt))"
  shows "\<exists>joins. close_runtime ts s = (Inr (), set_runtime None s, joins)
    \<and> joins @ [Joined Child_waiter True True] = close_joins rt"
proof -
  obtain q where q: "close (wh_shared (rt_writer rt)) = (Inr (), q)" "closed (wq q)"
    using close_opens [OF assms(6)] by blast
  show ?thesis
    using assms
    by (cases "rt_mode_handle rt"; cases "guarded (wh_handle (rt_writer rt))")
      (simp_all add: close_runtime_def lock_def WriteQueue_close_def q join_thread_def WriteQueue_join_def
        Let_def close_joins_def)
qed

lemma process_kill_closed:
  "process_kill plat strerror k kk (inner\<lparr>si_closed := b\<rparr>) signal = process_kill plat strerror k kk inner signal"
  by (simp add: process_kill_def has_cached_exit_def signal_child_def cong: sum.case_cong bool.case_cong)

lemma session_close_running:
  assumes "joins_succeed sys" "session_ok sys options s" "guarded (ss_runtime s) = Some rt"
  shows "session_close sys s =
    (s\<lparr>ss_inner := (ss_inner s)\<lparr>si_closed := True,
          si_wait_state := complete (sy_child_result sys) (si_wait_state (ss_inner s))\<rparr>,
       ss_runtime := set_guarded None (ss_runtime s), ss_child_waiter := set_guarded None (ss_child_waiter s)\<rparr>,
     snd (kill_inner sys s (force_kill_signal (sy_platform sys))) @ close_joins rt)"
proof -
  let ?s = "s\<lparr>ss_inner := (ss_inner s)\<lparr>si_closed := True\<rparr>\<rparr>"
  have kill: "kill_inner sys ?s signal = kill_inner sys s signal" for signal
    by (simp add: kill_inner_def process_kill_closed)
  obtain joins where joins: "close_runtime (thread_system.truncate sys) ?s = (Inr (), set_runtime None ?s, joins)"
    "joins @ [Joined Child_waiter True True] = close_joins rt"
    using close_runtime_running [of "thread_system.truncate sys" ?s rt] assms
    by (auto simp: joins_succeed_def session_ok_def runtime_ok_def queue_open_def)
  have waiter: "\<not> poisoned (ss_child_waiter s)" "guarded (ss_child_waiter s) = Some ()" "ts_join sys Child_waiter = Join_ok"
    using assms by (simp_all add: joins_succeed_def session_ok_def)
  show ?thesis
    using joins(2)
    by (cases "kill_inner sys s (force_kill_signal (sy_platform sys))")
      (simp add: session_close_def Let_def kill joins(1) join_exit_waiter_def lock_def waiter join_thread_def
        set_runtime_def)
qed

lemma session_close_closed:
  assumes "session_ok sys options s" "guarded (ss_runtime s) = None"
  shows "session_close sys s = (s\<lparr>ss_child_waiter := set_guarded None (ss_child_waiter s)\<rparr>, [])"
  using assms
  by (auto simp: session_close_def session_ok_def close_runtime_def lock_def join_exit_waiter_def join_thread_def
      Let_def kill_inner_def process_kill_def has_cached_exit_def is_ready_def signal_act_def)

section \<open>Sessions from their start\<close>

text \<open>A session whose runtime has not been started.\<close>

definition session_fresh :: "('m, 'c) Session \<Rightarrow> bool" where
  "session_fresh s \<longleftrightarrow>
     ss_runtime s = new_mutex None \<and> ss_child_waiter s = new_mutex (Some ())
     \<and> si_wait_state (ss_inner s) = WaitState_new \<and> \<not> si_closed (ss_inner s)"

lemma session_spawn_fresh: "session_spawn sys config = Some (Inr s, acts) \<Longrightarrow> session_fresh s \<and> acts = []"
  by (auto simp: session_spawn_def session_fresh_def Let_def start_exit_waiter_def lock_def new_mutex_def set_guarded_def
      split: sum.splits option.splits prod.splits)

lemma start_runtime_cases:
  assumes "session_fresh s"
  obtains (started) s' where "start_runtime plat ts config s = (Inr (), s', [])"
      "s' = set_runtime (Some \<lparr>rt_stop = False, rt_inflight = new_mutex 0, rt_require_acks = rc_require_acks config,
        rt_writer = WriteQueue_new (rc_write_queue_max_bytes config), rt_handle = Some (), rt_wait_handle = Some (),
        rt_mode_handle = (if rc_enable_mode_events config \<and> unix plat then Some () else None)\<rparr>) s"
  | (failed) e threads where "start_runtime plat ts config s =
        (Inl (PtyxError_io NativeError e), s, map (\<lambda>t. Joined t True True) threads)"
      "case ts_spawn ts Reader_thread of
         Inl e' \<Rightarrow> e = e' \<and> threads = []
       | Inr _ \<Rightarrow> (case ts_spawn ts Wait_thread of
           Inl e' \<Rightarrow> e = e' \<and> threads = [Reader_thread]
         | Inr _ \<Rightarrow> ts_spawn ts Mode_thread = Inl e \<and> rc_enable_mode_events config \<and> unix plat
             \<and> threads = [Reader_thread, Wait_thread])"
proof -
  have abandon: "abandon_runtime ts (WriteQueue_new n) threads = map (\<lambda>t. Joined t True True) threads"
    if "threads \<noteq> [] \<or> threads = []" for n threads
    by (induction threads)
      (simp_all add: abandon_runtime_def WriteQueue_new_def WriteQueue_close_def close_def WriteQueueShared_new_def
        new_mutex_def lock_def WriteQueue_join_def join_thread_def Let_def set_guarded_def wq_store_def notify_all_def)
  have lock: "lock e (ss_runtime s) = Inr None" for e :: PtyxError
    using assms by (simp add: session_fresh_def)
  show thesis
    using started failed
    by (cases "ts_spawn ts Reader_thread"; cases "ts_spawn ts Wait_thread"; cases "ts_spawn ts Mode_thread";
        cases "rc_enable_mode_events config"; cases "unix plat")
      (force simp: start_runtime_def lock Let_def abandon spawn_mode_watcher_def)+
qed

lemma runtime_spawn_queue:
  assumes "runtime_spawn sys options = Some (Inr s, acts)"
  shows "\<exists>rt. guarded (ss_runtime s) = Some rt
    \<and> rt_writer rt = WriteQueue_new (rc_write_queue_max_bytes (so_runtime options))"
proof -
  obtain s0 acts0 where s0: "session_spawn sys (so_spawn options) = Some (Inr s0, acts0)"
    using assms by (auto simp: runtime_spawn_def split: option.splits prod.splits sum.splits)
  show ?thesis
    by (rule start_runtime_cases [OF conjunct1 [OF session_spawn_fresh [OF s0]],
          of "sy_platform sys" "thread_system.truncate sys" "so_runtime options"])
      (use assms s0 in \<open>auto simp: runtime_spawn_def\<close>)
qed

lemma runtime_spawn_ok:
  assumes "runtime_spawn sys options = Some (Inr s, acts)"
  shows "session_ok sys options s \<and> acts = [] \<and> \<not> si_closed (ss_inner s)"
proof -
  obtain s0 acts0 where s0: "session_spawn sys (so_spawn options) = Some (Inr s0, acts0)"
    using assms by (auto simp: runtime_spawn_def split: option.splits prod.splits sum.splits)
  note fresh = session_spawn_fresh [OF s0]
  show ?thesis
  proof (cases rule: start_runtime_cases
      [OF conjunct1 [OF fresh], of "sy_platform sys" "thread_system.truncate sys" "so_runtime options",
        case_names started failed])
    case (started s')
    then show ?thesis
      using assms s0 fresh
      by (auto simp: runtime_spawn_def session_ok_def runtime_ok_def session_fresh_def new_mutex_def WaitState_new_def
          WriteQueue_new_def WriteQueueShared_new_def)
  next
    case (failed e threads)
    then show ?thesis
      using assms s0 by (auto simp: runtime_spawn_def)
  qed
qed

lemma session_step_ok:
  assumes "session_step sys s acts s'" "joins_succeed sys" "session_ok sys options s"
  shows "session_ok sys options s'"
  using assms(1)
proof cases
  case (step_close)
  then show ?thesis
  proof (cases "guarded (ss_runtime s)")
    case None
    then show ?thesis
      using step_close session_close_closed [OF assms(3) None] assms(3) by (auto simp: session_ok_def)
  next
    case (Some rt)
    then show ?thesis
      using step_close session_close_running [OF assms(2,3) Some] assms(3)
      by (auto simp: session_ok_def complete_result split: option.splits)
  qed
next
  case (step_work w)
  then show ?thesis
    using assms(3) queue_open_work
    by (auto intro!: session_ok_map_runtime simp: map_queue_def runtime_ok_def queue_open_def)
next
  case (step_reserve bytes)
  then show ?thesis
    using assms(3) by (auto intro!: session_ok_map_runtime)
qed (use assms(3) in \<open>auto intro: write_ok write_owned_ok ack_ok resize_ok child_ends_ok\<close>)

lemma reachable_ok:
  assumes "session_reachable sys options acts s" "joins_succeed sys"
  shows "session_ok sys options s"
  using assms(1)
proof induction
  case (started s acts)
  then show ?case
    using runtime_spawn_ok by blast
next
  case (stepped acts s new_acts s')
  then show ?case
    using session_step_ok [OF _ assms(2)] by blast
qed

lemma set_guarded_id: "guarded m = a \<Longrightarrow> set_guarded a m = m"
  by (auto simp: set_guarded_def)

text \<open>
  C8. Sessions stay well formed. In every session that \<open>spawn\<close> returned and that went through any
  operations of its client and any work of its threads: no lock is poisoned; either the runtime is
  running, with its stop flag clear, an open write queue, a handle for each thread it started and one
  for the exit waiter, and the session is open, or there is no runtime left, all handles are gone, the
  exit result is there, and the session is closed.
\<close>

theorem sessions_stay_well_formed:
  assumes "session_reachable sys options acts s" "joins_succeed sys"
  shows "session_ok sys options s"
  using assms by (rule reachable_ok)



lemma session_close_fresh:
  assumes "session_fresh s" "joins_succeed sys"
  shows "snd (session_close sys s) =
    snd (kill_inner sys s (force_kill_signal (sy_platform sys))) @ [Joined Child_waiter True True]"
  using assms
  by (auto simp: session_close_def session_fresh_def joins_succeed_def close_runtime_def lock_def new_mutex_def
      join_exit_waiter_def join_thread_def set_guarded_def Let_def kill_inner_def process_kill_closed
      split: prod.splits)


section \<open>An example\<close>

definition demo_system :: "(thread \<Rightarrow> io_error + unit) \<Rightarrow> (unit, unit) session_system" where
  "demo_system spawns =
     \<lparr>ts_spawn = spawns, ts_join = (\<lambda>_. Join_ok), sy_platform = Linux, sy_strerror = (\<lambda>_. []),
      sy_kill = Inr (), sy_killer = Inr (), sy_child_result = Inr 137, sy_openpty = (\<lambda>_. Inr ()),
      sy_clone_reader = (\<lambda>_. Inr ()), sy_take_writer = (\<lambda>_. Inr ()), sy_tty_name = (\<lambda>_. Some [47, 116]),
      sy_resize = (\<lambda>_ m. (Inr (), m)), sy_get_size = (\<lambda>_. Inl (io_error_new Io_Other [])),
      sy_spawn_child = (\<lambda>_ _. Some (Inr ())), sy_process_id = (\<lambda>_. Some 77), sy_exit_watcher = (\<lambda>_. Inr 5)\<rparr>"

definition demo_options :: SessionOptions where
  "demo_options =
     \<lparr>so_spawn = demo_spawn Inherit [],
      so_runtime = \<lparr>rc_output = demo_config, rc_require_acks = True, rc_enable_mode_events = True,
        rc_mode_poll_interval = 1000, rc_write_queue_max_bytes = 64\<rparr>\<rparr>"

text \<open>The session as it is started, and after a first write, which starts the writer thread.\<close>

definition demo_session :: "(unit, unit) Session" where
  "demo_session =
    (case runtime_spawn (demo_system (\<lambda>_. Inr ())) demo_options of Some (Inr s, _) \<Rightarrow> s)"

definition demo_written :: "(unit, unit) Session" where
  "demo_written =
     snd (session_write (thread_system.truncate (demo_system (\<lambda>_. Inr ()))) (\<lambda>_. True) (fold work_queue []) demo_session [7])"

lemma demo_joins: "joins_succeed (demo_system spawns)"
  by (simp add: joins_succeed_def demo_system_def)

lemmas demo_eval =
  demo_system_def demo_options_def demo_spawn_def runtime_spawn_def session_spawn_def tty_name_of_def
  start_exit_waiter_def start_runtime_def spawn_mode_watcher_def unix_def lock_def new_mutex_def Let_def

lemma demo_spawned: "runtime_spawn (demo_system (\<lambda>_. Inr ())) demo_options = Some (Inr demo_session, [])"
proof -
  have "\<exists>s. runtime_spawn (demo_system (\<lambda>_. Inr ())) demo_options = Some (Inr s, [])"
    by (simp add: demo_eval set_guarded_def)
  then show ?thesis
    by (auto simp: demo_session_def)
qed

lemma demo_reachable: "session_reachable (demo_system (\<lambda>_. Inr ())) demo_options [] demo_session"
  using demo_spawned by (rule started)

lemma demo_reachable_written: "session_reachable (demo_system (\<lambda>_. Inr ())) demo_options [] demo_written"
  using stepped [OF demo_reachable step_write [where works = "[]", OF surjective_pairing]]
  by (simp add: demo_written_def del: fold_simps)

lemma demo_written_fields:
  "si_child_pid (ss_inner demo_written) = Some 77" "guarded (ws_result (si_wait_state (ss_inner demo_written))) = None"
  "case guarded (ss_runtime demo_written) of None \<Rightarrow> False
   | Some rt \<Rightarrow> rt_mode_handle rt = Some () \<and> guarded (wh_handle (rt_writer rt)) = Some ()"
proof -
  have session: "si_child_pid (ss_inner demo_session) = Some 77"
    "guarded (ws_result (si_wait_state (ss_inner demo_session))) = None" "\<not> si_closed (ss_inner demo_session)"
    "\<not> poisoned (ss_runtime demo_session)"
    "case guarded (ss_runtime demo_session) of None \<Rightarrow> False
     | Some rt \<Rightarrow> rt_mode_handle rt = Some () \<and> wh_handle (rt_writer rt) = new_mutex None"
    by (simp_all add: demo_session_def demo_eval set_guarded_def set_runtime_def WaitState_new_def WriteQueue_new_def)
  then show "si_child_pid (ss_inner demo_written) = Some 77"
    "guarded (ws_result (si_wait_state (ss_inner demo_written))) = None"
    "case guarded (ss_runtime demo_written) of None \<Rightarrow> False
     | Some rt \<Rightarrow> rt_mode_handle rt = Some () \<and> guarded (wh_handle (rt_writer rt)) = Some ()"
    by (auto simp: demo_written_def session_write_def lock_def WriteQueue_enqueue_bytes_def ensure_started_def
        demo_system_def new_mutex_def split: option.splits prod.splits sum.splits)
qed

theorem sessions_stay_well_formed_witness:
  "session_ok (demo_system (\<lambda>_. Inr ())) demo_options demo_written"
  by (rule sessions_stay_well_formed [OF demo_reachable_written demo_joins])



text \<open>
  The mode watcher cannot be started: the thread that waits for the child's exit is joined while the
  child runs and before it is killed.
\<close>

definition no_mode_thread :: "thread \<Rightarrow> io_error + unit" where
  "no_mode_thread t = (if t = Mode_thread then Inl (io_error_new Io_Other []) else Inr ())"


end
