(* ===== verification/Loops.thy ===== *)
theory Loops
  imports Session
begin

text \<open>
  The thread loops of \<open>native/src/runtime.rs\<close>: the thread that posts the exit, and the one that
  watches the terminal mode. What a loop observes of the other threads and of the clock is a script;
  a loop that has not returned when its script ends has the result \<open>None\<close>. What other threads post
  in between is left out.
\<close>

section \<open>Posting the exit\<close>

definition wait_loop ::
    "WaitState \<Rightarrow> bool \<Rightarrow> DartPort \<Rightarrow> 'z message_state_scheme \<Rightarrow> 'z message_state_scheme option" where
  "wait_loop ws stopped event_port s =
    (case fst (wait_pass 0 ws) of
       None \<Rightarrow> None
     | Some (Inr code) \<Rightarrow> Some (if \<not> stopped then snd (post_exit event_port code s) else s)
     | Some (Inl error) \<Rightarrow> Some (if \<not> stopped then snd (post_error event_port Wait error s) else s))"

section \<open>Sleeping\<close>

definition INTERRUPTIBLE_SLEEP_STEP :: Duration where
  "INTERRUPTIBLE_SLEEP_STEP = from_millis 10"

text \<open>Each pass sees the stop flag and the time; the result is the sleeps taken.\<close>

fun sleep_passes :: "Duration \<Rightarrow> (bool \<times> Duration) list \<Rightarrow> Duration list option" where
  "sleep_passes deadline [] = None"
| "sleep_passes deadline ((stopped, at) # passes) =
     (if stopped then Some []
      else if at \<ge> deadline then Some []
      else map_option ((#) (min (deadline - at) INTERRUPTIBLE_SLEEP_STEP)) (sleep_passes deadline passes))"

definition sleep_interruptibly :: "Duration \<Rightarrow> Duration \<Rightarrow> (bool \<times> Duration) list \<Rightarrow> Duration list option" where
  "sleep_interruptibly started duration passes = sleep_passes (started + duration) passes"

text \<open>The clock moves on by at least what was slept.\<close>

fun clock_follows :: "Duration \<Rightarrow> Duration \<Rightarrow> (bool \<times> Duration) list \<Rightarrow> bool" where
  "clock_follows deadline earliest [] = True"
| "clock_follows deadline earliest ((stopped, at) # passes) \<longleftrightarrow>
     earliest \<le> at \<and> clock_follows deadline (at + min (deadline - at) INTERRUPTIBLE_SLEEP_STEP) passes"

lemma step_positive: "0 < INTERRUPTIBLE_SLEEP_STEP"
  by (simp add: INTERRUPTIBLE_SLEEP_STEP_def from_millis_def)

lemma sleep_passes_bounds:
  assumes "clock_follows deadline earliest passes"
  shows "case sleep_passes deadline passes of
      None \<Rightarrow> length passes * INTERRUPTIBLE_SLEEP_STEP < (deadline - earliest) + 2 * INTERRUPTIBLE_SLEEP_STEP
    | Some sleeps \<Rightarrow> list_all (\<lambda>d. 0 < d \<and> d \<le> INTERRUPTIBLE_SLEEP_STEP) sleeps
        \<and> sum_list sleeps \<le> deadline - earliest"
  using assms
proof (induction deadline passes arbitrary: earliest rule: sleep_passes.induct)
  case (1 deadline)
  then show ?case
    using step_positive by simp
next
  case (2 deadline stopped at passes)
  let ?sleep = "min (deadline - at) INTERRUPTIBLE_SLEEP_STEP"
  show ?case
  proof (cases "stopped \<or> at \<ge> deadline")
    case False
    have ih: "case sleep_passes deadline passes of
        None \<Rightarrow> length passes * INTERRUPTIBLE_SLEEP_STEP < (deadline - (at + ?sleep)) + 2 * INTERRUPTIBLE_SLEEP_STEP
      | Some sleeps \<Rightarrow> list_all (\<lambda>d. 0 < d \<and> d \<le> INTERRUPTIBLE_SLEEP_STEP) sleeps
          \<and> sum_list sleeps \<le> deadline - (at + ?sleep)"
      using 2(1) [OF _ _ conjunct2 [OF 2(2) [unfolded clock_follows.simps]]] False by simp
    show ?thesis
    proof (cases "deadline - at \<le> INTERRUPTIBLE_SLEEP_STEP")
      case True
      then have wake: "at + ?sleep = deadline"
        using False by simp
      show ?thesis
      proof (cases passes)
        case (Cons pass rest)
        then have "sleep_passes deadline passes = Some []"
          using 2(2) wake by (cases pass) auto
        then show ?thesis
          using False 2(2) step_positive by (simp add: min_def) linarith
      qed (use False 2(2) step_positive in auto)
    next
      case large: False
      then show ?thesis
        using False ih 2(2) step_positive by (auto split: option.splits)
    qed
  qed auto
qed

text \<open>
  C34. The mode watcher sleeps its interval and no longer, in short steps. Whatever the clock does, as
  long as it moves on by what is slept: no single sleep is longer than ten milliseconds, so a stop is
  seen within that time; all of them together are at most the interval; and the sleep is over after
  at most the interval in steps of ten milliseconds, plus two passes.
\<close>

theorem sleep_is_bounded:
  assumes "clock_follows (started + duration) started passes"
  shows "case sleep_interruptibly started duration passes of
      None \<Rightarrow> length passes * 10000000 < duration + 20000000
    | Some sleeps \<Rightarrow> list_all (\<lambda>d. 0 < d \<and> d \<le> 10000000) sleeps \<and> sum_list sleeps \<le> duration"
  using sleep_passes_bounds [OF assms]
  by (simp add: sleep_interruptibly_def INTERRUPTIBLE_SLEEP_STEP_def from_millis_def split: option.splits)

text \<open>An interval of 25 ms takes sleeps of 10, 10 and 5 ms on an exact clock.\<close>

theorem sleep_is_bounded_witness:
  "sleep_interruptibly 7 25000000 [(False, 7), (False, 10000007), (False, 20000007), (False, 25000007)]
     = Some [10000000, 10000000, 5000000]"
  using sleep_is_bounded [of 7 25000000 "[(False, 7), (False, 10000007), (False, 20000007), (False, 25000007)]"]
  by (simp add: sleep_interruptibly_def INTERRUPTIBLE_SLEEP_STEP_def from_millis_def)

section \<open>Watching the terminal mode\<close>

text \<open>
  What one pass of \<open>mode_loop\<close> observes: the stop flag, the master, and the passes of its sleep.
\<close>

record mode_turn =
  mt_stop :: bool
  mt_master :: "local_flags option mutex"
  mt_started :: Duration
  mt_sleep :: "(bool \<times> Duration) list"

fun mode_loop ::
    "DartPort \<Rightarrow> Duration \<Rightarrow> TermMode option \<Rightarrow> mode_turn list \<Rightarrow> 'z message_state_scheme
     \<Rightarrow> 'z message_state_scheme option" where
  "mode_loop event_port interval last_mode [] s = None"
| "mode_loop event_port interval last_mode (turn # turns) s =
     (if mt_stop turn then Some s
      else case term_mode_snapshot (mt_master turn) of
        Inl error \<Rightarrow> Some (snd (post_error event_port Mode error s))
      | Inr mode \<Rightarrow>
          if last_mode = None \<or> last_mode \<noteq> Some mode then
            (case post_term_mode event_port mode s of
               (False, s) \<Rightarrow> Some s
             | (True, s) \<Rightarrow>
                 (case sleep_interruptibly (mt_started turn) interval (mt_sleep turn) of
                    None \<Rightarrow> None
                  | Some _ \<Rightarrow> mode_loop event_port interval (Some mode) turns s))
          else (case sleep_interruptibly (mt_started turn) interval (mt_sleep turn) of
                  None \<Rightarrow> None
                | Some _ \<Rightarrow> mode_loop event_port interval last_mode turns s))"

text \<open>What should be posted: every mode that differs from the one before it, and a final error.\<close>

fun snapshots :: "mode_turn list \<Rightarrow> TermMode list \<times> PtyxError option" where
  "snapshots [] = ([], None)"
| "snapshots (turn # turns) =
     (if mt_stop turn then ([], None)
      else case term_mode_snapshot (mt_master turn) of
        Inl error \<Rightarrow> ([], Some error)
      | Inr mode \<Rightarrow> (case snapshots turns of (modes, error) \<Rightarrow> (mode # modes, error)))"

definition mode_error_event :: "PtyxError \<Rightarrow> event_message" where
  "mode_error_event error =
     Failed PTYX_ERROR_SOURCE_MODE (status_for_error_kind (err_kind error)) (cstring_or ''error'' (err_message error))"

definition mode_events :: "mode_turn list \<Rightarrow> event_message list" where
  "mode_events turns =
    (case snapshots turns of (modes, error) \<Rightarrow>
       map Mode_changed (remdups_adj modes) @ (case error of None \<Rightarrow> [] | Some e \<Rightarrow> [mode_error_event e]))"

fun changes :: "TermMode option \<Rightarrow> TermMode list \<Rightarrow> TermMode list" where
  "changes last_mode [] = []"
| "changes last_mode (mode # modes) =
     (if last_mode = Some mode then changes last_mode modes else mode # changes (Some mode) modes)"

lemma changes_remdups_adj: "changes None modes = remdups_adj modes"
proof -
  have from_mode: "mode # changes (Some mode) ms = remdups_adj (mode # ms)" for mode ms
  proof (induction ms arbitrary: mode)
    case (Cons m ms)
    then show ?case
      by (cases "mode = m") (simp_all add: Cons [symmetric])
  qed simp
  show ?thesis
    by (cases modes) (simp_all add: from_mode del: remdups_adj.simps, simp)
qed

text \<open>Posts go on until one is refused.\<close>

definition posted_until_refused :: "'e list \<Rightarrow> ('e \<times> bool) list \<Rightarrow> bool" where
  "posted_until_refused events posts \<longleftrightarrow>
     prefix (map fst posts) events \<and> list_all snd (butlast posts)
     \<and> (map fst posts = events \<or> (posts \<noteq> [] \<and> \<not> snd (last posts)))"

lemma posted_Cons:
  "posted_until_refused (e # events) ((e, True) # posts) \<longleftrightarrow> posted_until_refused events posts"
  "posted_until_refused (e # events) [(e, b)] \<longleftrightarrow> events = [] \<or> \<not> b"
  by (auto simp: posted_until_refused_def)

lemma mode_loop_posts:
  assumes "linked s" "mode_loop event_port interval last_mode turns s = Some s'"
  shows "\<exists>posts. event_log event_port s' = event_log event_port s @ posts
    \<and> posted_until_refused
        (case snapshots turns of (modes, error) \<Rightarrow>
           map Mode_changed (changes last_mode modes)
             @ (case error of None \<Rightarrow> [] | Some e \<Rightarrow> [mode_error_event e])) posts"
  using assms
proof (induction turns arbitrary: last_mode s)
  case (Cons turn turns)
  show ?case
  proof (cases "mt_stop turn")
    case True
    then show ?thesis
      using Cons.prems by (auto simp: posted_until_refused_def)
  next
    case running: False
    show ?thesis
    proof (cases "term_mode_snapshot (mt_master turn)")
      case (Inl error)
      then show ?thesis
        using Cons.prems running
        by (auto simp: event_log_posts(2) mode_error_event_def posted_Cons(2))
    next
      case (Inr mode)
      obtain modes error where rest: "snapshots turns = (modes, error)"
        by fastforce
      show ?thesis
      proof (cases "last_mode = Some mode")
        case True
        then have "mode_loop event_port interval last_mode turns s = Some s'"
          using Cons.prems running Inr by (auto split: option.splits)
        then show ?thesis
          using Cons.IH [OF Cons.prems(1)] running Inr rest True by auto
      next
        case changed: False
        obtain answer s1 where post: "post_term_mode event_port mode s = (answer, s1)"
          by fastforce
        have log: "event_log event_port s1 = event_log event_port s @ [(Mode_changed mode, answer)]"
          and linked: "linked s1"
          using event_log_posts(3) [OF Cons.prems(1), of event_port mode] linked_posts(3) [of event_port mode s]
            Cons.prems(1) post by simp_all
        show ?thesis
        proof (cases answer)
          case True
          then have "mode_loop event_port interval (Some mode) turns s1 = Some s'"
            using Cons.prems running Inr changed post by (auto split: option.splits)
          from Cons.IH [OF linked this] show ?thesis
            using log running Inr rest changed True by (force simp: posted_Cons)
        next
          case False
          then have "s' = s1"
            using Cons.prems running Inr changed post by auto
          then show ?thesis
            using log running Inr rest changed False
            by (intro exI [of _ "[(Mode_changed mode, False)]"]) (auto simp: posted_Cons)
        qed
      qed
    qed
  qed
qed simp

text \<open>
  C19. Mode events are the changes of the mode. From its start to its return the watcher posts, in
  order, each mode it sees that differs from the one seen before, and, when the mode cannot be read,
  one error as its last event; it posts nothing else on the event port, and stops early only when a
  post is refused.
\<close>

theorem mode_events_are_changes:
  assumes "linked s" "mode_loop event_port interval None turns s = Some s'"
  shows "\<exists>posts. event_log event_port s' = event_log event_port s @ posts
    \<and> posted_until_refused (mode_events turns) posts"
  using mode_loop_posts [OF assms]
  by (simp add: mode_events_def changes_remdups_adj split: prod.splits)

text \<open>
  The exit is reported once, or not at all. The thread that waits for the exit returns exactly
  when there is a result; it then posts one event, the exit code or the error, unless the runtime was
  stopped meanwhile, and posts nothing then.
\<close>

theorem exit_is_reported_once:
  assumes "linked s" "\<not> poisoned (ws_result ws)"
  shows "case (wait_loop ws stopped event_port s, guarded (ws_result ws)) of
      (None, result) \<Rightarrow> result = None
    | (Some s', Some result) \<Rightarrow>
        if stopped then s' = s
        else \<exists>answer. event_log event_port s' = event_log event_port s @
          [(case result of Inr code \<Rightarrow> Exited code
            | Inl error \<Rightarrow> Failed PTYX_ERROR_SOURCE_WAIT (status_for_error_kind (err_kind error))
                (cstring_or ''error'' (err_message error)), answer)]
    | (Some _, None) \<Rightarrow> False"
  using assms
  by (auto simp: wait_loop_def wait_pass_def lock_def event_log_posts split: option.splits sum.splits)

section \<open>Examples\<close>

definition demo_turn :: "bool \<Rightarrow> bool \<Rightarrow> mode_turn" where
  "demo_turn stopped echo_on =
     \<lparr>mt_stop = stopped,
      mt_master = new_mutex (Some \<lparr>ICANON = True, ECHO = echo_on, ISIG = True\<rparr>),
      mt_started = 0, mt_sleep = [(False, 0), (False, 10000000)]\<rparr>"

text \<open>Echo is on, on, off; then the watcher is stopped: two events.\<close>

definition demo_turns :: "mode_turn list" where
  "demo_turns = [demo_turn False True, demo_turn False True, demo_turn False False, demo_turn True False]"

lemma demo_linked: "linked (demo_sys [])"
  by (simp add: linked_def demo_sys_def)

lemma demo_snapshots: "snapshots demo_turns =
    (map (\<lambda>echo_on. \<lparr>tm_canonical = Some True, tm_echo = Some echo_on, tm_signals = Some True\<rparr>) [True, True, False], None)"
  by (simp add: demo_turns_def demo_turn_def term_mode_snapshot_def lock_def new_mutex_def)

lemma accepted_mode:
  assumes "dl_post (msg_vm s) = Some (\<lambda>_ _ _. True)"
  obtains s' where "post_term_mode port mode s = (True, s')" "dl_post (msg_vm s') = Some (\<lambda>_ _ _. True)"
proof -
  obtain answer s' where post: "post_term_mode port mode s = (answer, s')"
    by fastforce
  then have "answer" "dl_post (msg_vm s') = Some (\<lambda>_ _ _. True)"
    using assms
    by (auto simp: post_term_mode_def post_message_def post_array_def post_cobject_def Let_def length_fits_dart_def
        split: if_splits)
  with post that show thesis
    by simp
qed

lemma demo_mode_loop: "\<exists>s. mode_loop 2 10000000 None demo_turns (demo_sys []) = Some s"
proof -
  let ?mode = "\<lambda>echo_on. \<lparr>tm_canonical = Some True, tm_echo = Some echo_on, tm_signals = Some True\<rparr>"
  have "dl_post (msg_vm (demo_sys [])) = Some (\<lambda>_ _ _. True)"
    by (simp add: demo_sys_def)
  then obtain s1 where s1: "post_term_mode 2 (?mode True) (demo_sys []) = (True, s1)"
      "dl_post (msg_vm s1) = Some (\<lambda>_ _ _. True)"
    by (rule accepted_mode)
  from s1(2) obtain s2 where "post_term_mode 2 (?mode False) s1 = (True, s2)"
    by (rule accepted_mode)
  with s1(1) show ?thesis
    by (simp add: demo_turns_def demo_turn_def term_mode_snapshot_def lock_def new_mutex_def
        sleep_interruptibly_def INTERRUPTIBLE_SLEEP_STEP_def from_millis_def)
qed

lemma demo_empty: "event_log 2 (demo_sys []) = []"
  by (simp add: event_log_def port_posts_def dart_posts_def demo_sys_def map_filter_def)

theorem mode_events_are_changes_witness:
  "\<exists>s. mode_loop 2 10000000 None demo_turns (demo_sys []) = Some s
     \<and> posted_until_refused (mode_events demo_turns) (event_log 2 s) \<and> length (mode_events demo_turns) = 2"
proof -
  obtain s where "mode_loop 2 10000000 None demo_turns (demo_sys []) = Some s"
    using demo_mode_loop by blast
  with mode_events_are_changes [OF demo_linked this] show ?thesis
    by (simp add: demo_empty mode_events_def demo_snapshots)
qed

theorem exit_is_reported_once_witness:
  "case wait_loop (complete (Inr 3) WaitState_new) False 2 (demo_sys []) of
     None \<Rightarrow> False | Some s \<Rightarrow> \<exists>answer. event_log 2 s = [(Exited 3, answer)]"
  using exit_is_reported_once [OF demo_linked, of "complete (Inr 3) WaitState_new" False 2]
  by (simp add: complete_def WaitState_new_def lock_def new_mutex_def set_guarded_def demo_empty split: option.splits)

end
