(* ===== verification/OwnedBuffer.thy ===== *)
theory OwnedBuffer
  imports Options
begin

text \<open>
  Caller-filled buffers: \<open>native/src/owned_buffer.rs\<close> and the handle functions of
  \<open>native/src/abi.rs\<close>. The handles the caller owns are a partial map from (non-null) addresses
  to contents. \<open>Box::from_raw\<close> takes a handle out of the map into an \<open>owned_box\<close>, and
  \<open>Box::into_raw\<close> puts it back; passing an address that is not a live handle breaks the C
  contract, and the model then has no result (\<open>None\<close>). Whether the allocator can provide a
  capacity is a parameter, and so is the address it picks.
\<close>

type_synonym buffer_heap = "u64 \<rightharpoonup> u8 list"

record owned_box =
  box_addr :: u64
  box_bytes :: "u8 list"

definition owned_allocation_error :: PtyxError where
  "owned_allocation_error = PtyxError_new OutOfMemory ''failed to allocate write buffer''"

definition owned_alloc :: "(usize \<Rightarrow> bool) \<Rightarrow> usize \<Rightarrow> PtyxError + u8 list" where
  "owned_alloc can_reserve capacity =
    (if \<not> can_reserve capacity then Inl owned_allocation_error
     else Inr (replicate (unat capacity) 0))"

definition truncate :: "u8 list \<Rightarrow> usize \<Rightarrow> PtyxError + u8 list" where
  "truncate bytes n =
    (if n > vec_len bytes then
       Inl (PtyxError_new InvalidArgument ''write length exceeds buffer capacity'')
     else Inr (take (unat n) bytes))"

definition alloc_owned_buffer ::
    "(usize \<Rightarrow> bool) \<Rightarrow> u64 \<Rightarrow> usize \<Rightarrow> u64 option \<Rightarrow> buffer_heap
     \<Rightarrow> (PtyxError + unit) \<times> u64 option \<times> buffer_heap" where
  "alloc_owned_buffer can_reserve fresh capacity out_buffer h =
    (case out_buffer of
       None \<Rightarrow> (Inl (PtyxError_new InvalidArgument ''out_buffer must not be null''), None, h)
     | Some old \<Rightarrow>
         (case owned_alloc can_reserve capacity of
            Inl e \<Rightarrow> (Inl e, Some old, h)
          | Inr bytes \<Rightarrow> (Inr (), Some fresh, h(fresh \<mapsto> bytes))))"

text \<open>The bytes the returned data pointer leads to; no pointer for a null handle.\<close>

definition owned_buffer_data :: "u64 \<Rightarrow> buffer_heap \<Rightarrow> u8 list option option" where
  "owned_buffer_data buffer h =
    (if buffer = 0 then Some None
     else case h buffer of None \<Rightarrow> None | Some bytes \<Rightarrow> Some (Some bytes))"

definition free_owned_buffer :: "u64 \<Rightarrow> buffer_heap \<Rightarrow> buffer_heap option" where
  "free_owned_buffer buffer h =
    (if buffer = 0 then Some h
     else case h buffer of None \<Rightarrow> None | Some _ \<Rightarrow> Some (h(buffer := None)))"

definition take_owned_buffer ::
    "u64 \<Rightarrow> usize \<Rightarrow> buffer_heap \<Rightarrow> ((PtyxError + owned_box) \<times> buffer_heap) option" where
  "take_owned_buffer buffer n h =
    (if buffer = 0 then
       Some (Inl (PtyxError_new InvalidArgument ''buffer must not be null''), h)
     else case h buffer of
       None \<Rightarrow> None
     | Some bytes \<Rightarrow>
         (case truncate bytes n of
            Inl e \<Rightarrow> Some (Inl e, h)
          | Inr kept \<Rightarrow> Some (Inr \<lparr>box_addr = buffer, box_bytes = kept\<rparr>, h(buffer := None))))"

definition take_owned_buffer_bytes :: "owned_box \<Rightarrow> u8 list \<times> owned_box" where
  "take_owned_buffer_bytes b = (box_bytes b, b\<lparr>box_bytes := []\<rparr>)"

definition return_owned_buffer :: "owned_box \<Rightarrow> u8 list \<Rightarrow> buffer_heap \<Rightarrow> buffer_heap" where
  "return_owned_buffer b bytes h = h(box_addr b \<mapsto> bytes)"

lemma truncate_Inr_iff:
  "vec_fits bytes \<Longrightarrow> truncate bytes n = Inr kept \<longleftrightarrow> unat n \<le> length bytes \<and> kept = take (unat n) bytes"
  by (auto simp: truncate_def word_less_nat_alt unat_vec_len)

lemma take_owned_buffer_ok:
  assumes "take_owned_buffer buffer n h = Some (Inr b, h')" "h buffer = Some bytes" "vec_fits bytes"
  shows "buffer \<noteq> 0 \<and> unat n \<le> length bytes \<and> b = \<lparr>box_addr = buffer, box_bytes = take (unat n) bytes\<rparr>
    \<and> h' = h(buffer := None)"
  using assms
  by (auto simp: take_owned_buffer_def truncate_Inr_iff split: if_splits sum.splits)

lemma take_owned_buffer_err:
  "take_owned_buffer buffer n h = Some (Inl e, h') \<Longrightarrow> h' = h"
  by (auto simp: take_owned_buffer_def split: if_splits option.splits sum.splits)

end
