(* ===== verification/Exports.thy ===== *)
theory Exports
  imports Loops OwnedBuffer
begin

text \<open>
  The exported functions of \<open>native/src/lib.rs\<close>, with the session handles of \<open>native/src/abi.rs\<close>
  and \<open>get_term_mode\<close> of \<open>native/src/term_mode.rs\<close>. A call has the state of the library as the
  calling thread sees it: its last error, the live handles and the Dart API. A call has no result
  (\<open>None\<close>) when it is given an address that is not a live handle, which the C contract forbids, or
  when it blocks for good. Out pointers are options, and a call returns the cell afterwards.
\<close>

section \<open>The library and its surroundings\<close>

record ('m, 'c) ffi_system = "('m, 'c) session_system" +
  fy_memory :: abi_memory
  fy_can_reserve :: "usize \<Rightarrow> bool"
  fy_fresh :: u64 \<comment> \<open>the address of the next allocation\<close>
  fy_meanwhile :: "WriteQueueShared \<Rightarrow> WriteQueueShared" \<comment> \<open>other threads, between the locks of \<open>enqueue_bytes\<close>\<close>
  fy_dart_api :: "u64 \<Rightarrow> i64 \<times> dart_post option" \<comment> \<open>\<open>Dart_InitializeApiDL\<close>\<close>
  fy_termios :: "'m \<Rightarrow> local_flags option" \<comment> \<open>\<open>MasterPty::get_termios\<close>\<close>

record ('m, 'c) ffi_state =
  fs_last_error :: last_error
  fs_sessions :: "u64 \<rightharpoonup> ('m, 'c) Session"
  fs_buffers :: buffer_heap
  fs_vm :: dart_vm
  fs_acts :: "session_act list" \<comment> \<open>what the sessions did so far\<close>

text \<open>\<open>abi::ffi_status\<close> around a closure that returned.\<close>

definition ffi_return :: "PtyxError + unit \<Rightarrow> ('m, 'c) ffi_state \<Rightarrow> u32 \<times> ('m, 'c) ffi_state" where
  "ffi_return r st =
    (case ffi_status (Finished r) (fs_last_error st) of (status, cell) \<Rightarrow> (status, st\<lparr>fs_last_error := cell\<rparr>))"

section \<open>Session handles\<close>

definition null_session_error :: PtyxError where
  "null_session_error = PtyxError_new InvalidArgument ''session must not be null''"

definition session_from_ptr ::
    "u64 \<Rightarrow> ('m, 'c) ffi_state \<Rightarrow> (PtyxError + ('m, 'c) Session) option" where
  "session_from_ptr ptr st =
    (if ptr = 0 then Some (Inl null_session_error) else map_option Inr (fs_sessions st ptr))"

definition prepare_session_out :: "u64 option \<Rightarrow> (PtyxError + unit) \<times> u64 option" where
  "prepare_session_out out_session =
    (case out_session of
       None \<Rightarrow> (Inl (PtyxError_new InvalidArgument ''out_session must not be null''), None)
     | Some _ \<Rightarrow> (Inr (), Some 0))"

definition write_session_out ::
    "u64 \<Rightarrow> ('m, 'c) Session \<Rightarrow> ('m, 'c) ffi_state \<Rightarrow> u64 option \<times> ('m, 'c) ffi_state" where
  "write_session_out fresh session st = (Some fresh, st\<lparr>fs_sessions := (fs_sessions st)(fresh \<mapsto> session)\<rparr>)"

definition free_session ::
    "('m, 'c, 'z) session_system_scheme \<Rightarrow> u64 \<Rightarrow> ('m, 'c) ffi_state \<Rightarrow> ('m, 'c) ffi_state option" where
  "free_session sys ptr st =
    (if ptr = 0 then Some st
     else map_option (\<lambda>session.
         st\<lparr>fs_sessions := (fs_sessions st)(ptr := None),
            fs_acts := fs_acts st @ snd (session_close sys session)\<rparr>) (fs_sessions st ptr))"

text \<open>
  The shape of most exports: find the session, run the operation, report. \<open>old\<close> is the out cell as
  the caller passed it.
\<close>

definition with_session ::
    "u64 \<Rightarrow> 'o \<Rightarrow> (('m, 'c) Session \<Rightarrow> (PtyxError + unit) \<times> 'o \<times> ('m, 'c) Session) \<Rightarrow> ('m, 'c) ffi_state
     \<Rightarrow> (u32 \<times> 'o \<times> ('m, 'c) ffi_state) option" where
  "with_session ptr old f st =
    (case session_from_ptr ptr st of
       None \<Rightarrow> None
     | Some (Inl error) \<Rightarrow> (case ffi_return (Inl error) st of (status, st) \<Rightarrow> Some (status, old, st))
     | Some (Inr session) \<Rightarrow>
         (case f session of
            (r, out, session) \<Rightarrow>
              (case ffi_return r (st\<lparr>fs_sessions := (fs_sessions st)(ptr \<mapsto> session)\<rparr>) of
                 (status, st) \<Rightarrow> Some (status, out, st))))"

section \<open>Library exports\<close>

definition ptyx_abi_version_major :: u32 where
  "ptyx_abi_version_major = PTYX_ABI_VERSION_MAJOR"

definition ptyx_abi_version_minor :: u32 where
  "ptyx_abi_version_minor = PTYX_ABI_VERSION_MINOR"

definition ptyx_status_string :: "u32 \<Rightarrow> string" where
  "ptyx_status_string status = status_string status"

definition ptyx_session_options_init :: "ptyx_session_options_t option \<Rightarrow> ptyx_session_options_t option" where
  "ptyx_session_options_init options = session_options_init options"

definition ptyx_last_error_message :: "('m, 'c) ffi_state \<Rightarrow> string option" where
  "ptyx_last_error_message st = last_error_message (fs_last_error st)"

definition show_i64 :: "i64 \<Rightarrow> string" where
  "show_i64 n = (if sint n < 0 then ''-'' @ show_nat (nat (- sint n)) else show_nat (nat (sint n)))"

definition DartApiError_to_string :: "DartApiError \<Rightarrow> string" where
  "DartApiError_to_string error =
    (case error of
       NullInitializeData \<Rightarrow> ''Dart initialize API data must not be null''
     | InitializeFailed code \<Rightarrow> ''Dart_InitializeApiDL failed with '' @ show_i64 code)"

definition init_dart_api ::
    "(u64 \<Rightarrow> i64 \<times> dart_post option) \<Rightarrow> u64 \<Rightarrow> dart_vm \<Rightarrow> (PtyxError + unit) \<times> dart_vm" where
  "init_dart_api api data vm =
    (case dart_init api data vm of
       (r, vm) \<Rightarrow>
         (map_err (\<lambda>error. PtyxError_new
             (case error of NullInitializeData \<Rightarrow> InvalidArgument | InitializeFailed _ \<Rightarrow> NativeError)
             (DartApiError_to_string error)) r, vm))"

definition ptyx_init ::
    "('m, 'c) ffi_system \<Rightarrow> u64 \<Rightarrow> ('m, 'c) ffi_state \<Rightarrow> u32 \<times> ('m, 'c) ffi_state" where
  "ptyx_init sys data st =
    (case init_dart_api (fy_dart_api sys) data (fs_vm st) of
       (r, vm) \<Rightarrow> ffi_return r (st\<lparr>fs_vm := vm\<rparr>))"

section \<open>Sessions\<close>

definition not_initialized_error :: PtyxError where
  "not_initialized_error = PtyxError_new InvalidArgument ''ptyx_init must be called before ptyx_spawn''"

definition ptyx_spawn ::
    "('m, 'c) ffi_system \<Rightarrow> ptyx_session_options_t option \<Rightarrow> u64 option \<Rightarrow> ('m, 'c) ffi_state
     \<Rightarrow> (u32 \<times> u64 option \<times> ('m, 'c) ffi_state) option" where
  "ptyx_spawn sys options out_session st =
    (let failed = \<lambda>error out st. (case ffi_return (Inl error) st of (status, st) \<Rightarrow> Some (status, out, st)) in
     if \<not> is_initialized (fs_vm st) then failed not_initialized_error out_session st
     else case session_options_from_ptr (fy_memory sys) options of
       Inl error \<Rightarrow> failed error out_session st
     | Inr options \<Rightarrow>
         (case prepare_session_out out_session of
            (Inl error, out) \<Rightarrow> failed error out st
          | (Inr _, out) \<Rightarrow>
              (case runtime_spawn (session_system.truncate sys) options of
                 None \<Rightarrow> None
               | Some (Inl error, acts) \<Rightarrow> failed error out (st\<lparr>fs_acts := fs_acts st @ acts\<rparr>)
               | Some (Inr session, acts) \<Rightarrow>
                   (case write_session_out (fy_fresh sys) session (st\<lparr>fs_acts := fs_acts st @ acts\<rparr>) of
                      (out, st) \<Rightarrow> (case ffi_return (Inr ()) st of (status, st) \<Rightarrow> Some (status, out, st))))))"

definition ptyx_write ::
    "('m, 'c) ffi_system \<Rightarrow> u64 \<Rightarrow> u64 \<Rightarrow> usize \<Rightarrow> ('m, 'c) ffi_state
     \<Rightarrow> (u32 \<times> unit \<times> ('m, 'c) ffi_state) option" where
  "ptyx_write sys ptr data n st =
     with_session ptr () (\<lambda>session.
       case bytes_from_ptr (fy_memory sys) data n of
         Inl error \<Rightarrow> (Inl error, (), session)
       | Inr bytes \<Rightarrow>
           (case session_write (thread_system.truncate sys) (fy_can_reserve sys) (fy_meanwhile sys) session bytes of
              (r, session) \<Rightarrow> (r, (), session))) st"

definition ptyx_ack_output ::
    "u64 \<Rightarrow> u64 \<Rightarrow> ('m, 'c) ffi_state \<Rightarrow> (u32 \<times> unit \<times> ('m, 'c) ffi_state) option" where
  "ptyx_ack_output ptr byte_count st =
     with_session ptr () (\<lambda>session. case ack_output session byte_count of (r, session) \<Rightarrow> (r, (), session)) st"

definition ptyx_resize ::
    "('m, 'c) ffi_system \<Rightarrow> u64 \<Rightarrow> ptyx_size_t \<Rightarrow> ('m, 'c) ffi_state
     \<Rightarrow> (u32 \<times> unit \<times> ('m, 'c) ffi_state) option" where
  "ptyx_resize sys ptr sz st =
     with_session ptr () (\<lambda>session.
       case to_pty_size sz of
         Inl error \<Rightarrow> (Inl error, (), session)
       | Inr sz \<Rightarrow> (case session_resize sys session sz of (r, session) \<Rightarrow> (r, (), session))) st"

definition ptyx_get_size ::
    "('m, 'c) ffi_system \<Rightarrow> u64 \<Rightarrow> ptyx_size_t option \<Rightarrow> ('m, 'c) ffi_state
     \<Rightarrow> (u32 \<times> ptyx_size_t option \<times> ('m, 'c) ffi_state) option" where
  "ptyx_get_size sys ptr out_size st =
     with_session ptr out_size (\<lambda>session.
       case session_get_size sys session of
         Inl error \<Rightarrow> (Inl error, out_size, session)
       | Inr sz \<Rightarrow> (case write_size out_size sz of (r, out) \<Rightarrow> (r, out, session))) st"

definition get_term_mode :: "('m, 'c) ffi_system \<Rightarrow> ('m, 'c) Session \<Rightarrow> PtyxError + TermMode" where
  "get_term_mode sys session =
    (if unix (sy_platform sys) then
       term_mode_snapshot
         \<lparr>guarded = fy_termios sys (guarded (si_master (ss_inner session))),
          poisoned = poisoned (si_master (ss_inner session))\<rparr>
     else Inl (PtyxError_new Unsupported ''terminal mode snapshots are unsupported''))"

definition ptyx_get_term_mode ::
    "('m, 'c) ffi_system \<Rightarrow> u64 \<Rightarrow> ptyx_term_mode_t option \<Rightarrow> ('m, 'c) ffi_state
     \<Rightarrow> (u32 \<times> ptyx_term_mode_t option \<times> ('m, 'c) ffi_state) option" where
  "ptyx_get_term_mode sys ptr out_mode st =
     with_session ptr out_mode (\<lambda>session.
       case get_term_mode sys session of
         Inl error \<Rightarrow> (Inl error, out_mode, session)
       | Inr mode \<Rightarrow> (case write_term_mode out_mode mode of (r, out) \<Rightarrow> (r, out, session))) st"

definition ptyx_get_child_pid ::
    "u64 \<Rightarrow> u64 option \<Rightarrow> ('m, 'c) ffi_state \<Rightarrow> (u32 \<times> u64 option \<times> ('m, 'c) ffi_state) option" where
  "ptyx_get_child_pid ptr out_pid st =
     with_session ptr out_pid (\<lambda>session.
       case get_child_pid session of
         Inl error \<Rightarrow> (Inl error, out_pid, session)
       | Inr pid \<Rightarrow> (case write_u64 out_pid pid ''out_pid'' of (r, out) \<Rightarrow> (r, out, session))) st"

definition ptyx_get_tty_name ::
    "u64 \<Rightarrow> u8 list option \<times> usize option \<Rightarrow> ('m, 'c) ffi_state
     \<Rightarrow> (u32 \<times> (u8 list option \<times> usize option) \<times> ('m, 'c) ffi_state) option" where
  "ptyx_get_tty_name ptr out st =
     with_session ptr out (\<lambda>session.
       case get_tty_name session of
         Inl error \<Rightarrow> (Inl error, out, session)
       | Inr name \<Rightarrow>
           (case fill_string name (fst out) (snd out) of (r, buffer, len) \<Rightarrow> (r, (buffer, len), session))) st"

definition ptyx_kill ::
    "('m, 'c) ffi_system \<Rightarrow> u64 \<Rightarrow> i32 \<Rightarrow> ('m, 'c) ffi_state \<Rightarrow> (bool \<times> ('m, 'c) ffi_state) option" where
  "ptyx_kill sys ptr signal st =
    (case session_from_ptr ptr st of
       None \<Rightarrow> None
     | Some (Inl _) \<Rightarrow> Some (False, st)
     | Some (Inr session) \<Rightarrow>
         (case session_kill sys session signal of
            (b, acts) \<Rightarrow> Some (b, st\<lparr>fs_acts := fs_acts st @ acts\<rparr>)))"

definition ptyx_close ::
    "('m, 'c) ffi_system \<Rightarrow> u64 \<Rightarrow> ('m, 'c) ffi_state \<Rightarrow> ('m, 'c) ffi_state option" where
  "ptyx_close sys ptr st = free_session sys ptr st"

section \<open>Owned buffers\<close>

definition ptyx_buffer_alloc ::
    "('m, 'c) ffi_system \<Rightarrow> usize \<Rightarrow> u64 option \<Rightarrow> ('m, 'c) ffi_state
     \<Rightarrow> u32 \<times> u64 option \<times> ('m, 'c) ffi_state" where
  "ptyx_buffer_alloc sys capacity out_buffer st =
    (case alloc_owned_buffer (fy_can_reserve sys) (fy_fresh sys) capacity out_buffer (fs_buffers st) of
       (r, out, buffers) \<Rightarrow> (case ffi_return r (st\<lparr>fs_buffers := buffers\<rparr>) of (status, st) \<Rightarrow> (status, out, st)))"

definition ptyx_buffer_data :: "u64 \<Rightarrow> ('m, 'c) ffi_state \<Rightarrow> u8 list option option" where
  "ptyx_buffer_data buffer st = owned_buffer_data buffer (fs_buffers st)"

definition ptyx_buffer_free :: "u64 \<Rightarrow> ('m, 'c) ffi_state \<Rightarrow> ('m, 'c) ffi_state option" where
  "ptyx_buffer_free buffer st =
     map_option (\<lambda>buffers. st\<lparr>fs_buffers := buffers\<rparr>) (free_owned_buffer buffer (fs_buffers st))"

text \<open>On success the handle's empty box is dropped at the end of the closure.\<close>

definition ptyx_write_owned ::
    "('m, 'c) ffi_system \<Rightarrow> u64 \<Rightarrow> u64 \<Rightarrow> usize \<Rightarrow> ('m, 'c) ffi_state
     \<Rightarrow> (u32 \<times> ('m, 'c) ffi_state) option" where
  "ptyx_write_owned sys ptr buffer n st =
    (case session_from_ptr ptr st of
       None \<Rightarrow> None
     | Some (Inl error) \<Rightarrow> Some (ffi_return (Inl error) st)
     | Some (Inr session) \<Rightarrow>
         (case take_owned_buffer buffer n (fs_buffers st) of
            None \<Rightarrow> None
          | Some (Inl error, buffers) \<Rightarrow> Some (ffi_return (Inl error) (st\<lparr>fs_buffers := buffers\<rparr>))
          | Some (Inr owned, buffers) \<Rightarrow>
              (case take_owned_buffer_bytes owned of
                 (bytes, owned) \<Rightarrow>
                   (case session_write_owned (thread_system.truncate sys) session bytes of
                      (Inr _, session) \<Rightarrow>
                        Some (ffi_return (Inr ())
                          (st\<lparr>fs_sessions := (fs_sessions st)(ptr \<mapsto> session), fs_buffers := buffers\<rparr>))
                    | (Inl (error, bytes), session) \<Rightarrow>
                        Some (ffi_return (Inl error)
                          (st\<lparr>fs_sessions := (fs_sessions st)(ptr \<mapsto> session),
                              fs_buffers := return_owned_buffer owned bytes buffers\<rparr>))))))"

section \<open>Statuses\<close>

lemma ffi_return_frame [simp]:
  "fs_sessions (snd (ffi_return r st)) = fs_sessions st" "fs_buffers (snd (ffi_return r st)) = fs_buffers st"
  "fs_vm (snd (ffi_return r st)) = fs_vm st" "fs_acts (snd (ffi_return r st)) = fs_acts st"
  by (simp_all add: ffi_return_def split: prod.splits)

lemma ffi_return_ok [simp]: "fst (ffi_return r st) = PTYX_STATUS_OK \<longleftrightarrow> r = Inr ()"
  using ffi_status_ok_iff [of "Finished r" "fs_last_error st"] by (simp add: ffi_return_def case_prod_beta)

lemma ffi_return_cases:
  assumes "ffi_return r st = (status, st')"
  obtains "status = PTYX_STATUS_OK \<longleftrightarrow> r = Inr ()" "fs_sessions st' = fs_sessions st" "fs_buffers st' = fs_buffers st"
    "fs_vm st' = fs_vm st" "fs_acts st' = fs_acts st"
  using ffi_return_ok [of r st] ffi_return_frame [of r st] assms by simp

text \<open>
  No export follows a null session. Each of them reports \<open>PTYX_STATUS_INVALID_ARGUMENT\<close> with the
  same text as last error, and leaves everything else as it is: handles, buffers and out cells;
  \<open>ptyx_kill\<close> answers false and \<open>ptyx_close\<close> does nothing.
\<close>

theorem null_session_is_refused:
  fixes st :: "('m, 'c) ffi_state"
  defines "refused \<equiv> st\<lparr>fs_last_error := Some ''session must not be null''\<rparr>"
  shows "ptyx_write sys 0 data n st = Some (PTYX_STATUS_INVALID_ARGUMENT, (), refused)
    \<and> ptyx_write_owned sys 0 buffer n st = Some (PTYX_STATUS_INVALID_ARGUMENT, refused)
    \<and> ptyx_ack_output 0 byte_count st = Some (PTYX_STATUS_INVALID_ARGUMENT, (), refused)
    \<and> ptyx_resize sys 0 sz st = Some (PTYX_STATUS_INVALID_ARGUMENT, (), refused)
    \<and> ptyx_get_size sys 0 out_size st = Some (PTYX_STATUS_INVALID_ARGUMENT, out_size, refused)
    \<and> ptyx_get_term_mode sys 0 out_mode st = Some (PTYX_STATUS_INVALID_ARGUMENT, out_mode, refused)
    \<and> ptyx_get_child_pid 0 out_pid st = Some (PTYX_STATUS_INVALID_ARGUMENT, out_pid, refused)
    \<and> ptyx_get_tty_name 0 out st = Some (PTYX_STATUS_INVALID_ARGUMENT, out, refused)
    \<and> ptyx_kill sys 0 signal st = Some (False, st) \<and> ptyx_close sys 0 st = Some st"
proof -
  have "ffi_return (Inl null_session_error) st = (PTYX_STATUS_INVALID_ARGUMENT, refused)"
    by (simp add: ffi_return_def null_session_error_def set_last_error_def cstring_or_def cstring_new_def refused_def)
  then show ?thesis
    by (simp add: ptyx_write_def ptyx_write_owned_def ptyx_ack_output_def ptyx_resize_def ptyx_get_size_def
        ptyx_get_term_mode_def ptyx_get_child_pid_def ptyx_get_tty_name_def ptyx_kill_def ptyx_close_def
        with_session_def session_from_ptr_def free_session_def)
qed

section \<open>Input through owned buffers\<close>

definition session_queue :: "('m, 'c) Session \<Rightarrow> u8 list list" where
  "session_queue session =
    (case guarded (ss_runtime session) of None \<Rightarrow> [] | Some rt \<Rightarrow> queue (wq (wh_shared (rt_writer rt))))"

lemma enqueue_owned_queue:
  "enqueue_owned q bytes = (r, q') \<Longrightarrow> queue (wq q') =
     (case r of Inr _ \<Rightarrow> queue (wq q) @ (if bytes = [] then [] else [bytes]) | Inl _ \<Rightarrow> queue (wq q))
   \<and> (case r of Inr _ \<Rightarrow> True | Inl (_, returned) \<Rightarrow> returned = bytes)"
  by (auto simp: enqueue_owned_def lock_def notify_one_def wq_store_def set_guarded_def Let_def
      split: if_splits sum.splits)

lemma ensure_started_queue: "ensure_started ts w = (r, w') \<Longrightarrow> wh_shared w' = wh_shared w"
  by (auto simp: ensure_started_def split: sum.splits option.splits)

lemma session_write_owned_queue:
  assumes "session_write_owned ts s bytes = (r, s')"
  shows "case r of
      Inr _ \<Rightarrow> session_queue s' = session_queue s @ (if bytes = [] then [] else [bytes])
    | Inl (_, returned) \<Rightarrow> session_queue s' = session_queue s \<and> returned = bytes"
  using assms
  by (auto simp: session_write_owned_def WriteQueue_enqueue_owned_def session_queue_def lock_def
      dest!: ensure_started_queue enqueue_owned_queue split: if_splits option.splits sum.splits prod.splits)

text \<open>
  C21. An owned buffer has one owner. When \<open>ptyx_write_owned\<close> succeeds, the handle is gone and exactly
  the announced bytes are the last chunk in the session's write queue; when it fails, the queue is
  unchanged and the caller still owns the handle, with its bytes intact, cut to the announced length
  once handle and length had been accepted. No other buffer is touched.
\<close>

theorem owned_buffer_has_one_owner:
  assumes "ptyx_write_owned sys ptr buffer n st = Some (status, st')"
    and "fs_buffers st buffer = Some bytes" "vec_fits bytes" "buffer \<noteq> 0"
  shows "if status = PTYX_STATUS_OK then
      fs_buffers st' = (fs_buffers st)(buffer := None) \<and> unat n \<le> length bytes
      \<and> map_option session_queue (fs_sessions st' ptr) =
          map_option (\<lambda>s. session_queue s @ (if n = 0 then [] else [take (unat n) bytes])) (fs_sessions st ptr)
    else
      fs_buffers st' = (fs_buffers st)(buffer \<mapsto> if ptr \<noteq> 0 \<and> unat n \<le> length bytes then take (unat n) bytes else bytes)
      \<and> map_option session_queue (fs_sessions st' ptr) = map_option session_queue (fs_sessions st ptr)"
proof (cases "session_from_ptr ptr st")
  case None
  then show ?thesis
    using assms(1) by (simp add: ptyx_write_owned_def)
next
  case (Some found)
  show ?thesis
  proof (cases found)
    case (Inl error)
    then have "ptr = 0" "ffi_return (Inl error) st = (status, st')"
      using assms(1) Some by (auto simp: ptyx_write_owned_def session_from_ptr_def split: if_splits)
    then show ?thesis
      using assms(2) by (auto elim!: ffi_return_cases)
  next
    case (Inr session)
    then have session: "ptr \<noteq> 0" "fs_sessions st ptr = Some session"
      using Some by (auto simp: session_from_ptr_def split: if_splits)
    show ?thesis
    proof (cases "unat n \<le> length bytes")
      case False
      then obtain error where "take_owned_buffer buffer n (fs_buffers st) = Some (Inl error, fs_buffers st)"
        using assms(2-4) by (auto simp: take_owned_buffer_def OwnedBuffer.truncate_def word_less_nat_alt unat_vec_len)
      then have "ffi_return (Inl error) (st\<lparr>fs_buffers := fs_buffers st\<rparr>) = (status, st')"
        using assms(1) Some Inr by (simp add: ptyx_write_owned_def)
      then show ?thesis
        using assms(2) False by (auto elim!: ffi_return_cases)
    next
      case True
      let ?bytes = "take (unat n) bytes"
      have taken: "take_owned_buffer buffer n (fs_buffers st) =
          Some (Inr \<lparr>box_addr = buffer, box_bytes = ?bytes\<rparr>, (fs_buffers st)(buffer := None))"
        using assms(2-4) True by (simp add: take_owned_buffer_def OwnedBuffer.truncate_def word_less_nat_alt unat_vec_len)
      have empty: "?bytes = [] \<longleftrightarrow> n = 0"
        using True by (auto simp: unat_eq_0)
      obtain r session' where "write": "session_write_owned (thread_system.truncate sys) session ?bytes = (r, session')"
        by fastforce
      note queued = session_write_owned_queue [OF this]
      show ?thesis
      proof (cases r)
        case (Inl refused)
        then obtain error where refused: "refused = (error, ?bytes)"
          using queued by auto
        then have "ffi_return (Inl error) (st\<lparr>fs_sessions := (fs_sessions st)(ptr \<mapsto> session'),
            fs_buffers := (fs_buffers st)(buffer \<mapsto> ?bytes)\<rparr>) = (status, st')"
          using assms(1) Some Inr "write" Inl taken
          by (simp add: ptyx_write_owned_def take_owned_buffer_bytes_def return_owned_buffer_def)
        then show ?thesis
          using session queued Inl refused True by (auto elim!: ffi_return_cases)
      next
        case accepted: (Inr u)
        then have "ffi_return (Inr ()) (st\<lparr>fs_sessions := (fs_sessions st)(ptr \<mapsto> session'),
            fs_buffers := (fs_buffers st)(buffer := None)\<rparr>) = (status, st')"
          using assms(1) Some Inr "write" taken by (simp add: ptyx_write_owned_def take_owned_buffer_bytes_def)
        then show ?thesis
          using session queued accepted True empty by (auto elim!: ffi_return_cases)
      qed
    qed
  qed
qed

section \<open>Starting sessions\<close>

lemma spawn_success:
  assumes "ptyx_spawn sys options out st = Some (PTYX_STATUS_OK, out', st')"
  obtains opts s acts where "session_options_from_ptr (fy_memory sys) options = Inr opts"
    "runtime_spawn (session_system.truncate sys) opts = Some (Inr s, acts)"
    "fs_sessions st' = (fs_sessions st)(fy_fresh sys \<mapsto> s)" "fs_buffers st' = fs_buffers st"
  using assms
  by (auto simp: ptyx_spawn_def write_session_out_def Let_def elim!: ffi_return_cases
      split: if_splits sum.splits option.splits prod.splits)

text \<open>
  C23. \<open>ptyx_spawn\<close> hands out a handle exactly when it succeeds. A success needs \<open>ptyx_init\<close>, valid
  options and an out pointer; the out cell then holds the only new handle, and its session is
  running and well formed. After a failure no handle is left behind, and the out cell is null or,
  when the call was refused before anything was started, untouched.
\<close>

theorem spawn_hands_out_sound_sessions:
  assumes "ptyx_spawn sys options out st = Some (status, out', st')"
  shows "if status = PTYX_STATUS_OK then
      is_initialized (fs_vm st) \<and> out \<noteq> None \<and> out' = Some (fy_fresh sys)
      \<and> (case (session_options_from_ptr (fy_memory sys) options, fs_sessions st' (fy_fresh sys)) of
          (Inr opts, Some s) \<Rightarrow> session_ok (session_system.truncate sys) opts s \<and> \<not> si_closed (ss_inner s)
            \<and> fs_sessions st' = (fs_sessions st)(fy_fresh sys \<mapsto> s)
        | _ \<Rightarrow> False)
    else fs_sessions st' = fs_sessions st
      \<and> (if is_initialized (fs_vm st) \<and> is_ok (session_options_from_ptr (fy_memory sys) options) \<and> out \<noteq> None
         then out' = Some 0 else out' = out \<and> fs_acts st' = fs_acts st)"
proof -
  note spawn = assms(1) [unfolded ptyx_spawn_def Let_def]
  consider (uninitialized) "\<not> is_initialized (fs_vm st)"
    | (options) error where "is_initialized (fs_vm st)"
        "session_options_from_ptr (fy_memory sys) options = Inl error"
    | (out) opts where "is_initialized (fs_vm st)"
        "session_options_from_ptr (fy_memory sys) options = Inr opts" "out = None"
    | (ready) opts old where "is_initialized (fs_vm st)"
        "session_options_from_ptr (fy_memory sys) options = Inr opts" "out = Some old"
    by (cases "session_options_from_ptr (fy_memory sys) options"; cases out) auto
  then show ?thesis
  proof cases
    case ready
    show ?thesis
    proof (cases "runtime_spawn (session_system.truncate sys) opts")
      case None
      then show ?thesis
        using spawn ready by (simp add: prepare_session_out_def)
    next
      case (Some outcome)
      then obtain r acts where outcome: "outcome = (r, acts)"
        by fastforce
      show ?thesis
      proof (cases r)
        case (Inl error)
        then show ?thesis
          using spawn ready Some outcome by (auto simp: prepare_session_out_def elim!: ffi_return_cases split: prod.splits)
      next
        case (Inr s)
        then show ?thesis
          using spawn ready Some outcome runtime_spawn_ok [of "session_system.truncate sys" opts s acts]
          by (auto simp: prepare_session_out_def write_session_out_def elim!: ffi_return_cases split: prod.splits)
      qed
    qed
  qed (use spawn in \<open>auto simp: prepare_session_out_def elim!: ffi_return_cases split: prod.splits\<close>)
qed

section \<open>An example\<close>

text \<open>A library with one running session behind handle 4096 and a buffer of three bytes.\<close>

definition demo_ffi :: "(unit, unit) ffi_system" where
  "demo_ffi = session_system.extend (demo_system (\<lambda>_. Inr ()))
     \<lparr>fy_memory = \<lparr>mem_u8 = (\<lambda>_. 97), mem_string = (\<lambda>_. default_string)\<rparr>, fy_can_reserve = (\<lambda>_. True),
      fy_fresh = 8192, fy_meanwhile = (\<lambda>q. q), fy_dart_api = (\<lambda>_. (0, None)), fy_termios = (\<lambda>_. None)\<rparr>"

definition demo_ffi_state :: "(unit, unit) ffi_state" where
  "demo_ffi_state =
     \<lparr>fs_last_error = None, fs_sessions = [4096 \<mapsto> demo_session], fs_buffers = [16 \<mapsto> [1, 2, 3]],
      fs_vm = \<lparr>dart_initialized = True, dl_post = Some (\<lambda>_ _ _. True), dl_log = []\<rparr>, fs_acts = []\<rparr>"

lemma demo_ffi_simps [simp]:
  "session_system.truncate demo_ffi = demo_system (\<lambda>_. Inr ())" "fy_fresh demo_ffi = 8192"
  "fy_memory demo_ffi = \<lparr>mem_u8 = (\<lambda>_. 97), mem_string = (\<lambda>_. default_string)\<rparr>"
  "thread_system.truncate demo_ffi = thread_system.truncate (demo_system (\<lambda>_. Inr ()))"
  by (simp_all add: demo_ffi_def session_system.defs thread_system.defs demo_system_def)

lemma demo_write:
  "\<exists>s. session_write_owned (thread_system.truncate (demo_system (\<lambda>_. Inr ()))) demo_session [1, 2] = (Inr (), s)"
  "session_queue demo_session = []"
  by (simp_all add: session_queue_def demo_session_def demo_eval set_guarded_def set_runtime_def WriteQueue_new_def
      session_write_owned_def WriteQueue_enqueue_owned_def ensure_started_def WriteQueueShared_new_def
      enqueue_owned_def validate_enqueue_def vec_len_def saturating_add_def split: prod.splits)

text \<open>Two bytes are queued and the buffer is gone.\<close>

theorem owned_buffer_has_one_owner_witness:
  "\<exists>st'. ptyx_write_owned demo_ffi 4096 16 2 demo_ffi_state = Some (PTYX_STATUS_OK, st') \<and> fs_buffers st' 16 = None
     \<and> map_option session_queue (fs_sessions st' 4096) = Some [[1, 2]]"
proof -
  obtain st' where call: "ptyx_write_owned demo_ffi 4096 16 2 demo_ffi_state = Some (PTYX_STATUS_OK, st')"
    using demo_write(1)
    by (auto simp: ptyx_write_owned_def session_from_ptr_def demo_ffi_state_def take_owned_buffer_def
        OwnedBuffer.truncate_def vec_len_def take_owned_buffer_bytes_def ffi_return_def)
  from owned_buffer_has_one_owner [OF this, of "[1, 2, 3]"] call show ?thesis
    by (simp add: demo_ffi_state_def vec_fits_def demo_write(2))
qed

text \<open>The program \<open>a\<close>, to be started with the default options.\<close>

definition demo_abi_options :: ptyx_session_options_t where
  "demo_abi_options = default_session_options
     \<lparr>opt_executable := \<lparr>str_data = 256, str_len = 1\<rparr>, opt_output_port := 1, opt_event_port := 2\<rparr>"

lemma demo_abi_options_parse:
  "\<exists>opts. session_options_from_ptr \<lparr>mem_u8 = (\<lambda>_. 97), mem_string = (\<lambda>_. default_string)\<rparr> (Some demo_abi_options)
     = Inr opts"
proof -
  let ?m = "\<lparr>mem_u8 = (\<lambda>_. 97), mem_string = (\<lambda>_. default_string)\<rparr> :: abi_memory"
  have executable: "string_to_os_string ?m \<lparr>str_data = 256, str_len = 1\<rparr> = Inr [97]"
    by (simp add: string_to_os_string_def string_to_string_def string_bytes_def utf8_next_ascii)
  have sz: "is_ok (to_pty_size \<lparr>rows = 24, columns = 80, pixel_width = 0, pixel_height = 0\<rparr>)"
    by (simp add: to_pty_size_def try_from_def)
  show ?thesis
    using executable sz
    by (auto simp: session_options_from_ptr_def copy_session_options_from_ptr_def session_options_from_abi_def
        demo_abi_options_def default_session_options_def default_string_def spawn_config_from_options_def
        string_to_os_string_def [of _ "\<lparr>str_data = 0, str_len = 0\<rparr>"] string_to_string_def string_array_def
        environment_mode_from_abi_def abi_consts is_ok_def split: sum.splits)
qed

lemma demo_spawn_call:
  "\<exists>out st. ptyx_spawn demo_ffi (Some demo_abi_options) (Some 7) demo_ffi_state = Some (PTYX_STATUS_OK, out, st)"
proof -
  obtain opts where opts: "session_options_from_ptr (fy_memory demo_ffi) (Some demo_abi_options) = Inr opts"
    using demo_abi_options_parse by auto
  have "\<exists>s. runtime_spawn (demo_system (\<lambda>_. Inr ())) opts = Some (Inr s, [])"
    by (simp add: demo_eval set_guarded_def)
  then show ?thesis
    using opts
    by (auto simp: ptyx_spawn_def demo_ffi_state_def is_initialized_def prepare_session_out_def write_session_out_def
        ffi_return_def)
qed

theorem spawn_hands_out_sound_sessions_witness:
  "\<exists>s st'. ptyx_spawn demo_ffi (Some demo_abi_options) (Some 7) demo_ffi_state = Some (PTYX_STATUS_OK, Some 8192, st')
     \<and> fs_sessions st' = [4096 \<mapsto> demo_session, 8192 \<mapsto> s] \<and> \<not> si_closed (ss_inner s)"
proof -
  obtain out' st' where call: "ptyx_spawn demo_ffi (Some demo_abi_options) (Some 7) demo_ffi_state
      = Some (PTYX_STATUS_OK, out', st')"
    using demo_spawn_call by blast
  from spawn_hands_out_sound_sessions [OF this] call show ?thesis
    by (auto simp: demo_ffi_state_def split: option.splits sum.splits)
qed

end
