(* ===== verification/Writer.thy ===== *)
theory Writer
  imports WriteQueue Fd Message
begin

text \<open>
  The writer thread of \<open>native/src/writer.rs\<close>. First its two write loops as functions of a
  script of turns (what each pass sees: whether the queue is closed, the reply to the write, the
  replies to the poll); a script that runs out means the loop has not returned, \<open>None\<close>. Then the
  thread itself, \<open>writer_loop\<close>, as a machine that takes one atomic step at a time, interleaved
  with clients that enqueue, close the queue or close the session.
\<close>

section \<open>Error mapping\<close>

definition normalize_write_error :: "PtyxError \<Rightarrow> PtyxError" where
  "normalize_write_error error =
    (if err_kind error = BrokenPipe then PtyxError_new Closed (err_message error) else error)"

definition map_write_error :: "io_error \<Rightarrow> PtyxErrorKind \<Rightarrow> PtyxError" where
  "map_write_error error fallback =
    (case io_kind error of
       Io_BrokenPipe \<Rightarrow> PtyxError_new BrokenPipe (io_text error)
     | Io_WouldBlock \<Rightarrow> PtyxError_new WouldBlock (io_text error)
     | Io_PermissionDenied \<Rightarrow> PtyxError_new PermissionDenied (io_text error)
     | _ \<Rightarrow> PtyxError_new fallback (io_text error))"

section \<open>The write loops\<close>

record write_turn =
  turn_closed :: "PtyxError + bool" \<comment> \<open>what \<open>queue.is_closed()\<close> returns\<close>
  turn_write :: write_reply
  turn_polls :: "poll_reply list"

text \<open>How one attempt to write goes on: past \<open>n\<close> bytes, again, waiting first, or out with an error.\<close>

datatype write_outcome = Advance nat | Again | Await | Broke PtyxError

definition direct_attempt :: "WriteRetryContext \<Rightarrow> u8 list \<Rightarrow> write_reply \<Rightarrow> write_outcome" where
  "direct_attempt ctx data reply =
    (case write_direct ctx data reply of
       Inl error \<Rightarrow> Broke (map_write_error error IoFailed)
     | Inr (Wrote n) \<Rightarrow> Advance n
     | Inr DW_Interrupted \<Rightarrow> Again
     | Inr DW_WouldBlock \<Rightarrow> Await)"

text \<open>
  The fallback through the PTY's \<open>Write\<close> object, whose \<open>write\<close> answers with the count taken or
  an error, and never takes more than it was given.
\<close>

definition stream_attempt :: "u8 list \<Rightarrow> write_reply \<Rightarrow> write_outcome" where
  "stream_attempt data reply =
    (case reply of
       WCount m \<Rightarrow>
         if min m (length data) = 0 then
           Broke (PtyxError_io IoFailed (io_error_new Io_WriteZero ''failed to write to PTY''))
         else Advance (min m (length data))
     | WErr error \<Rightarrow>
         if io_kind error = Io_Interrupted then Again
         else if io_kind error = Io_WouldBlock then Await
         else Broke (map_write_error error IoFailed))"

text \<open>
  The loop around the attempts, the same in both functions. It gives the loop's result and the
  bytes the PTY took.
\<close>

fun write_loop ::
    "(u8 list \<Rightarrow> write_reply \<Rightarrow> write_outcome) \<Rightarrow> WriteRetryContext \<Rightarrow> u8 list \<Rightarrow> write_turn list
     \<Rightarrow> ((PtyxError + bool) \<times> u8 list) option" where
  "write_loop attempt ctx data [] = (if data = [] then Some (Inr True, []) else None)"
| "write_loop attempt ctx data (turn # turns) =
     (if data = [] then Some (Inr True, [])
      else case turn_closed turn of
        Inl e \<Rightarrow> Some (Inl e, [])
      | Inr shut \<Rightarrow>
          if shut then Some (Inr False, [])
          else case attempt data (turn_write turn) of
            Broke e \<Rightarrow> Some (Inl e, [])
          | Advance n \<Rightarrow>
              map_option (\<lambda>(r, sent). (r, take n data @ sent)) (write_loop attempt ctx (drop n data) turns)
          | Again \<Rightarrow> write_loop attempt ctx data turns
          | Await \<Rightarrow>
              (case wait_writable_for ctx (turn_polls turn) of
                 None \<Rightarrow> None
               | Some (Inl error, _) \<Rightarrow> Some (Inl (map_write_error error IoFailed), [])
               | Some (Inr _, _) \<Rightarrow> write_loop attempt ctx data turns))"

definition write_direct_chunk ::
    "WriteRetryContext \<Rightarrow> u8 list \<Rightarrow> write_turn list \<Rightarrow> ((PtyxError + bool) \<times> u8 list) option" where
  "write_direct_chunk ctx data turns = write_loop (direct_attempt ctx) ctx data turns"

definition write_chunk ::
    "WriteRetryContext \<Rightarrow> u8 list \<Rightarrow> write_turn list \<Rightarrow> ((PtyxError + bool) \<times> u8 list) option" where
  "write_chunk ctx data turns = write_loop stream_attempt ctx data turns"

lemma map_write_error_zero:
  "map_write_error (io_error_new Io_WriteZero t) k = PtyxError_io k (io_error_new Io_WriteZero t)"
  by (simp add: map_write_error_def PtyxError_io_def)

text \<open>What the PTY took is a prefix of the chunk, and all of it when the loop returns \<open>Ok(true)\<close>.\<close>

lemma write_loop_prefix:
  "write_loop attempt ctx data turns = Some (r, sent) \<Longrightarrow>
   prefix sent data \<and> (r = Inr True \<longrightarrow> sent = data)"
proof (induction turns arbitrary: data r sent)
  case Nil
  then show ?case by (auto split: if_splits)
next
  case (Cons turn turns)
  show ?case
  proof (cases "data \<noteq> [] \<and> turn_closed turn = Inr False")
    case False
    with Cons.prems show ?thesis
      by (auto split: sum.splits if_splits)
  next
    case go: True
    show ?thesis
    proof (cases "attempt data (turn_write turn)")
      case (Advance n)
      with go Cons.prems obtain sent' where
        rest: "write_loop attempt ctx (drop n data) turns = Some (r, sent')"
        and sent: "sent = take n data @ sent'"
        by auto
      from Cons.IH [OF rest] show ?thesis
        unfolding sent by (metis append_take_drop_id prefix_def append.assoc)
    next
      case Again
      with go Cons show ?thesis by auto
    next
      case Await
      with go Cons show ?thesis by (auto split: option.splits sum.splits)
    next
      case (Broke e)
      with go Cons.prems show ?thesis by auto
    qed
  qed
qed

lemma direct_attempt_stream:
  assumes "uses_direct_io ctx"
  shows "direct_attempt ctx data reply = stream_attempt data reply"
proof -
  obtain fd where fd: "wrc_fd ctx = Some fd"
    using assms by (auto simp: uses_direct_io_def)
  show ?thesis
  proof (cases reply)
    case (WCount m)
    then show ?thesis
      by (simp add: direct_attempt_def stream_attempt_def write_direct_Some [OF fd] write_fd_def Let_def
          map_write_error_zero)
  next
    case (WErr e)
    then show ?thesis
      by (cases "io_kind e")
        (simp_all add: direct_attempt_def stream_attempt_def write_direct_Some [OF fd] write_fd_def)
  qed
qed

lemma write_loop_cong:
  "(\<And>d r. f d r = g d r) \<Longrightarrow> write_loop f ctx data turns = write_loop g ctx data turns"
  by (rule arg_cong [of f g "\<lambda>h. write_loop h ctx data turns"]) (intro ext)



text \<open>
  A turn the loop survives: the queue is open, and the write takes something, or is interrupted,
  or would block and the wait that follows ends without an error.
\<close>

definition turn_tolerable :: "write_turn \<Rightarrow> bool" where
  "turn_tolerable t =
    (turn_closed t = Inr False \<and>
     (case turn_write t of
        WCount n \<Rightarrow> 0 < n
      | WErr e \<Rightarrow> interrupted e \<or>
          (io_kind e = Io_WouldBlock \<and>
           (case wait_fd_writable_for (turn_polls t) of Some (Inr _, _) \<Rightarrow> True | _ \<Rightarrow> False))))"

definition turn_productive :: "write_turn \<Rightarrow> bool" where
  "turn_productive t = (case turn_write t of WCount _ \<Rightarrow> True | WErr _ \<Rightarrow> False)"

lemma tolerable_write_loop:
  assumes "uses_direct_io ctx"
  shows "list_all turn_tolerable turns \<Longrightarrow> length data \<le> length (filter turn_productive turns) \<Longrightarrow>
    write_loop stream_attempt ctx data turns = Some (Inr True, data)"
proof (induction turns arbitrary: data)
  case Nil
  then show ?case by simp
next
  case (Cons turn turns)
  have go: "turn_closed turn = Inr False"
    using Cons.prems by (simp add: turn_tolerable_def)
  show ?case
  proof (cases "data = []")
    case data: False
    show ?thesis
    proof (cases "turn_write turn")
      case (WCount m)
      then have m: "0 < m"
        using Cons.prems by (simp add: turn_tolerable_def)
      then have adv: "stream_attempt data (turn_write turn) = Advance (min m (length data))"
        using WCount data by (simp add: stream_attempt_def)
      have "length (drop (min m (length data)) data) \<le> length (filter turn_productive turns)"
      proof -
        have "turn_productive turn"
          using WCount by (simp add: turn_productive_def)
        then have "length data \<le> Suc (length (filter turn_productive turns))"
          using Cons.prems(2) by simp
        moreover have "0 < length data"
          using data by simp
        ultimately show ?thesis
          using m unfolding length_drop by (simp only: min_def split: if_splits) linarith
      qed
      then have "write_loop stream_attempt ctx (drop (min m (length data)) data) turns
          = Some (Inr True, drop (min m (length data)) data)"
        using Cons by simp
      then show ?thesis
        using data go adv by simp
    next
      case (WErr e)
      then have rest: "write_loop stream_attempt ctx data turns = Some (Inr True, data)"
        using Cons by (simp add: turn_productive_def)
      have tol: "interrupted e \<or> (io_kind e = Io_WouldBlock \<and> (\<exists>ready rest.
          wait_fd_writable_for (turn_polls turn) = Some (Inr ready, rest)))"
        using Cons.prems(1) WErr
        by (auto simp: turn_tolerable_def split: option.splits sum.splits prod.splits)
      then have att: "stream_attempt data (turn_write turn)
          = (if interrupted e then Again else Await)"
        using WErr by (auto simp: stream_attempt_def interrupted_def)
      show ?thesis
      proof (cases "interrupted e")
        case True
        then show ?thesis using data go att rest by simp
      next
        case False
        with tol obtain ready r where
          "wait_fd_writable_for (turn_polls turn) = Some (Inr ready, r)" by blast
        then have "wait_writable_for ctx (turn_polls turn) = Some (Inr ready, r)"
          using assms by (auto simp: wait_writable_for_def uses_direct_io_def)
        then show ?thesis using False data go att rest by simp
      qed
    qed
  qed simp
qed

text \<open>
  A chunk gets written. Whatever mixture of partial writes, interruptions and full buffers the
  operating system answers with, once it has taken something at least as often as the chunk has
  bytes, the loop has returned \<open>Ok(true)\<close> and the PTY has taken exactly the chunk. And however
  the loop returns, what the PTY took is a prefix of the chunk, all of it after \<open>Ok(true)\<close>.
\<close>

theorem chunk_is_written:
  assumes "uses_direct_io ctx"
  shows "(list_all turn_tolerable turns \<and> length data \<le> length (filter turn_productive turns)
      \<longrightarrow> write_direct_chunk ctx data turns = Some (Inr True, data))
    \<and> (\<forall>r sent. write_direct_chunk ctx data turns = Some (r, sent)
        \<longrightarrow> prefix sent data \<and> (r = Inr True \<longrightarrow> sent = data))"
proof -
  have same: "write_direct_chunk ctx data turns = write_loop stream_attempt ctx data turns"
    unfolding write_direct_chunk_def
    by (rule write_loop_cong) (rule direct_attempt_stream [OF assms])
  show ?thesis
    unfolding same using tolerable_write_loop [OF assms] write_loop_prefix by blast
qed

theorem chunk_is_written_witness:
  "write_direct_chunk \<lparr>wrc_fd = Some 5\<rparr> [1, 2, 3]
     [\<lparr>turn_closed = Inr False, turn_write = WCount 2, turn_polls = []\<rparr>,
      \<lparr>turn_closed = Inr False, turn_write = WErr (io_error_new Io_WouldBlock ''EAGAIN''),
       turn_polls = [PTimeout]\<rparr>,
      \<lparr>turn_closed = Inr False, turn_write = WCount 1, turn_polls = []\<rparr>,
      \<lparr>turn_closed = Inr False, turn_write = WCount 9, turn_polls = []\<rparr>] = Some (Inr True, [1, 2, 3])"
  by (rule chunk_is_written [THEN conjunct1, THEN mp])
    (simp_all add: uses_direct_io_def turn_tolerable_def turn_productive_def wait_fd_writable_for_def)

section \<open>The writer thread\<close>

text \<open>Where the thread is; the list is what is left of the chunk in hand.\<close>

datatype writer_pc =
    At_start
  | At_dequeue
  | At_blocked
  | At_chunk "u8 list" \<comment> \<open>about to check \<open>inner.closed\<close>\<close>
  | At_check "u8 list" \<comment> \<open>top of the write loop\<close>
  | At_write "u8 list"
  | At_wait "u8 list"
  | At_return

record writer_sys =
  w_queue :: WriteQueueShared
  w_master :: "i32 option mutex" \<comment> \<open>\<open>inner.master\<close>\<close>
  w_stream :: "unit mutex" \<comment> \<open>\<open>inner.writer\<close>, the fallback \<open>Write\<close> object\<close>
  w_inner_closed :: bool
  w_write_busy :: bool
  w_ctx :: WriteRetryContext
  w_pc :: writer_pc
  w_sent :: "u8 list" \<comment> \<open>everything the PTY took\<close>
  w_posted :: "(ErrorSource \<times> PtyxError) list" \<comment> \<open>errors posted to the event port\<close>
  w_accepted :: "u8 list list" \<comment> \<open>chunks whose enqueue succeeded, in order\<close>

definition session_closed_error :: PtyxError where
  "session_closed_error = PtyxError_new Closed ''session is closed''"

definition stream_poisoned_error :: PtyxError where
  "stream_poisoned_error = PtyxError_new Error ''writer lock poisoned''"

definition writer_post_error :: "PtyxError \<Rightarrow> writer_sys \<Rightarrow> writer_sys" where
  "writer_post_error error s = s\<lparr>w_posted := w_posted s @ [(Write, error)]\<rparr>"

definition record_failure :: "PtyxError \<Rightarrow> writer_sys \<Rightarrow> writer_sys" where
  "record_failure error s =
     writer_post_error error (s\<lparr>w_queue := snd (fail (w_queue s) error)\<rparr>)"

text \<open>The thread starts by making its context; without one it records the failure and returns.\<close>

definition writer_start :: "writer_sys \<Rightarrow> writer_sys" where
  "writer_start s =
    (case write_retry_context_for_inner (w_master s) of
       Inr ctx \<Rightarrow> s\<lparr>w_ctx := ctx, w_pc := At_dequeue\<rparr>
     | Inl error \<Rightarrow> (record_failure error s)\<lparr>w_pc := At_return\<rparr>)"

text \<open>Leaving the write loop drops the busy guard; the result decides how the thread goes on.\<close>

definition writer_leave :: "PtyxError + bool \<Rightarrow> writer_sys \<Rightarrow> writer_sys" where
  "writer_leave result s =
    (let s' = s\<lparr>w_write_busy := BusyGuard_drop\<rparr> in
     case result of
       Inr whole \<Rightarrow> s'\<lparr>w_pc := if whole then At_dequeue else At_return\<rparr>
     | Inl error \<Rightarrow> (record_failure (normalize_write_error error) s')\<lparr>w_pc := At_return\<rparr>)"

text \<open>
  Entering the write loop: the busy guard, and in the fallback mode the lock of the \<open>Write\<close>
  object. A failed guard has nothing to release.
\<close>

definition writer_enter :: "u8 list \<Rightarrow> writer_sys \<Rightarrow> writer_sys" where
  "writer_enter chunk s =
    (case BusyGuard_enter (w_write_busy s) of
       (Inl error, _) \<Rightarrow> (record_failure (normalize_write_error error) s)\<lparr>w_pc := At_return\<rparr>
     | (Inr _, busy) \<Rightarrow>
         let s' = s\<lparr>w_write_busy := busy\<rparr> in
         if uses_direct_io (w_ctx s) then s'\<lparr>w_pc := At_check chunk\<rparr>
         else case lock stream_poisoned_error (w_stream s) of
           Inl error \<Rightarrow> writer_leave (Inl error) s'
         | Inr _ \<Rightarrow> s'\<lparr>w_pc := At_check chunk\<rparr>)"

fun writer_step :: "write_reply \<Rightarrow> poll_reply \<Rightarrow> writer_pc \<Rightarrow> writer_sys \<Rightarrow> writer_sys" where
  "writer_step reply poll At_start s = writer_start s"
| "writer_step reply poll At_dequeue s =
     (case dequeue (w_queue s) of
        (None, q) \<Rightarrow> s\<lparr>w_queue := q, w_pc := At_blocked\<rparr>
      | (Some (Inr (Some chunk)), q) \<Rightarrow> s\<lparr>w_queue := q, w_pc := At_chunk chunk\<rparr>
      | (Some (Inr None), q) \<Rightarrow> s\<lparr>w_queue := q, w_pc := At_return\<rparr>
      | (Some (Inl error), q) \<Rightarrow> (writer_post_error error s)\<lparr>w_queue := q, w_pc := At_return\<rparr>)"
| "writer_step reply poll At_blocked s =
     (if wq_ready (w_queue s) = 0 then s\<lparr>w_pc := At_dequeue\<rparr> else s)"
| "writer_step reply poll (At_chunk chunk) s =
     (if w_inner_closed s then (record_failure session_closed_error s)\<lparr>w_pc := At_return\<rparr>
      else writer_enter chunk s)"
| "writer_step reply poll (At_check data) s =
     (if data = [] then writer_leave (Inr True) s
      else case is_closed (w_queue s) of
        Inl e \<Rightarrow> writer_leave (Inl e) s
      | Inr shut \<Rightarrow> if shut then writer_leave (Inr False) s else s\<lparr>w_pc := At_write data\<rparr>)"
| "writer_step reply poll (At_write data) s =
     (case (if uses_direct_io (w_ctx s) then direct_attempt (w_ctx s) else stream_attempt) data reply of
        Broke e \<Rightarrow> writer_leave (Inl e) s
      | Advance n \<Rightarrow> s\<lparr>w_sent := w_sent s @ take n data, w_pc := At_check (drop n data)\<rparr>
      | Again \<Rightarrow> s\<lparr>w_pc := At_check data\<rparr>
      | Await \<Rightarrow> s\<lparr>w_pc := At_wait data\<rparr>)"
| "writer_step reply poll (At_wait data) s =
     (if uses_direct_io (w_ctx s) then
        (case poll_writable_once poll of
           None \<Rightarrow> s
         | Some (Inl error) \<Rightarrow> writer_leave (Inl (map_write_error error IoFailed)) s
         | Some (Inr _) \<Rightarrow> s\<lparr>w_pc := At_check data\<rparr>)
      else s\<lparr>w_pc := At_check data\<rparr>)"
| "writer_step reply poll At_return s = s"

text \<open>
  What can happen next: a client enqueues, someone closes the queue or the session, a spurious
  wakeup, or the writer takes a step with the operating system's replies.
\<close>

datatype writer_event =
    Client_enqueue "u8 list"
  | Queue_close
  | Session_close
  | Spurious
  | Writer_runs write_reply poll_reply

fun writer_next :: "writer_sys \<Rightarrow> writer_event \<Rightarrow> writer_sys" where
  "writer_next s (Client_enqueue bytes) =
     (case enqueue_owned (w_queue s) bytes of
        (r, q) \<Rightarrow> s\<lparr>w_queue := q,
                     w_accepted := w_accepted s @ (if is_ok r then [bytes] else [])\<rparr>)"
| "writer_next s Queue_close = s\<lparr>w_queue := snd (close (w_queue s))\<rparr>"
| "writer_next s Session_close = s\<lparr>w_inner_closed := True\<rparr>"
| "writer_next s Spurious = s\<lparr>w_queue := (w_queue s)\<lparr>wq_ready := 0\<rparr>\<rparr>"
| "writer_next s (Writer_runs reply poll) = writer_step reply poll (w_pc s) s"

definition writer_run :: "writer_sys \<Rightarrow> writer_event list \<Rightarrow> writer_sys" where
  "writer_run s events = foldl writer_next s events"

definition writer_init :: "usize \<Rightarrow> i32 option mutex \<Rightarrow> unit mutex \<Rightarrow> writer_sys" where
  "writer_init max_bytes master stream =
     \<lparr>w_queue = WriteQueueShared_new max_bytes, w_master = master, w_stream = stream,
      w_inner_closed = False, w_write_busy = False, w_ctx = \<lparr>wrc_fd = None\<rparr>, w_pc = At_start, w_sent = [], w_posted = [], w_accepted = []\<rparr>"

section \<open>What the PTY receives\<close>

fun in_hand :: "writer_pc \<Rightarrow> u8 list" where
  "in_hand (At_chunk d) = d"
| "in_hand (At_check d) = d"
| "in_hand (At_write d) = d"
| "in_hand (At_wait d) = d"
| "in_hand _ = []"

fun in_loop :: "writer_pc \<Rightarrow> bool" where
  "in_loop (At_check d) = True"
| "in_loop (At_write d) = True"
| "in_loop (At_wait d) = True"
| "in_loop _ = False"

definition queue_cut :: "WriteQueueShared \<Rightarrow> bool" where
  "queue_cut q \<longleftrightarrow> closed (wq q) \<or> failure (wq q) \<noteq> None"

text \<open>
  While the queue is open, the bytes sent, in hand and queued are the bytes accepted. Once it is
  closed or failed nothing more is accepted, and what was sent and is in hand is a prefix.
\<close>

definition writer_inv :: "writer_sys \<Rightarrow> bool" where
  "writer_inv s \<longleftrightarrow>
     wq_inv (w_queue s) \<and> \<not> poisoned (wq_state (w_queue s)) \<and> wq_no_lost_wakeup (w_queue s)
   \<and> (wq_ready (w_queue s) \<noteq> 0 \<longrightarrow> w_pc s = At_blocked)
   \<and> (if queue_cut (w_queue s) then prefix (w_sent s @ in_hand (w_pc s)) (concat (w_accepted s))
      else w_sent s @ in_hand (w_pc s) @ concat (queue (wq (w_queue s))) = concat (w_accepted s))
   \<and> (w_pc s = At_return \<longrightarrow> queue_cut (w_queue s))
   \<and> (w_write_busy s \<longleftrightarrow> in_loop (w_pc s)) \<and> w_pc s \<noteq> At_write []
   \<and> (w_pc s \<noteq> At_return \<longrightarrow> w_posted s = [] \<and> failure (wq (w_queue s)) = None)
   \<and> length (w_posted s) \<le> 1"

lemma writer_inv_init: "unat max_bytes < 2 ^ 63 \<Longrightarrow> writer_inv (writer_init max_bytes master stream)"
  using wq_inv_new [of max_bytes]
  by (simp add: writer_inv_def writer_init_def queue_cut_def WriteQueueShared_new_def new_mutex_def
      wq_no_lost_wakeup_def)

lemma fail_simps:
  assumes "\<not> poisoned (wq_state q)"
  shows "closed (wq (snd (fail q e))) = closed (wq q)" "failure (wq (snd (fail q e))) = Some e"
    "queue (wq (snd (fail q e))) = []" "wq_ready (snd (fail q e)) = 0"
    "poisoned (wq_state (snd (fail q e))) = False" "wq_no_lost_wakeup (snd (fail q e))"
  using assms by (auto simp: fail_def lock_def wq_no_lost_wakeup_def)

lemma close_simps:
  assumes "\<not> poisoned (wq_state q)"
  shows "closed (wq (snd (close q)))" "failure (wq (snd (close q))) = failure (wq q)"
    "queue (wq (snd (close q))) = []" "wq_ready (snd (close q)) = 0"
    "poisoned (wq_state (snd (close q))) = False" "wq_no_lost_wakeup (snd (close q))"
  using assms by (auto simp: close_def lock_def wq_no_lost_wakeup_def)

lemma writer_inv_prefix: "writer_inv s \<Longrightarrow> prefix (w_sent s @ in_hand (w_pc s)) (concat (w_accepted s))"
proof (cases "queue_cut (w_queue s)")
  case False
  moreover assume "writer_inv s"
  ultimately have "concat (w_accepted s) = (w_sent s @ in_hand (w_pc s)) @ concat (queue (wq (w_queue s)))"
    by (simp add: writer_inv_def)
  then show ?thesis by (rule prefixI)
qed (simp add: writer_inv_def)

lemma record_failure_inv:
  assumes "writer_inv s" "w_pc s \<noteq> At_return"
  shows "writer_inv ((record_failure e (s\<lparr>w_write_busy := False\<rparr>))\<lparr>w_pc := At_return\<rparr>)"
proof -
  have sound: "\<not> poisoned (wq_state (w_queue s))" and inv: "wq_inv (w_queue s)"
    and posted: "w_posted s = []"
    using assms by (simp_all add: writer_inv_def)
  have "prefix (w_sent s) (concat (w_accepted s))"
    using writer_inv_prefix [OF assms(1)] by (rule append_prefixD)
  then show ?thesis
    using fail_simps [OF sound, of e] fail_inv [OF inv, of e] posted
    by (simp add: writer_inv_def record_failure_def writer_post_error_def queue_cut_def)
qed

lemma writer_leave_inv:
  assumes "writer_inv s" "in_loop (w_pc s)"
    and "result = Inr True \<Longrightarrow> in_hand (w_pc s) = []"
    and "result = Inr False \<Longrightarrow> closed (wq (w_queue s))"
  shows "writer_inv (writer_leave result s)"
proof (cases result)
  case (Inl e)
  have "w_pc s \<noteq> At_return"
    using assms(2) by auto
  from record_failure_inv [OF assms(1) this] Inl show ?thesis
    by (simp add: writer_leave_def BusyGuard_drop_def)
next
  case (Inr whole)
  then show ?thesis
    using assms writer_inv_prefix [OF assms(1)]
    by (cases whole)
      (auto simp: writer_leave_def BusyGuard_drop_def writer_inv_def queue_cut_def dest: append_prefixD split: if_splits)
qed

lemma writer_step_inv:
  assumes "writer_inv s" "w_pc s = pc"
  shows "writer_inv (writer_step reply poll pc s)"
proof (cases pc)
  case At_start
  have same: "s\<lparr>w_write_busy := False\<rparr> = s"
    using assms At_start by (simp add: writer_inv_def)
  have started: "writer_inv (s\<lparr>w_ctx := ctx, w_pc := At_dequeue\<rparr>)" for ctx
    using assms At_start by (auto simp: writer_inv_def split: if_splits)
  show ?thesis
    using record_failure_inv [OF assms(1)] assms At_start started
    by (simp add: writer_start_def same split: sum.splits)
next
  case At_dequeue
  obtain r q where deq: "dequeue (w_queue s) = (r, q)" by fastforce
  have inv: "wq_inv q" using assms(1) deq by (auto simp: writer_inv_def dest: dequeue_inv)
  have ready: "wq_ready (w_queue s) = 0" using assms At_dequeue by (auto simp: writer_inv_def)
  have wake: "wq_no_lost_wakeup q"
    using dequeue_wakeup [OF _ ready] assms(1) deq by (auto simp: writer_inv_def)
  from deq show ?thesis
  proof (cases rule: dequeue_cases)
    case (chunk c rest)
    then show ?thesis
      using assms At_dequeue deq inv wake
      by (auto simp: writer_inv_def queue_cut_def wq_inv_def)
  next
    case drained
    then show ?thesis
      using assms At_dequeue deq inv wake by (auto simp: writer_inv_def queue_cut_def)
  next
    case blocked
    then show ?thesis
      using assms At_dequeue deq inv wake by (auto simp: writer_inv_def queue_cut_def)
  qed (use assms At_dequeue in \<open>auto simp: writer_inv_def\<close>)
next
  case At_blocked
  then show ?thesis using assms by (auto simp: writer_inv_def)
next
  case (At_chunk c)
  have same: "s\<lparr>w_write_busy := False\<rparr> = s" and idle: "\<not> w_write_busy s"
    using assms At_chunk by (simp_all add: writer_inv_def)
  have not_return: "w_pc s \<noteq> At_return"
    using assms At_chunk by simp
  have failed: "writer_inv ((record_failure e s)\<lparr>w_pc := At_return\<rparr>)" for e
    using record_failure_inv [OF assms(1) not_return, of e] by (simp add: same)
  have entered: "writer_inv (s\<lparr>w_write_busy := True, w_pc := At_check c\<rparr>)"
    using assms At_chunk by (auto simp: writer_inv_def split: if_splits)
  show ?thesis
    using At_chunk failed entered idle
    by (simp add: writer_enter_def BusyGuard_enter_def Let_def lock_def writer_leave_def BusyGuard_drop_def same)
next
  case (At_check d)
  have "is_closed (w_queue s) = Inr (closed (wq (w_queue s)))"
    using assms(1) by (simp add: is_closed_def lock_def writer_inv_def)
  then show ?thesis
    using assms At_check
    by (auto intro!: writer_leave_inv) (auto simp: writer_inv_def)
next
  case (At_write d)
  show ?thesis
  proof (cases "(if uses_direct_io (w_ctx s) then direct_attempt (w_ctx s) else stream_attempt) d reply")
    case (Broke e)
    then show ?thesis using assms At_write by (auto intro!: writer_leave_inv)
  next
    case (Advance n)
    then show ?thesis using assms At_write by (auto simp: writer_inv_def)
  qed (use assms At_write in \<open>auto simp: writer_inv_def\<close>)
next
  case (At_wait d)
  show ?thesis
  proof (cases "poll_writable_once poll")
    case (Some r)
    then show ?thesis
      using assms At_wait by (cases r) (auto intro!: writer_leave_inv, auto simp: writer_inv_def)
  qed (use assms At_wait in \<open>auto simp: writer_inv_def\<close>)
next
  case At_return
  then show ?thesis using assms by simp
qed

fun event_fits :: "writer_event \<Rightarrow> bool" where
  "event_fits (Client_enqueue bytes) = vec_fits bytes"
| "event_fits _ = True"

lemma client_enqueue_inv:
  assumes "writer_inv s" "vec_fits bytes"
  shows "writer_inv (writer_next s (Client_enqueue bytes))"
proof -
  obtain r q where enq: "enqueue_owned (w_queue s) bytes = (r, q)" by fastforce
  have inv: "wq_inv q"
    using enqueue_owned_inv [OF _ assms(2) enq] assms(1) by (simp add: writer_inv_def)
  have wake: "wq_no_lost_wakeup q"
    using enqueue_owned_wakeup [of "w_queue s" bytes] assms(1) enq by (simp add: writer_inv_def)
  from enq show ?thesis
  proof (cases rule: enqueue_owned_cases)
    case queued
    then show ?thesis
      using assms(1) inv wake enq
      by (auto simp: writer_inv_def queue_cut_def validate_enqueue_Inr_iff)
  next
    case (refused e)
    then show ?thesis using assms(1) enq by (auto simp: writer_inv_def)
  next
    case empty
    then show ?thesis using assms(1) enq by (auto simp: writer_inv_def)
  qed
qed

lemma writer_next_inv: "writer_inv s \<Longrightarrow> event_fits e \<Longrightarrow> writer_inv (writer_next s e)"
proof (cases e)
  case Queue_close
  assume inv: "writer_inv s"
  then have sound: "\<not> poisoned (wq_state (w_queue s))"
    by (simp add: writer_inv_def)
  have "writer_inv (s\<lparr>w_queue := snd (close (w_queue s))\<rparr>)"
    using inv close_simps [OF sound] close_inv [of "w_queue s"] writer_inv_prefix [OF inv]
    by (simp add: writer_inv_def queue_cut_def)
  then show ?thesis
    using Queue_close by simp
next
  case Session_close
  moreover assume "writer_inv s"
  ultimately show ?thesis
    by (simp add: writer_inv_def)
next
  case Spurious
  moreover assume "writer_inv s"
  ultimately show ?thesis
    by (simp add: writer_inv_def wq_inv_def wq_no_lost_wakeup_def queue_cut_def)
next
  case (Client_enqueue bytes)
  moreover assume "writer_inv s" "event_fits e"
  ultimately show ?thesis
    using client_enqueue_inv by simp
next
  case (Writer_runs reply poll)
  moreover assume "writer_inv s"
  ultimately show ?thesis
    by (simp add: writer_step_inv)
qed

lemma writer_run_inv: "writer_inv s \<Longrightarrow> list_all event_fits es \<Longrightarrow> writer_inv (writer_run s es)"
  unfolding writer_run_def by (induction es arbitrary: s) (simp_all add: writer_next_inv)

text \<open>
  C5. The PTY receives what was accepted, in order. Start the writer thread, and let clients
  enqueue, anyone close the queue or the session, wakeups come spuriously, and the operating system
  answer the writer's calls in any way and at any time. At every moment the bytes the PTY took are
  a prefix of the accepted chunks' bytes; while the queue is neither closed nor failed, the bytes
  taken, the rest of the chunk in hand and the queued chunks make up exactly the accepted bytes;
  the writer sleeps on the condition variable only when the PTY took everything; it returns only
  after a close or a failure; and it posts at most one error.
\<close>

theorem writer_stream:
  fixes max_bytes :: usize and master :: "i32 option mutex" and stream :: "unit mutex"
  assumes "unat max_bytes < 2 ^ 63" "list_all event_fits events"
  defines "s \<equiv> writer_run (writer_init max_bytes master stream) events"
  shows "prefix (w_sent s) (concat (w_accepted s))
    \<and> (\<not> queue_cut (w_queue s) \<longrightarrow>
        w_sent s @ in_hand (w_pc s) @ concat (queue (wq (w_queue s))) = concat (w_accepted s))
    \<and> (w_pc s = At_blocked \<and> wq_ready (w_queue s) \<noteq> 0 \<longrightarrow> w_sent s = concat (w_accepted s))
    \<and> (w_pc s = At_return \<longrightarrow> queue_cut (w_queue s))
    \<and> length (w_posted s) \<le> 1"
proof -
  have inv: "writer_inv s"
    unfolding s_def by (rule writer_run_inv [OF writer_inv_init]) fact+
  have sleep: "\<not> queue_cut (w_queue s) \<and> queue (wq (w_queue s)) = []"
    if "wq_ready (w_queue s) \<noteq> 0"
    using inv that by (auto simp: writer_inv_def wq_no_lost_wakeup_def queue_cut_def)
  show ?thesis
    using inv sleep append_prefixD [OF writer_inv_prefix [OF inv]]
    by (auto simp: writer_inv_def)
qed

theorem writer_stream_witness:
  "w_sent (writer_run (writer_init 8 (new_mutex (Some 3)) (new_mutex ()))
     [Client_enqueue [1, 2], Writer_runs (WCount 0) PTimeout, Writer_runs (WCount 0) PTimeout,
      Writer_runs (WCount 0) PTimeout, Writer_runs (WCount 0) PTimeout, Writer_runs (WCount 1) PTimeout])
   = [1] \<and> prefix [1] [1, 2 :: u8]"
proof -
  define events where "events =
    [Client_enqueue [1, 2 :: u8], Writer_runs (WCount 0) PTimeout, Writer_runs (WCount 0) PTimeout,
      Writer_runs (WCount 0) PTimeout, Writer_runs (WCount 0) PTimeout, Writer_runs (WCount 1) PTimeout]"
  define s where "s = writer_run (writer_init 8 (new_mutex (Some 3)) (new_mutex ())) events"
  have "w_sent s = [1] \<and> w_accepted s = [[1, 2]]"
    unfolding s_def events_def
    by (simp add: writer_run_def writer_init_def WriteQueueShared_new_def new_mutex_def enqueue_owned_def
        dequeue_def lock_def validate_enqueue_def vec_len_def saturating_add_def saturating_sub_def
        wq_store_def set_guarded_def notify_one_def writer_start_def write_retry_context_for_inner_def
        writer_enter_def BusyGuard_enter_def Let_def uses_direct_io_def is_closed_def direct_attempt_def write_direct_def
        write_fd_def)
  moreover have "list_all event_fits events"
    by (simp add: events_def vec_fits_def)
  then have "prefix (w_sent s) (concat (w_accepted s))"
    unfolding s_def using writer_stream [of 8 events "new_mutex (Some 3)" "new_mutex ()"] by simp
  ultimately show ?thesis
    by (simp add: s_def events_def)
qed

section \<open>Progress\<close>

text \<open>
  How many of its own steps the writer is away from sleeping, when the operating system takes at
  least a byte each time.
\<close>

fun pc_cost :: "writer_pc \<Rightarrow> nat" where
  "pc_cost At_start = 2"
| "pc_cost At_dequeue = 1"
| "pc_cost At_blocked = 2"
| "pc_cost (At_chunk d) = 2 * length d + 3"
| "pc_cost (At_check d) = 2 * length d + 2"
| "pc_cost (At_write d) = 2 * length d + 1"
| "pc_cost (At_wait d) = 2 * length d + 3"
| "pc_cost At_return = 0"

definition writer_cost :: "writer_sys \<Rightarrow> nat" where
  "writer_cost s =
    (if wq_ready (w_queue s) \<noteq> 0 then 0
     else pc_cost (w_pc s) + sum_list (map (\<lambda>c. 2 * length c + 3) (queue (wq (w_queue s)))))"

definition writer_calm :: "writer_sys \<Rightarrow> bool" where
  "writer_calm s \<longleftrightarrow> writer_inv s \<and> \<not> queue_cut (w_queue s) \<and> \<not> w_inner_closed s
     \<and> \<not> poisoned (w_master s) \<and> \<not> poisoned (w_stream s)"

fun productive :: "writer_event \<Rightarrow> bool" where
  "productive (Writer_runs (WCount n) poll) = (0 < n \<and> (poll = PTimeout \<or> poll = PReady False))"
| "productive _ = False"

lemma calm_awake_step:
  assumes calm: "writer_calm s" and n: "0 < n" and poll: "poll = PTimeout \<or> poll = PReady False"
    and awake: "wq_ready (w_queue s) = 0"
  defines "s' \<equiv> writer_step (WCount n) poll (w_pc s) s"
  shows "writer_calm s' \<and> w_accepted s' = w_accepted s \<and> writer_cost s' < writer_cost s"
proof -
  have inv: "writer_inv s" and uncut: "\<not> queue_cut (w_queue s)"
    using calm by (simp_all add: writer_calm_def)
  have sound: "\<not> poisoned (wq_state (w_queue s))"
    using inv by (simp add: writer_inv_def)
  have open': "\<not> closed (wq (w_queue s))" "failure (wq (w_queue s)) = None"
    using uncut by (auto simp: queue_cut_def)
  have inv': "writer_inv s'"
    unfolding s'_def by (rule writer_step_inv [OF inv refl])
  show ?thesis
  proof (cases "w_pc s")
    case At_dequeue
    show ?thesis
      using At_dequeue inv' calm awake sound open'
      by (cases "queue (wq (w_queue s))")
        (auto simp: s'_def dequeue_def lock_def writer_calm_def writer_cost_def queue_cut_def)
  next
    case (At_write d)
    then have d: "d \<noteq> []"
      using inv by (auto simp: writer_inv_def)
    have att: "stream_attempt d (WCount n) = Advance (min n (length d))"
      using n d by (simp add: stream_attempt_def)
    have "length (drop (min n (length d)) d) < length d"
      using n d by simp
    then show ?thesis
      using At_write inv' calm awake att direct_attempt_stream [of "w_ctx s" d "WCount n"]
      by (simp add: s'_def writer_calm_def writer_cost_def)
  next
    case (At_chunk d)
    then have idle: "\<not> w_write_busy s"
      using inv by (simp add: writer_inv_def)
    show ?thesis
      using At_chunk inv' calm awake idle
      by (auto simp: s'_def writer_calm_def writer_cost_def writer_enter_def BusyGuard_enter_def Let_def lock_def)
  next
    case (At_check d)
    show ?thesis
      using At_check inv' calm awake sound open'
      by (auto simp: s'_def writer_calm_def writer_cost_def writer_leave_def BusyGuard_drop_def Let_def is_closed_def lock_def)
  next
    case (At_wait d)
    show ?thesis
      using At_wait inv' calm awake poll by (auto simp: s'_def writer_calm_def writer_cost_def)
  next
    case At_start
    show ?thesis
      using At_start inv' calm awake
      by (auto simp: s'_def writer_calm_def writer_cost_def writer_start_def
          write_retry_context_for_inner_def lock_def)
  next
    case At_blocked
    show ?thesis
      using At_blocked inv' calm awake by (auto simp: s'_def writer_calm_def writer_cost_def)
  next
    case At_return
    then show ?thesis
      using inv uncut by (simp add: writer_inv_def)
  qed
qed

lemma calm_run:
  assumes "writer_calm s" "list_all productive events" "writer_cost s \<le> length events"
  shows "writer_calm (writer_run s events) \<and> w_accepted (writer_run s events) = w_accepted s
    \<and> wq_ready (w_queue (writer_run s events)) \<noteq> 0"
  using assms
proof (induction events arbitrary: s)
  case Nil
  then show ?case
    by (cases "w_pc s = At_return"; cases "w_pc s")
      (auto simp: writer_run_def writer_cost_def writer_calm_def writer_inv_def split: if_splits)
next
  case (Cons e events)
  from Cons.prems(2) obtain n poll where e: "e = Writer_runs (WCount n) poll" "0 < n"
    "poll = PTimeout \<or> poll = PReady False"
    by (cases e rule: productive.cases) auto
  show ?case
  proof (cases "wq_ready (w_queue s) = 0")
    case True
    from calm_awake_step [OF Cons.prems(1) e(2,3) True] Cons.prems show ?thesis
      using Cons.IH [of "writer_next s e"] e by (simp add: writer_run_def)
  next
    case False
    then have "w_pc s = At_blocked"
      using Cons.prems(1) by (simp add: writer_calm_def writer_inv_def)
    then have "writer_next s e = s"
      using False e by simp
    moreover have "writer_cost s = 0"
      using False by (simp add: writer_cost_def)
    ultimately show ?thesis
      using Cons.IH [of s] Cons.prems by (simp add: writer_run_def)
  qed
qed

text \<open>
  The writer drains the queue. Take any reachable state with the session and the queue open and
  nothing failed. If from then on each write takes at least one byte, the writer needs no more than
  \<open>writer_cost\<close> of its own steps, a bound linear in the bytes and chunks left, until the PTY
  has taken every accepted byte and the writer sleeps; no chunk is stuck.
\<close>

theorem writer_drains:
  fixes max_bytes :: usize and master :: "i32 option mutex" and stream :: "unit mutex"
  assumes "unat max_bytes < 2 ^ 63" "list_all event_fits events"
  defines "s \<equiv> writer_run (writer_init max_bytes master stream) events"
  assumes "\<not> queue_cut (w_queue s)" "\<not> w_inner_closed s" "\<not> poisoned (w_master s)" "\<not> poisoned (w_stream s)"
    and "list_all productive steps" "writer_cost s \<le> length steps"
  shows "w_sent (writer_run s steps) = concat (w_accepted s) \<and> w_pc (writer_run s steps) = At_blocked"
proof -
  have "writer_inv s"
    unfolding s_def by (rule writer_run_inv [OF writer_inv_init]) fact+
  then have "writer_calm s"
    using assms by (simp add: writer_calm_def)
  from calm_run [OF this assms(8,9)] have fin: "writer_calm (writer_run s steps)"
    "w_accepted (writer_run s steps) = w_accepted s" "wq_ready (w_queue (writer_run s steps)) \<noteq> 0"
    by blast+
  then show ?thesis
    by (auto simp: writer_calm_def writer_inv_def wq_no_lost_wakeup_def)
qed

theorem writer_drains_witness:
  "w_sent (writer_run (writer_run (writer_init 8 (new_mutex (Some 3)) (new_mutex ())) [Client_enqueue [1, 2]])
     (replicate 9 (Writer_runs (WCount 1) PTimeout))) = [1, 2]"
proof -
  define s where "s = writer_run (writer_init 8 (new_mutex (Some 3)) (new_mutex ())) [Client_enqueue [1, 2]]"
  have facts: "w_accepted s = [[1, 2]]" "\<not> queue_cut (w_queue s)" "\<not> w_inner_closed s"
    "\<not> poisoned (w_master s)" "\<not> poisoned (w_stream s)" "writer_cost s = 9"
    by (simp_all add: s_def writer_run_def writer_init_def WriteQueueShared_new_def new_mutex_def
        enqueue_owned_def lock_def validate_enqueue_def vec_len_def saturating_add_def
        wq_store_def notify_one_def queue_cut_def writer_cost_def)
  have "w_sent (writer_run s (replicate 9 (Writer_runs (WCount 1) PTimeout))) = concat (w_accepted s)"
    using writer_drains [of 8 "[Client_enqueue [1, 2]]" "new_mutex (Some 3)" "new_mutex ()"
        "replicate 9 (Writer_runs (WCount 1) PTimeout)"] facts
    by (simp add: s_def vec_fits_def list_all_iff)
  then show ?thesis
    using facts(1) by (simp add: s_def)
qed

section \<open>Ending after a close\<close>

text \<open>How many uninterrupted steps a writer needs to return once its queue is closed.\<close>

fun closing_steps :: "writer_pc \<Rightarrow> nat" where
  "closing_steps At_start = 2"
| "closing_steps At_dequeue = 1"
| "closing_steps At_blocked = 2"
| "closing_steps (At_chunk d) = (if d = [] then 3 else 2)"
| "closing_steps (At_check d) = (if d = [] then 2 else 1)"
| "closing_steps (At_write d) = 3"
| "closing_steps (At_wait d) = (if d = [] then 3 else 2)"
| "closing_steps At_return = 0"

lemma closing_steps_le: "closing_steps pc \<le> 3"
  by (cases pc) simp_all

lemma closing_steps_0: "closing_steps pc = 0 \<longleftrightarrow> pc = At_return"
  by (cases pc) simp_all

text \<open>A step of the thread, unless a signal interrupts the wait it is in.\<close>

fun uninterrupted :: "writer_event \<Rightarrow> bool" where
  "uninterrupted (Writer_runs reply poll) = (poll_writable_once poll \<noteq> None)"
| "uninterrupted _ = False"

definition writer_closing :: "writer_sys \<Rightarrow> bool" where
  "writer_closing s \<longleftrightarrow> writer_inv s \<and> closed (wq (w_queue s))"

lemma writer_closing_facts:
  assumes "writer_closing s"
  shows "writer_inv s" "closed (wq (w_queue s))" "queue (wq (w_queue s)) = []" "wq_ready (w_queue s) = 0"
    "\<not> poisoned (wq_state (w_queue s))"
  using assms by (auto simp: writer_closing_def writer_inv_def wq_inv_def wq_no_lost_wakeup_def)

definition closing_progress :: "bool \<Rightarrow> writer_sys \<Rightarrow> writer_sys \<Rightarrow> bool" where
  "closing_progress unhindered s s' \<longleftrightarrow>
     closed (wq (w_queue s')) \<and> closing_steps (w_pc s') \<le> closing_steps (w_pc s) - (if unhindered then 1 else 0)
     \<and> prefix (w_sent s' @ in_hand (w_pc s')) (w_sent s @ in_hand (w_pc s))"

lemma closing_leave:
  assumes "writer_closing s" "in_loop (w_pc s)" "result = Inr True \<Longrightarrow> in_hand (w_pc s) = []"
  shows "closing_progress True s (writer_leave result s)"
  using assms writer_closing_facts [OF assms(1)]
  by (cases "w_pc s"; cases result)
    (auto simp: writer_leave_def BusyGuard_drop_def closing_progress_def record_failure_def writer_post_error_def
      fail_simps)

lemma closing_writer_step:
  assumes "writer_closing s"
  shows "closing_progress (poll_writable_once poll \<noteq> None) s (writer_step reply poll (w_pc s) s)"
proof -
  note facts = writer_closing_facts [OF assms]
  define calm where "calm = (poll_writable_once poll \<noteq> None)"
  have any: "closing_progress calm s s'" if "closing_progress True s s'" for s'
    using that by (auto simp: closing_progress_def)
  have failed: "closing_progress True s ((record_failure e s)\<lparr>w_pc := At_return\<rparr>)" if "w_pc s \<noteq> At_return" for e
    using that facts by (cases "w_pc s")
      (auto simp: closing_progress_def record_failure_def writer_post_error_def fail_simps)
  have "closing_progress calm s (writer_step reply poll (w_pc s) s)"
  proof (cases "w_pc s")
    case At_start
    then show ?thesis
      using facts failed
      by (intro any) (auto simp: writer_start_def closing_progress_def split: sum.split)
  next
    case At_dequeue
    obtain r q where deq: "dequeue (w_queue s) = (r, q)" by fastforce
    then show ?thesis
      using At_dequeue facts
      by (intro any, cases rule: dequeue_cases)
        (simp_all add: closing_progress_def writer_post_error_def)
  next
    case (At_chunk c)
    have idle: "\<not> w_write_busy s"
      using facts(1) At_chunk by (simp add: writer_inv_def)
    have entered: "closing_progress True s (s\<lparr>w_write_busy := True, w_pc := At_check c\<rparr>)"
      using At_chunk facts by (simp add: closing_progress_def)
    show ?thesis
      using At_chunk failed idle entered facts
      by (intro any) (auto simp: writer_enter_def BusyGuard_enter_def Let_def lock_def writer_leave_def BusyGuard_drop_def
          closing_progress_def record_failure_def writer_post_error_def fail_simps)
  next
    case (At_check d)
    then show ?thesis
      using facts closing_leave [OF assms, of "Inr (d = [])"]
      by (cases "d = []") (auto intro!: any simp: is_closed_def lock_def)
  next
    case (At_write d)
    show ?thesis
    proof (cases "(if uses_direct_io (w_ctx s) then direct_attempt (w_ctx s) else stream_attempt) d reply")
      case (Broke e)
      then show ?thesis using At_write closing_leave [OF assms, of "Inl e"] by (intro any) simp
    qed (use At_write facts in \<open>auto intro!: any simp: closing_progress_def writer_inv_def\<close>)
  next
    case (At_wait d)
    show ?thesis
    proof (cases "poll_writable_once poll")
      case None
      then show ?thesis using At_wait facts by (simp add: closing_progress_def calm_def)
    next
      case (Some r)
      have "closing_progress True s (s\<lparr>w_pc := At_check d\<rparr>)"
        using At_wait facts by (simp add: closing_progress_def)
      then show ?thesis
        using At_wait Some closing_leave [OF assms, of "Inl (map_write_error error IoFailed)" for error]
        by (cases r) (auto intro: any)
    qed
  qed (use facts in \<open>auto intro!: any simp: closing_progress_def\<close>)
  then show ?thesis
    by (simp only: calm_def)
qed

lemma closing_next:
  assumes "writer_closing s"
  shows "closing_progress (uninterrupted e) s (writer_next s e)"
proof (cases e)
  case (Client_enqueue bytes)
  obtain r q where enq: "enqueue_owned (w_queue s) bytes = (r, q)" by fastforce
  from enq have "closed (wq q)"
    using writer_closing_facts(2) [OF assms] by (cases rule: enqueue_owned_cases) auto
  then show ?thesis
    using Client_enqueue enq by (simp add: closing_progress_def)
next
  case Queue_close
  then show ?thesis
    using close_simps [OF writer_closing_facts(5) [OF assms]] by (simp add: closing_progress_def)
next
  case (Writer_runs reply poll)
  then show ?thesis
    using closing_writer_step [OF assms] by simp
qed (use writer_closing_facts(2) [OF assms] in \<open>simp_all add: closing_progress_def\<close>)

lemma closing_run:
  assumes "writer_closing s" "list_all event_fits events"
  shows "closing_steps (w_pc (writer_run s events)) \<le> closing_steps (w_pc s) - length (filter uninterrupted events)
    \<and> prefix (w_sent (writer_run s events)) (w_sent s @ in_hand (w_pc s))"
  using assms
proof (induction events arbitrary: s)
  case Nil
  then show ?case by (simp add: writer_run_def)
next
  case (Cons e events)
  have step: "closing_progress (uninterrupted e) s (writer_next s e)"
    by (rule closing_next) fact
  then have "writer_closing (writer_next s e)"
    using Cons.prems writer_next_inv [of s e] by (simp add: writer_closing_def closing_progress_def)
  from Cons.IH [OF this] Cons.prems(2) step show ?case
    by (auto simp: writer_run_def closing_progress_def intro: prefix_order.trans)
qed

text \<open>
  C17. Closing the queue ends the writer. Take any reachable state in which the queue is closed: after
  at most three more steps of its own that no signal interrupts, whatever clients do and whatever the
  operating system answers meanwhile, the writer thread has returned; and at no time after the close
  does the PTY get a byte beyond the chunk the thread had in hand.
\<close>

theorem writer_returns_after_close:
  fixes max_bytes :: usize and master :: "i32 option mutex" and stream :: "unit mutex"
  assumes "unat max_bytes < 2 ^ 63" "list_all event_fits events" "list_all event_fits later"
  defines "s \<equiv> writer_run (writer_init max_bytes master stream) events"
  assumes "closed (wq (w_queue s))"
  shows "(3 \<le> length (filter uninterrupted later) \<longrightarrow> w_pc (writer_run s later) = At_return)
    \<and> prefix (w_sent (writer_run s later)) (w_sent s @ in_hand (w_pc s))"
proof -
  have "writer_inv s"
    unfolding s_def by (rule writer_run_inv [OF writer_inv_init]) fact+
  then have "writer_closing s"
    using assms(5) by (simp add: writer_closing_def)
  from closing_run [OF this assms(3)] closing_steps_le [of "w_pc s"] show ?thesis
    using closing_steps_0 [of "w_pc (writer_run s later)"] by linarith
qed

text \<open>The queue is closed while the thread is about to write: it writes once more and returns.\<close>

theorem writer_returns_after_close_witness:
  "w_pc (writer_run (writer_run (writer_init 8 (new_mutex (Some 3)) (new_mutex ()))
       [Client_enqueue [1, 2], Writer_runs (WCount 0) PTimeout, Writer_runs (WCount 0) PTimeout, Queue_close])
     (replicate 3 (Writer_runs (WCount 1) PTimeout))) = At_return"
proof -
  let ?events = "[Client_enqueue [1, 2 :: u8], Writer_runs (WCount 0) PTimeout, Writer_runs (WCount 0) PTimeout, Queue_close]"
  have "closed (wq (w_queue (writer_run (writer_init 8 (new_mutex (Some 3)) (new_mutex ())) ?events)))"
    by (simp add: writer_run_def writer_init_def WriteQueueShared_new_def new_mutex_def enqueue_owned_def
        dequeue_def lock_def validate_enqueue_def vec_len_def saturating_add_def saturating_sub_def
        wq_store_def set_guarded_def notify_one_def writer_start_def write_retry_context_for_inner_def close_def)
  from writer_returns_after_close [OF _ _ _ this, of "replicate 3 (Writer_runs (WCount 1) PTimeout)"] show ?thesis
    by (simp add: vec_fits_def numeral_3_eq_3)
qed

end
