(* ===== verification/Input.thy ===== *)
theory Input
  imports Exports Writer
begin

text \<open>
  Input from the client to the PTY: the exported functions of \<open>lib.rs\<close>, the session's runtime and the
  writer thread put together. The write queue in the session is the one the thread works on, and the
  thread sees the session's \<open>closed\<close> flag. Calls are atomic here, which the last section of
  \<open>WriteQueue\<close> justifies for the only call that lets go of the queue in between.
\<close>

section \<open>The composed system\<close>

record ('m, 'c) input_sys =
  in_lib :: "('m, 'c) ffi_state"
  in_writer :: writer_sys \<comment> \<open>the thread; its queue and flag are those of the session while there is one\<close>
  in_started :: bool \<comment> \<open>once the session is gone: whether its thread had been started\<close>
  in_written :: "u8 list list" \<comment> \<open>the bytes of the calls that returned \<open>PTYX_STATUS_OK\<close>\<close>

text \<open>
  A call carries what it finds: the caller's memory, the allocator and the system. \<open>Fill\<close> is the
  client storing into a buffer it owns, and \<open>Close_marks\<close> the first step of \<open>close\<close> as other threads see it.
\<close>

datatype ('m, 'c) input_event =
    Call_write "('m, 'c) ffi_system" u64 usize
  | Call_write_owned "('m, 'c) ffi_system" u64 usize
  | Call_alloc "('m, 'c) ffi_system" usize "u64 option"
  | Call_free u64
  | Fill u64 "u8 list"
  | Call_ack u64
  | Call_resize "('m, 'c) ffi_system" ptyx_size_t
  | Call_kill "('m, 'c) ffi_system" i32
  | Close_marks
  | Call_close "('m, 'c) ffi_system"
  | Writer_works write_reply poll_reply
  | Writer_wakes

definition shared_queue :: "('m, 'c) Session \<Rightarrow> WriteQueueShared option" where
  "shared_queue s = map_option (\<lambda>rt. wh_shared (rt_writer rt)) (guarded (ss_runtime s))"

definition thread_started :: "('m, 'c) Session \<Rightarrow> bool" where
  "thread_started s = (case guarded (ss_runtime s) of None \<Rightarrow> False | Some rt \<Rightarrow> guarded (wh_handle (rt_writer rt)) \<noteq> None)"

text \<open>The writer as it sees the session behind \<open>ptr\<close>.\<close>

definition input_writer :: "u64 \<Rightarrow> ('m, 'c) input_sys \<Rightarrow> writer_sys" where
  "input_writer ptr x =
    (let session = fs_sessions (in_lib x) ptr; w = in_writer x in
     w\<lparr>w_queue := (case Option.bind session shared_queue of Some q \<Rightarrow> q | None \<Rightarrow> w_queue w),
       w_inner_closed := (case session of Some s \<Rightarrow> si_closed (ss_inner s) | None \<Rightarrow> w_inner_closed w),
       w_accepted := in_written x\<rparr>)"

definition writer_running :: "u64 \<Rightarrow> ('m, 'c) input_sys \<Rightarrow> bool" where
  "writer_running ptr x =
    (case fs_sessions (in_lib x) ptr of Some s \<Rightarrow> thread_started s | None \<Rightarrow> in_started x)"

definition put_writer :: "u64 \<Rightarrow> writer_sys \<Rightarrow> ('m, 'c) input_sys \<Rightarrow> ('m, 'c) input_sys" where
  "put_writer ptr w x =
     x\<lparr>in_writer := w,
       in_lib := (in_lib x)\<lparr>fs_sessions := (fs_sessions (in_lib x))(ptr :=
         map_option (map_runtime (map_queue (\<lambda>_. w_queue w))) (fs_sessions (in_lib x) ptr))\<rparr>\<rparr>"

definition written :: "u8 list \<Rightarrow> u32 \<Rightarrow> ('m, 'c) ffi_state \<Rightarrow> ('m, 'c) input_sys \<Rightarrow> ('m, 'c) input_sys" where
  "written bytes status lib x =
     x\<lparr>in_lib := lib, in_written := in_written x @ (if status = PTYX_STATUS_OK then [bytes] else [])\<rparr>"

text \<open>What \<open>close\<close> leaves of the session in the thread's hands: its shared queue, closed.\<close>

definition closed_queue :: "('m, 'c) Session \<Rightarrow> WriteQueueShared option" where
  "closed_queue s =
    (case lock runtime_poisoned_error (ss_runtime s) of
       Inr (Some rt) \<Rightarrow> Some (wh_shared (snd (WriteQueue_close (rt_writer rt))))
     | _ \<Rightarrow> shared_queue s)"

fun input_step :: "u64 \<Rightarrow> ('m, 'c) input_sys \<Rightarrow> ('m, 'c) input_event \<Rightarrow> ('m, 'c) input_sys" where
  "input_step ptr x (Call_write sys data n) =
     (case ptyx_write sys ptr data n (in_lib x) of
        None \<Rightarrow> x
      | Some (status, _, lib) \<Rightarrow> written (string_bytes (fy_memory sys) data n) status lib x)"
| "input_step ptr x (Call_write_owned sys buffer n) =
     (case ptyx_write_owned sys ptr buffer n (in_lib x) of
        None \<Rightarrow> x
      | Some (status, lib) \<Rightarrow>
          written (case fs_buffers (in_lib x) buffer of None \<Rightarrow> [] | Some bytes \<Rightarrow> take (unat n) bytes) status lib x)"
| "input_step ptr x (Call_alloc sys capacity out) = x\<lparr>in_lib := snd (snd (ptyx_buffer_alloc sys capacity out (in_lib x)))\<rparr>"
| "input_step ptr x (Call_free buffer) =
     (case ptyx_buffer_free buffer (in_lib x) of None \<Rightarrow> x | Some lib \<Rightarrow> x\<lparr>in_lib := lib\<rparr>)"
| "input_step ptr x (Fill buffer bytes) =
     (case fs_buffers (in_lib x) buffer of
        None \<Rightarrow> x
      | Some old \<Rightarrow>
          if length bytes = length old then x\<lparr>in_lib := (in_lib x)\<lparr>fs_buffers := (fs_buffers (in_lib x))(buffer \<mapsto> bytes)\<rparr>\<rparr> else x)"
| "input_step ptr x (Call_ack n) =
     (case ptyx_ack_output ptr n (in_lib x) of None \<Rightarrow> x | Some (_, _, lib) \<Rightarrow> x\<lparr>in_lib := lib\<rparr>)"
| "input_step ptr x (Call_resize sys sz) =
     (case ptyx_resize sys ptr sz (in_lib x) of None \<Rightarrow> x | Some (_, _, lib) \<Rightarrow> x\<lparr>in_lib := lib\<rparr>)"
| "input_step ptr x (Call_kill sys signal) =
     (case ptyx_kill sys ptr signal (in_lib x) of None \<Rightarrow> x | Some (_, lib) \<Rightarrow> x\<lparr>in_lib := lib\<rparr>)"
| "input_step ptr x Close_marks =
     x\<lparr>in_lib := (in_lib x)\<lparr>fs_sessions := (fs_sessions (in_lib x))(ptr :=
       map_option (\<lambda>s. s\<lparr>ss_inner := (ss_inner s)\<lparr>si_closed := True\<rparr>\<rparr>) (fs_sessions (in_lib x) ptr))\<rparr>\<rparr>"
| "input_step ptr x (Call_close sys) =
     (case (ptyx_close sys ptr (in_lib x), fs_sessions (in_lib x) ptr) of
        (Some lib, Some s) \<Rightarrow>
          x\<lparr>in_lib := lib, in_started := thread_started s,
            in_writer := (in_writer x)
              \<lparr>w_queue := (case closed_queue s of Some q \<Rightarrow> q | None \<Rightarrow> w_queue (in_writer x)), w_inner_closed := True\<rparr>\<rparr>
      | _ \<Rightarrow> x)"
| "input_step ptr x (Writer_works reply poll) =
     (if writer_running ptr x then put_writer ptr (writer_next (input_writer ptr x) (Writer_runs reply poll)) x else x)"
| "input_step ptr x Writer_wakes =
     (if writer_running ptr x then put_writer ptr (writer_next (input_writer ptr x) Spurious) x else x)"

definition input_run :: "u64 \<Rightarrow> ('m, 'c) input_sys \<Rightarrow> ('m, 'c) input_event list \<Rightarrow> ('m, 'c) input_sys" where
  "input_run ptr x events = foldl (input_step ptr) x events"

text \<open>After \<open>ptyx_spawn\<close> has returned a session; its first write starts the thread.\<close>

definition input_start :: "i32 option mutex \<Rightarrow> unit mutex \<Rightarrow> ('m, 'c) ffi_state \<Rightarrow> ('m, 'c) input_sys" where
  "input_start master stream lib =
     \<lparr>in_lib = lib, in_writer = writer_init 0 master stream, in_started = False, in_written = []\<rparr>"

text \<open>Slices and vectors have at most \<open>isize::MAX\<close> bytes; the allocator provides no more.\<close>

fun input_fits :: "('m, 'c) input_event \<Rightarrow> bool" where
  "input_fits (Call_write sys data n) = (fy_meanwhile sys = id \<and> unat n < 2 ^ 63)"
| "input_fits (Call_alloc sys capacity out) = (fy_can_reserve sys capacity \<longrightarrow> unat capacity < 2 ^ 63)"
| "input_fits _ = True"

definition buffers_fit :: "('m, 'c) ffi_state \<Rightarrow> bool" where
  "buffers_fit lib \<longleftrightarrow> (\<forall>buffer bytes. fs_buffers lib buffer = Some bytes \<longrightarrow> vec_fits bytes)"

definition input_valid :: "u64 \<Rightarrow> ('m, 'c) input_sys \<Rightarrow> bool" where
  "input_valid ptr x \<longleftrightarrow>
     ptr \<noteq> 0 \<and> buffers_fit (in_lib x) \<and> (concat (in_written x) \<noteq> [] \<longrightarrow> writer_running ptr x)"

section \<open>Sessions as the writer sees them\<close>

text \<open>What a call does to the queue it finds: nothing, or it enqueues its bytes.\<close>

definition enqueues :: "('m, 'c) Session \<Rightarrow> u8 list \<Rightarrow> bool \<Rightarrow> ('m, 'c) Session \<Rightarrow> bool" where
  "enqueues s bytes ok s' \<longleftrightarrow>
     si_closed (ss_inner s') = si_closed (ss_inner s) \<and> (thread_started s \<longrightarrow> thread_started s')
     \<and> (if ok \<and> bytes \<noteq> [] then
          thread_started s' \<and> (\<exists>q. shared_queue s = Some q \<and> is_ok (fst (enqueue_owned q bytes))
            \<and> shared_queue s' = Some (snd (enqueue_owned q bytes)))
        else shared_queue s' = shared_queue s)"

lemma enqueues_refl: "enqueues s [] b s" "enqueues s bytes False s"
  by (simp_all add: enqueues_def)

lemma enqueue_effects:
  "enqueue_owned q bytes = (r, q') \<Longrightarrow>
     if is_ok r \<and> bytes \<noteq> [] then is_ok (fst (enqueue_owned q bytes)) \<and> q' = snd (enqueue_owned q bytes) else q' = q"
  "enqueue_bytes can_reserve id q bytes = (r', q') \<Longrightarrow>
     if is_ok r' \<and> bytes \<noteq> [] then is_ok (fst (enqueue_owned q bytes)) \<and> q' = snd (enqueue_owned q bytes) else q' = q"
proof -
  show owned: "if is_ok r \<and> bytes \<noteq> [] then is_ok (fst (enqueue_owned q bytes)) \<and> q' = snd (enqueue_owned q bytes) else q' = q"
    if "enqueue_owned q bytes = (r, q')" for r q'
    using that by (auto elim: enqueue_owned_cases)
  show "if is_ok r' \<and> bytes \<noteq> [] then is_ok (fst (enqueue_owned q bytes)) \<and> q' = snd (enqueue_owned q bytes) else q' = q"
    if "enqueue_bytes can_reserve id q bytes = (r', q')"
    using that owned [OF surjective_pairing]
    by (cases "enqueue_owned q bytes") (auto simp: enqueue_bytes_atomic split: if_splits)
qed

lemma ensure_started_cases:
  assumes "ensure_started ts w = (r, w')"
  shows "wh_shared w' = wh_shared w \<and> (guarded (wh_handle w) \<noteq> None \<longrightarrow> guarded (wh_handle w') \<noteq> None)
    \<and> (is_ok r \<longrightarrow> guarded (wh_handle w') \<noteq> None)"
  using assms by (auto simp: ensure_started_def lock_def split: sum.splits option.splits if_splits)

definition handle_enqueues :: "WriteQueue_handle \<Rightarrow> u8 list \<Rightarrow> bool \<Rightarrow> WriteQueue_handle \<Rightarrow> bool" where
  "handle_enqueues w bytes ok w' \<longleftrightarrow>
     (guarded (wh_handle w) \<noteq> None \<longrightarrow> guarded (wh_handle w') \<noteq> None)
     \<and> (if ok \<and> bytes \<noteq> [] then
          guarded (wh_handle w') \<noteq> None \<and> is_ok (fst (enqueue_owned (wh_shared w) bytes))
          \<and> wh_shared w' = snd (enqueue_owned (wh_shared w) bytes)
        else wh_shared w' = wh_shared w)"

lemma handle_calls_enqueue:
  "WriteQueue_enqueue_owned ts w bytes = (r, w') \<Longrightarrow> handle_enqueues w bytes (is_ok r) w'"
  "WriteQueue_enqueue_bytes ts can_reserve id w bytes = (r', w') \<Longrightarrow> handle_enqueues w bytes (is_ok r') w'"
proof -
  obtain r0 w0 where start: "ensure_started ts w = (r0, w0)" by fastforce
  note started = ensure_started_cases [OF start]
  show "handle_enqueues w bytes (is_ok r) w'" if "WriteQueue_enqueue_owned ts w bytes = (r, w')"
    using that start started
    by (cases r0; cases "enqueue_owned (wh_shared w) bytes")
      (auto simp: WriteQueue_enqueue_owned_def handle_enqueues_def dest: enqueue_effects(1))
  show "handle_enqueues w bytes (is_ok r') w'" if "WriteQueue_enqueue_bytes ts can_reserve id w bytes = (r', w')"
    using that start started
    by (cases r0; cases "enqueue_bytes can_reserve id (wh_shared w) bytes")
      (auto simp: WriteQueue_enqueue_bytes_def handle_enqueues_def dest: enqueue_effects(2))
qed

lemma runtime_enqueues:
  assumes "guarded (ss_runtime s) = Some rt" "handle_enqueues (rt_writer rt) bytes ok w"
  shows "enqueues s bytes ok (set_runtime (Some (rt\<lparr>rt_writer := w\<rparr>)) s)"
  using assms by (auto simp: enqueues_def handle_enqueues_def shared_queue_def thread_started_def)

lemma session_write_enqueues:
  "session_write ts can_reserve id s bytes = (r, s') \<Longrightarrow> enqueues s bytes (is_ok r) s'"
  "session_write_owned ts s bytes = (r', s') \<Longrightarrow> enqueues s bytes (is_ok r') s'"
  by (auto simp: session_write_def session_write_owned_def lock_def enqueues_refl intro: runtime_enqueues
      dest: handle_calls_enqueue split: if_splits option.splits prod.splits)

lemma ack_enqueues: "ack_output s n = (r, s') \<Longrightarrow> enqueues s [] b s'"
  by (auto simp: ack_output_def enqueues_def shared_queue_def thread_started_def lock_def
      split: if_splits option.splits sum.splits)

lemma resize_enqueues: "session_resize sys s sz = (r, s') \<Longrightarrow> enqueues s [] b s'"
  by (auto simp: session_resize_def enqueues_def shared_queue_def thread_started_def lock_def
      split: if_splits option.splits sum.splits prod.splits)

lemma with_session_cases:
  assumes "with_session ptr old f lib = Some (status, out, lib')" "ptr \<noteq> 0"
  obtains s r s' where "fs_sessions lib ptr = Some s" "f s = (r, out, s')" "status = PTYX_STATUS_OK \<longleftrightarrow> is_ok r"
    "fs_sessions lib' = (fs_sessions lib)(ptr \<mapsto> s')" "fs_buffers lib' = fs_buffers lib"
  using assms
  by (auto simp: with_session_def session_from_ptr_def is_ok_iff elim!: ffi_return_cases
      split: option.splits sum.splits prod.splits)

section \<open>The writer's runs in the composed system\<close>

lemma writer_step_frame:
  "w_accepted (writer_step reply poll pc w) = w_accepted w"
  "w_inner_closed (writer_step reply poll pc w) = w_inner_closed w"
  "w_master (writer_step reply poll pc w) = w_master w"
  "w_stream (writer_step reply poll pc w) = w_stream w"
proof -
  define frame where "frame w = (w_accepted w, w_inner_closed w, w_master w, w_stream w)" for w :: writer_sys
  have rf: "frame (record_failure e w) = frame w" "frame (writer_post_error e w) = frame w" for e w
    by (simp_all add: frame_def record_failure_def writer_post_error_def)
  have upd: "frame (w\<lparr>w_pc := p\<rparr>) = frame w" "frame (w\<lparr>w_queue := q\<rparr>) = frame w" "frame (w\<lparr>w_sent := b\<rparr>) = frame w"
    "frame (w\<lparr>w_write_busy := y\<rparr>) = frame w" "frame (w\<lparr>w_ctx := c\<rparr>) = frame w" for w p q b y c
    by (simp_all add: frame_def)
  have leave: "frame (writer_leave r w) = frame w" for r w
    by (simp add: writer_leave_def Let_def rf upd split: sum.split)
  have "frame (writer_step reply poll pc w) = frame w"
    by (cases pc) (simp_all add: writer_start_def writer_enter_def Let_def rf upd leave
        split: sum.split option.split prod.split write_outcome.split)
  then show "w_accepted (writer_step reply poll pc w) = w_accepted w"
    "w_inner_closed (writer_step reply poll pc w) = w_inner_closed w"
    "w_master (writer_step reply poll pc w) = w_master w" "w_stream (writer_step reply poll pc w) = w_stream w"
    by (simp_all add: frame_def)
qed

text \<open>A client's call is the enqueueing of its bytes, if it succeeds.\<close>

lemma call_simulated:
  assumes "fs_sessions (in_lib x) ptr = Some s" "enqueues s bytes ok s'" "fs_sessions lib ptr = Some s'"
  defines "x' \<equiv> x\<lparr>in_lib := lib, in_written := in_written x @ (if ok then [bytes] else [])\<rparr>"
  shows "input_writer ptr x' =
      (if ok then writer_next (input_writer ptr x) (Client_enqueue bytes) else input_writer ptr x)"
    and "writer_running ptr x \<or> ok \<and> bytes \<noteq> [] \<Longrightarrow> writer_running ptr x'"
proof -
  show "writer_running ptr x \<or> ok \<and> bytes \<noteq> [] \<Longrightarrow> writer_running ptr x'"
    using assms by (auto simp: writer_running_def enqueues_def)
  show "input_writer ptr x' =
      (if ok then writer_next (input_writer ptr x) (Client_enqueue bytes) else input_writer ptr x)"
  proof (cases "ok \<and> bytes \<noteq> []")
    case True
    then obtain q where "shared_queue s = Some q" "is_ok (fst (enqueue_owned q bytes))"
      "shared_queue s' = Some (snd (enqueue_owned q bytes))" "si_closed (ss_inner s') = si_closed (ss_inner s)"
      using assms(2) by (auto simp: enqueues_def)
    then show ?thesis
      using assms(1,3) True
      by (cases "enqueue_owned q bytes") (simp add: input_writer_def x'_def Let_def)
  next
    case False
    then have "shared_queue s' = shared_queue s" "si_closed (ss_inner s') = si_closed (ss_inner s)"
      using assms(2) by (simp_all add: enqueues_def)
    then show ?thesis
      using assms(1,3) False
      by (auto simp: input_writer_def x'_def Let_def enqueue_owned_def)
  qed
qed

text \<open>A step of the thread is its step on what it sees.\<close>

lemma put_writer_simulated:
  assumes "w_accepted w = in_written x" "w_inner_closed w = w_inner_closed (input_writer ptr x)"
  shows "input_writer ptr (put_writer ptr w x) = w" "writer_running ptr (put_writer ptr w x) = writer_running ptr x"
proof -
  have queue: "shared_queue (map_runtime (map_queue (\<lambda>_. q)) s) = map_option (\<lambda>_. q) (shared_queue s)" for q s
    by (cases "guarded (ss_runtime s)") (simp_all add: shared_queue_def map_runtime_def map_queue_def)
  have started: "thread_started (map_runtime (map_queue (\<lambda>_. q)) s) = thread_started s"
    "si_closed (ss_inner (map_runtime f s)) = si_closed (ss_inner s)" for q s f
    by (simp_all add: thread_started_def map_runtime_def map_queue_def split: option.split)
  show "input_writer ptr (put_writer ptr w x) = w"
    using assms
    by (cases "fs_sessions (in_lib x) ptr")
      (auto simp: input_writer_def put_writer_def Let_def queue started option.map_sel split: option.split)
  show "writer_running ptr (put_writer ptr w x) = writer_running ptr x"
    by (cases "fs_sessions (in_lib x) ptr") (simp_all add: writer_running_def put_writer_def started)
qed

lemma write_cases:
  assumes "ptyx_write sys ptr data n lib = Some (status, u, lib')" "ptr \<noteq> 0" "fy_meanwhile sys = id"
  obtains s s' where "fs_sessions lib ptr = Some s" "fs_sessions lib' ptr = Some s'" "fs_buffers lib' = fs_buffers lib"
    "enqueues s (string_bytes (fy_memory sys) data n) (status = PTYX_STATUS_OK) s'"
proof -
  obtain s r s' where call: "fs_sessions lib ptr = Some s" "status = PTYX_STATUS_OK \<longleftrightarrow> is_ok r"
    "fs_sessions lib' = (fs_sessions lib)(ptr \<mapsto> s')" "fs_buffers lib' = fs_buffers lib"
    "(case bytes_from_ptr (fy_memory sys) data n of
       Inl error \<Rightarrow> (Inl error, (), s)
     | Inr bytes \<Rightarrow>
         (case session_write (thread_system.truncate sys) (fy_can_reserve sys) (fy_meanwhile sys) s bytes of
            (r, s) \<Rightarrow> (r, (), s))) = (r, u, s')"
    using assms(1,2) unfolding ptyx_write_def by (rule with_session_cases)
  have "enqueues s (string_bytes (fy_memory sys) data n) (is_ok r) s'"
  proof (cases "bytes_from_ptr (fy_memory sys) data n")
    case (Inl error)
    then show ?thesis
      using call(5) by (auto simp: enqueues_refl)
  next
    case (Inr bytes)
    then have "bytes = string_bytes (fy_memory sys) data n"
      by (auto simp: bytes_from_ptr_def string_bytes_def split: if_splits)
    then show ?thesis
      using call(5) Inr session_write_enqueues(1) assms(3) by (auto split: prod.splits)
  qed
  with call that show thesis
    by simp
qed

lemma write_owned_cases:
  assumes "ptyx_write_owned sys ptr buffer n lib = Some (status, lib')" "ptr \<noteq> 0" "buffers_fit lib"
  obtains s s' where "fs_sessions lib ptr = Some s" "fs_sessions lib' ptr = Some s'" "buffers_fit lib'"
    "enqueues s (case fs_buffers lib buffer of None \<Rightarrow> [] | Some bytes \<Rightarrow> take (unat n) bytes) (status = PTYX_STATUS_OK) s'"
proof -
  obtain s where s: "fs_sessions lib ptr = Some s"
    using assms(1,2) by (auto simp: ptyx_write_owned_def session_from_ptr_def split: option.splits)
  obtain r buffers where taken: "take_owned_buffer buffer n (fs_buffers lib) = Some (r, buffers)"
    using assms(1,2) s by (auto simp: ptyx_write_owned_def session_from_ptr_def split: option.splits)
  show thesis
  proof (cases r)
    case (Inl error)
    then have "ffi_return (Inl error) (lib\<lparr>fs_buffers := buffers\<rparr>) = (status, lib')" "buffers = fs_buffers lib"
      using assms(1,2) s taken take_owned_buffer_err by (auto simp: ptyx_write_owned_def session_from_ptr_def)
    then show thesis
      using that [OF s] assms(3) s by (auto simp: enqueues_refl buffers_fit_def elim!: ffi_return_cases)
  next
    case (Inr owned)
    then obtain bytes where bytes: "fs_buffers lib buffer = Some bytes" "vec_fits bytes"
      using taken assms(3) by (auto simp: take_owned_buffer_def buffers_fit_def split: if_splits option.splits)
    note owned = take_owned_buffer_ok [OF taken [unfolded Inr] bytes]
    obtain r' s' where "write": "session_write_owned (thread_system.truncate sys) s (take (unat n) bytes) = (r', s')"
      by fastforce
    note queued = session_write_enqueues(2) [OF this]
    have "fs_sessions lib' = (fs_sessions lib)(ptr \<mapsto> s')" "status = PTYX_STATUS_OK \<longleftrightarrow> is_ok r'"
      using assms(1,2) s taken Inr owned "write"
      by (auto simp: ptyx_write_owned_def session_from_ptr_def take_owned_buffer_bytes_def elim!: ffi_return_cases
          split: sum.splits)
    moreover have "buffers_fit lib'"
    proof (cases r')
      case (Inl refused)
      then obtain e where "refused = (e, take (unat n) bytes)"
        using session_write_owned_queue [OF "write"] by auto
      then show ?thesis
        using assms s taken Inr owned "write" Inl vec_fits_take [OF bytes(2)]
        by (auto simp: ptyx_write_owned_def session_from_ptr_def take_owned_buffer_bytes_def return_owned_buffer_def
            buffers_fit_def elim!: ffi_return_cases split: if_splits)
    qed (use assms s taken Inr owned "write" in \<open>auto simp: ptyx_write_owned_def session_from_ptr_def
        take_owned_buffer_bytes_def buffers_fit_def elim!: ffi_return_cases split: if_splits\<close>)
    ultimately show thesis
      using that [OF s] queued bytes by simp
  qed
qed

lemma small_calls_cases:
  assumes "ptr \<noteq> 0"
    and "ptyx_ack_output ptr n lib = Some (status, u, lib') \<or> ptyx_resize sys ptr sz lib = Some (status, u, lib')"
  obtains s s' where "fs_sessions lib ptr = Some s" "fs_sessions lib' ptr = Some s'" "fs_buffers lib' = fs_buffers lib"
    "enqueues s [] False s'"
  using assms(2)
proof
  assume "ptyx_ack_output ptr n lib = Some (status, u, lib')"
  from this [unfolded ptyx_ack_output_def] assms(1) show thesis
    by (rule with_session_cases) (auto intro: that dest: ack_enqueues [where b = False] split: prod.splits)
next
  assume "ptyx_resize sys ptr sz lib = Some (status, u, lib')"
  from this [unfolded ptyx_resize_def] assms(1) show thesis
    by (rule with_session_cases)
      (auto intro: that enqueues_refl dest: resize_enqueues [where b = False] split: sum.splits prod.splits)
qed

section \<open>The simulation\<close>

text \<open>\<open>simulated x x'\<close>: what happened is a run of the writer thread among its clients.\<close>

definition simulated :: "u64 \<Rightarrow> ('m, 'c) input_sys \<Rightarrow> ('m, 'c) input_sys \<Rightarrow> bool" where
  "simulated ptr x x' \<longleftrightarrow>
     input_valid ptr x' \<and>
     (\<exists>es. list_all event_fits es \<and> input_writer ptr x' = foldl writer_next (input_writer ptr x) es)"

lemma simulated_call:
  assumes "input_valid ptr x" "fs_sessions (in_lib x) ptr = Some s" "enqueues s bytes ok s'"
    "fs_sessions lib ptr = Some s'" "buffers_fit lib" "vec_fits bytes"
  shows "simulated ptr x (x\<lparr>in_lib := lib, in_written := in_written x @ (if ok then [bytes] else [])\<rparr>)"
proof -
  note call = call_simulated [OF assms(2-4)]
  have "input_valid ptr (x\<lparr>in_lib := lib, in_written := in_written x @ (if ok then [bytes] else [])\<rparr>)"
    using assms(1,5) call(2) by (auto simp: input_valid_def split: if_splits)
  then show ?thesis
    using call(1) assms(6)
    by (cases ok) (auto simp: simulated_def intro: exI [of _ "[]"] exI [of _ "[Client_enqueue bytes]"])
qed

lemma simulated_lib:
  assumes "input_valid ptr x" "fs_sessions lib = fs_sessions (in_lib x)" "buffers_fit lib"
  shows "simulated ptr x (x\<lparr>in_lib := lib\<rparr>)"
proof -
  have "input_writer ptr (x\<lparr>in_lib := lib\<rparr>) = input_writer ptr x"
    "writer_running ptr (x\<lparr>in_lib := lib\<rparr>) = writer_running ptr x"
    using assms(2) by (simp_all add: input_writer_def writer_running_def Let_def cong: option.case_cong)
  then show ?thesis
    using assms(1,3) by (auto simp: simulated_def input_valid_def intro: exI [of _ "[]"])
qed

lemma simulated_refl: "input_valid ptr x \<Longrightarrow> simulated ptr x x"
  by (auto simp: simulated_def intro: exI [of _ "[]"])

lemma simulated_thread:
  assumes "input_valid ptr x" "e = Spurious \<or> (\<exists>reply poll. e = Writer_runs reply poll)"
  shows "simulated ptr x (put_writer ptr (writer_next (input_writer ptr x) e) x)"
proof -
  let ?w = "writer_next (input_writer ptr x) e"
  have "w_accepted ?w = in_written x" "w_inner_closed ?w = w_inner_closed (input_writer ptr x)"
    using assms(2) by (auto simp: writer_step_frame) (simp_all add: input_writer_def Let_def)
  note put = put_writer_simulated [OF this]
  have "input_valid ptr (put_writer ptr ?w x)"
    using assms(1) put(2) by (simp add: input_valid_def buffers_fit_def) (simp add: put_writer_def)
  then show ?thesis
    using put(1) assms(2) by (auto simp: simulated_def intro!: exI [of _ "[e]"])
qed

lemma simulated_close:
  assumes "input_valid ptr x" "fs_sessions (in_lib x) ptr = Some s" "ptyx_close sys ptr (in_lib x) = Some lib"
  shows "simulated ptr x (x\<lparr>in_lib := lib, in_started := thread_started s,
      in_writer := (in_writer x)
        \<lparr>w_queue := (case closed_queue s of Some q \<Rightarrow> q | None \<Rightarrow> w_queue (in_writer x)), w_inner_closed := True\<rparr>\<rparr>)"
    (is "simulated ptr x ?x")
proof -
  have lib: "fs_sessions lib ptr = None" "fs_buffers lib = fs_buffers (in_lib x)"
    using assms by (auto simp: ptyx_close_def free_session_def input_valid_def)
  have valid: "input_valid ptr ?x"
    using assms(1,2) lib by (auto simp: input_valid_def buffers_fit_def writer_running_def)
  have "input_writer ptr ?x = foldl writer_next (input_writer ptr x)
      (if closed_queue s = shared_queue s then [Session_close] else [Session_close, Queue_close])"
    using assms(2) lib
    by (auto simp: input_writer_def Let_def closed_queue_def shared_queue_def lock_def WriteQueue_close_def
        split: option.splits prod.splits)
  then show ?thesis
    unfolding simulated_def using valid by (intro conjI exI) auto
qed

lemma simulated_marks:
  assumes "input_valid ptr x"
  shows "simulated ptr x (input_step ptr x Close_marks)"
proof (cases "fs_sessions (in_lib x) ptr")
  case None
  then have "(fs_sessions (in_lib x))(ptr := None) = fs_sessions (in_lib x)"
    by (simp add: fun_upd_idem)
  then show ?thesis
    using None assms simulated_refl by simp
next
  case (Some s)
  have "input_writer ptr (input_step ptr x Close_marks) = writer_next (input_writer ptr x) Session_close"
    using Some by (simp add: input_writer_def Let_def shared_queue_def)
  moreover have "input_valid ptr (input_step ptr x Close_marks)"
    using Some assms by (simp add: input_valid_def buffers_fit_def writer_running_def thread_started_def)
  ultimately show ?thesis
    by (auto simp: simulated_def simp del: input_step.simps intro!: exI [of _ "[Session_close]"])
qed

lemma small_call_simulated:
  assumes "input_valid ptr x"
    and "ptyx_ack_output ptr n (in_lib x) = Some (status, u, lib) \<or> ptyx_resize sys ptr sz (in_lib x) = Some (status, u, lib)"
  shows "simulated ptr x (x\<lparr>in_lib := lib\<rparr>)"
proof -
  have valid: "ptr \<noteq> 0" "buffers_fit (in_lib x)"
    using assms(1) by (simp_all add: input_valid_def)
  from valid(1) assms(2) obtain s s' where "fs_sessions (in_lib x) ptr = Some s" "fs_sessions lib ptr = Some s'"
    "fs_buffers lib = fs_buffers (in_lib x)" "enqueues s [] False s'"
    by (rule small_calls_cases)
  then show ?thesis
    using simulated_call [OF assms(1), of s "[]" False s' lib] valid(2) by (simp add: buffers_fit_def)
qed

lemma input_step_simulated:
  assumes "input_valid ptr x" "input_fits e"
  shows "simulated ptr x (input_step ptr x e)"
proof (cases e)
  case (Call_write sys data n)
  show ?thesis
  proof (cases "ptyx_write sys ptr data n (in_lib x)")
    case None
    then show ?thesis using Call_write simulated_refl [OF assms(1)] by simp
  next
    case (Some result)
    then obtain status u lib where call: "ptyx_write sys ptr data n (in_lib x) = Some (status, u, lib)"
      by (cases result) auto
    have fits: "vec_fits (string_bytes (fy_memory sys) data n)" "fy_meanwhile sys = id"
      using assms(2) Call_write by (simp_all add: vec_fits_def string_bytes_def)
    have nonnull: "ptr \<noteq> 0" and fit: "buffers_fit (in_lib x)"
      using assms(1) by (simp_all add: input_valid_def)
    obtain s s' where "fs_sessions (in_lib x) ptr = Some s" "fs_sessions lib ptr = Some s'" "fs_buffers lib = fs_buffers (in_lib x)"
      "enqueues s (string_bytes (fy_memory sys) data n) (status = PTYX_STATUS_OK) s'"
      using write_cases [OF call nonnull fits(2)] .
    then show ?thesis
      using simulated_call [OF assms(1) _ _ _ _ fits(1)] Call_write call fit
      by (simp add: written_def buffers_fit_def)
  qed
next
  case (Call_write_owned sys buffer n)
  let ?bytes = "case fs_buffers (in_lib x) buffer of None \<Rightarrow> [] | Some bytes \<Rightarrow> take (unat n) bytes"
  show ?thesis
  proof (cases "ptyx_write_owned sys ptr buffer n (in_lib x)")
    case None
    then show ?thesis using Call_write_owned simulated_refl [OF assms(1)] by simp
  next
    case (Some result)
    then obtain status lib where call: "ptyx_write_owned sys ptr buffer n (in_lib x) = Some (status, lib)"
      by (cases result) auto
    have nonnull: "ptr \<noteq> 0" and fit: "buffers_fit (in_lib x)"
      using assms(1) by (simp_all add: input_valid_def)
    then have fits: "vec_fits ?bytes"
      by (auto simp: buffers_fit_def vec_fits_take split: option.split)
    obtain s s' where "fs_sessions (in_lib x) ptr = Some s" "fs_sessions lib ptr = Some s'" "buffers_fit lib"
      "enqueues s ?bytes (status = PTYX_STATUS_OK) s'"
      using write_owned_cases [OF call nonnull fit] .
    then show ?thesis
      using simulated_call [OF assms(1) _ _ _ _ fits] Call_write_owned call
      by (simp add: written_def)
  qed
next
  case (Call_alloc sys capacity out)
  show ?thesis
    using assms Call_alloc
    by (auto simp: ptyx_buffer_alloc_def alloc_owned_buffer_def owned_alloc_def input_valid_def buffers_fit_def vec_fits_def
        intro!: simulated_lib split: option.split prod.splits if_splits elim!: ffi_return_cases)
next
  case (Call_free buffer)
  then show ?thesis
    using assms(1)
    by (auto simp: ptyx_buffer_free_def free_owned_buffer_def input_valid_def buffers_fit_def
        intro!: simulated_lib simulated_refl split: option.split if_splits)
next
  case (Fill buffer bytes)
  then show ?thesis
    using assms(1)
    by (auto simp: input_valid_def buffers_fit_def vec_fits_def intro!: simulated_lib simulated_refl split: option.split)
next
  case (Call_kill sys signal)
  then show ?thesis
    using assms(1)
    by (auto simp: ptyx_kill_def input_valid_def buffers_fit_def
        intro!: simulated_lib simulated_refl split: option.splits prod.splits sum.splits)
next
  case (Call_ack n)
  then show ?thesis
    using small_call_simulated [OF assms(1) disjI1] simulated_refl [OF assms(1)] by (auto split: option.split)
next
  case (Call_resize sys sz)
  then show ?thesis
    using small_call_simulated [OF assms(1) disjI2] simulated_refl [OF assms(1)] by (auto split: option.split)
next
  case (Call_close sys)
  then show ?thesis
    using simulated_close [OF assms(1)] simulated_refl [OF assms(1)] by (auto split: option.split)
next
  case (Writer_works reply poll)
  then show ?thesis
    using simulated_thread [OF assms(1), of "Writer_runs reply poll"] simulated_refl [OF assms(1)] by simp
next
  case Writer_wakes
  then show ?thesis
    using simulated_thread [OF assms(1), of Spurious] simulated_refl [OF assms(1)] by simp
next
  case Close_marks
  show ?thesis
    unfolding Close_marks by (rule simulated_marks) fact
qed

interpretation input_simulation:
  forward_simulation "input_step ptr" writer_next "input_writer ptr" "input_valid ptr" input_fits event_fits
  for ptr
proof
  fix x :: "('a, 'b) input_sys" and e :: "('a, 'b) input_event"
  assume "input_valid ptr x" "input_fits e"
  then have "simulated ptr x (input_step ptr x e)"
    by (rule input_step_simulated)
  then show "input_valid ptr (input_step ptr x e)"
    and "\<exists>es. list_all event_fits es \<and>
      input_writer ptr (input_step ptr x e) = foldl writer_next (input_writer ptr x) es"
    by (simp_all add: simulated_def)
qed

section \<open>From the client to the PTY\<close>

lemma spawned_input:
  assumes "ptyx_spawn sys options out lib0 = Some (PTYX_STATUS_OK, out', lib)" "fy_fresh sys \<noteq> 0" "buffers_fit lib0"
  obtains max_bytes where "unat max_bytes < 2 ^ 63" "input_valid (fy_fresh sys) (input_start master stream lib)"
    "input_writer (fy_fresh sys) (input_start master stream lib) = writer_init max_bytes master stream"
proof -
  obtain opts s acts where spawned: "session_options_from_ptr (fy_memory sys) options = Inr opts"
    "runtime_spawn (session_system.truncate sys) opts = Some (Inr s, acts)"
    "fs_sessions lib = (fs_sessions lib0)(fy_fresh sys \<mapsto> s)" "fs_buffers lib = fs_buffers lib0"
    using spawn_success [OF assms(1)] .
  obtain rt where "guarded (ss_runtime s) = Some rt"
    "rt_writer rt = WriteQueue_new (rc_write_queue_max_bytes (so_runtime opts))"
    using runtime_spawn_queue [OF spawned(2)] by blast
  then have "input_writer (fy_fresh sys) (input_start master stream lib) =
      writer_init (rc_write_queue_max_bytes (so_runtime opts)) master stream"
    using runtime_spawn_ok [OF spawned(2)] spawned(3)
    by (simp add: input_writer_def input_start_def Let_def shared_queue_def WriteQueue_new_def writer_init_def)
  moreover have "input_valid (fy_fresh sys) (input_start master stream lib)"
    using assms(2,3) spawned(4) by (simp add: input_valid_def input_start_def buffers_fit_def)
  ultimately show thesis
    using that parsed_write_queue_limit [OF spawned(1)] by blast
qed

lemma input_run_writer:
  fixes master :: "i32 option mutex" and stream :: "unit mutex"
  assumes "ptyx_spawn sys options out lib0 = Some (PTYX_STATUS_OK, out', lib)" "fy_fresh sys \<noteq> 0" "buffers_fit lib0"
    and "list_all input_fits events"
  defines "x \<equiv> input_run (fy_fresh sys) (input_start master stream lib) events"
  shows "writer_inv (input_writer (fy_fresh sys) x) \<and> input_valid (fy_fresh sys) x
    \<and> w_master (input_writer (fy_fresh sys) x) = master \<and> w_stream (input_writer (fy_fresh sys) x) = stream"
proof -
  obtain max_bytes where start: "unat max_bytes < 2 ^ 63" "input_valid (fy_fresh sys) (input_start master stream lib)"
    "input_writer (fy_fresh sys) (input_start master stream lib) = writer_init max_bytes master stream"
    using spawned_input [OF assms(1-3)] by blast
  obtain es where es: "list_all event_fits es" "input_valid (fy_fresh sys) x"
    "input_writer (fy_fresh sys) x = writer_run (writer_init max_bytes master stream) es"
    using input_simulation.run_simulated [OF start(2) assms(4)] start(3)
    by (auto simp: x_def input_run_def writer_run_def)
  have frame: "w_master (writer_run w es) = w_master w \<and> w_stream (writer_run w es) = w_stream w" for w es
  proof (induction es arbitrary: w)
    case (Cons e es)
    have "w_master (writer_next w e) = w_master w \<and> w_stream (writer_next w e) = w_stream w"
      by (cases e) (simp_all add: writer_step_frame split: prod.split)
    then show ?case
      using Cons.IH [of "writer_next w e"] by (simp add: writer_run_def)
  qed (simp add: writer_run_def)
  show ?thesis
    using writer_run_inv [OF writer_inv_init [OF start(1)] es(1)] frame [of _ es] es(2,3)
    by (simp add: writer_init_def)
qed

lemma works_run:
  assumes "writer_running ptr x"
  shows "input_writer ptr (input_run ptr x (map (\<lambda>(reply, poll). Writer_works reply poll) steps)) =
    writer_run (input_writer ptr x) (map (\<lambda>(reply, poll). Writer_runs reply poll) steps)"
  using assms
proof (induction steps arbitrary: x)
  case (Cons step steps)
  obtain reply poll where step: "step = (reply, poll)" by fastforce
  let ?w = "writer_next (input_writer ptr x) (Writer_runs reply poll)"
  have "w_accepted ?w = in_written x" "w_inner_closed ?w = w_inner_closed (input_writer ptr x)"
    by (simp_all add: writer_step_frame) (simp add: input_writer_def Let_def)
  note put = put_writer_simulated [OF this]
  show ?case
    using Cons.IH [of "put_writer ptr ?w x"] Cons.prems put by (simp add: step input_run_def writer_run_def)
qed (simp add: input_run_def writer_run_def)

lemma accepted_written [simp]: "w_accepted (input_writer ptr x) = in_written x"
  by (simp add: input_writer_def Let_def)

text \<open>
  C1. The PTY receives what the calls accepted. Take a session that \<open>ptyx_spawn\<close> returned, and any
  further calls on it and on buffers, with the writer thread working in between and the operating
  system answering in any way. At every moment the bytes the PTY took are a prefix of the bytes of
  the calls that returned \<open>PTYX_STATUS_OK\<close>, in their order; nothing of a refused call arrives. While
  the queue is neither closed nor failed, what the PTY took, what the thread has in hand and what is
  queued are together exactly those bytes, and when the thread sleeps the PTY has taken them all.
\<close>

theorem input_arrives:
  fixes master :: "i32 option mutex" and stream :: "unit mutex"
  assumes "ptyx_spawn sys options out lib0 = Some (PTYX_STATUS_OK, out', lib)" "fy_fresh sys \<noteq> 0" "buffers_fit lib0"
    and "list_all input_fits events"
  defines "x \<equiv> input_run (fy_fresh sys) (input_start master stream lib) events"
  defines "w \<equiv> input_writer (fy_fresh sys) x"
  shows "prefix (w_sent w) (concat (in_written x))
    \<and> (\<not> queue_cut (w_queue w) \<longrightarrow>
        w_sent w @ in_hand (w_pc w) @ concat (queue (wq (w_queue w))) = concat (in_written x))
    \<and> (w_pc w = At_blocked \<and> wq_ready (w_queue w) \<noteq> 0 \<longrightarrow> w_sent w = concat (in_written x))"
proof -
  have inv: "writer_inv w"
    using input_run_writer [OF assms(1-4)] by (simp add: w_def x_def)
  have written: "w_accepted w = in_written x"
    by (simp add: w_def)
  show ?thesis
    using inv append_prefixD [OF writer_inv_prefix [OF inv]]
    by (auto simp: writer_inv_def wq_no_lost_wakeup_def queue_cut_def written)
qed

text \<open>
  C9. Accepted input gets through. Take any such run after which the session is open and nothing has
  failed. From then on the thread needs at most \<open>writer_cost\<close> of its steps, if the operating system takes
  at least a byte each time, until the PTY has taken exactly the bytes of all calls that returned
  \<open>PTYX_STATUS_OK\<close>: a first write has started the thread, and no wakeup is missed.
\<close>

theorem input_gets_through:
  fixes master :: "i32 option mutex" and stream :: "unit mutex"
  assumes "ptyx_spawn sys options out lib0 = Some (PTYX_STATUS_OK, out', lib)" "fy_fresh sys \<noteq> 0" "buffers_fit lib0"
    and "list_all input_fits events"
  defines "x \<equiv> input_run (fy_fresh sys) (input_start master stream lib) events"
  defines "w \<equiv> input_writer (fy_fresh sys) x"
  assumes "\<not> queue_cut (w_queue w)" "\<not> w_inner_closed w" "\<not> poisoned master" "\<not> poisoned stream"
    and "list_all productive (map (\<lambda>(reply, poll). Writer_runs reply poll) steps)" "writer_cost w \<le> length steps"
  shows "w_sent (input_writer (fy_fresh sys)
      (input_run (fy_fresh sys) x (map (\<lambda>(reply, poll). Writer_works reply poll) steps))) = concat (in_written x)"
proof -
  have w: "writer_inv w" "input_valid (fy_fresh sys) x" "w_master w = master" "w_stream w = stream" "w_accepted w = in_written x"
    using input_run_writer [OF assms(1-4)] by (simp_all add: w_def x_def)
  show ?thesis
  proof (cases "writer_running (fy_fresh sys) x")
    case True
    have "writer_calm w"
      using w assms(7-10) by (simp add: writer_calm_def)
    from calm_run [OF this assms(11)] assms(12) show ?thesis
      unfolding works_run [OF True] w_def [symmetric]
      using w(5) by (auto simp: writer_calm_def writer_inv_def wq_no_lost_wakeup_def)
  next
    case False
    then have "input_run (fy_fresh sys) x (map (\<lambda>(reply, poll). Writer_works reply poll) steps) = x"
      by (induction steps) (auto simp: input_run_def)
    moreover have none: "concat (in_written x) = []"
      using False w(2) by (auto simp: input_valid_def)
    then have "w_sent w = []"
      using writer_inv_prefix [OF w(1)] unfolding w(5) none by simp
    ultimately show ?thesis
      unfolding none by (simp add: w_def)
  qed
qed

section \<open>An example\<close>

lemma enqueue_new:
  assumes "unat max_bytes < 2 ^ 63" "vec_fits bytes" "bytes \<noteq> []" "length bytes \<le> unat max_bytes"
  defines "q \<equiv> WriteQueueShared_new max_bytes"
  shows "enqueue_owned q bytes =
    (Inr (), notify_one (wq_store (wq q\<lparr>queued_bytes := 0 + vec_len bytes, queue := [bytes]\<rparr>) q))"
proof -
  have "is_ok (fst (enqueue_owned q bytes))"
    using enqueue_owned_accepts [OF wq_inv_new [OF assms(1)] _ assms(2,3)] assms(4)
    by (simp add: q_def wq_accepting_def WriteQueueShared_new_def new_mutex_def)
  then show ?thesis
    by (cases "enqueue_owned q bytes")
      (auto elim!: enqueue_owned_cases simp: q_def assms(3) WriteQueueShared_new_def new_mutex_def)
qed

text \<open>The first write of a new session, of the two bytes at address 256.\<close>

lemma demo_input:
  assumes "ptyx_spawn demo_ffi (Some demo_abi_options) (Some 7) demo_ffi_state = Some (PTYX_STATUS_OK, out, lib)"
  defines "x \<equiv> input_run 8192 (input_start (new_mutex (Some 3)) (new_mutex ()) lib) [Call_write demo_ffi 256 2]"
  shows "in_written x = [[97, 97]] \<and> \<not> queue_cut (w_queue (input_writer 8192 x))
    \<and> \<not> w_inner_closed (input_writer 8192 x) \<and> writer_cost (input_writer 8192 x) = 9"
proof -
  let ?x0 = "input_start (new_mutex (Some 3)) (new_mutex ()) lib"
  obtain opts s acts where spawned: "session_options_from_ptr (fy_memory demo_ffi) (Some demo_abi_options) = Inr opts"
    "runtime_spawn (demo_system (\<lambda>_. Inr ())) opts = Some (Inr s, acts)" "fs_sessions lib 8192 = Some s"
    using spawn_success [OF assms(1)] by (metis demo_ffi_simps(1,2) fun_upd_same)
  let ?q = "WriteQueueShared_new (rc_write_queue_max_bytes (so_runtime opts))"
  obtain rt where rt: "guarded (ss_runtime s) = Some rt"
    "rt_writer rt = WriteQueue_new (rc_write_queue_max_bytes (so_runtime opts))"
    using runtime_spawn_queue [OF spawned(2)] by blast
  have room: "65536 \<le> unat (rc_write_queue_max_bytes (so_runtime opts))"
    using spawned(1) write_queue_limit(1)
    by (auto simp: session_options_from_ptr_def session_options_from_abi_def and_then_def split: if_splits sum.splits)
  have enqueued: "enqueue_owned ?q [97, 97] = (Inr (), notify_one (wq_store
      (wq ?q\<lparr>queued_bytes := 0 + vec_len [97, 97 :: u8], queue := [[97, 97]]\<rparr>) ?q))"
    using room by (intro enqueue_new [OF parsed_write_queue_limit [OF spawned(1)]]) (simp_all add: vec_fits_def)
  have "write": "string_bytes (fy_memory demo_ffi) 256 2 = [97, 97]" "bytes_from_ptr (fy_memory demo_ffi) 256 2 = Inr [97, 97]"
    by (simp_all add: bytes_from_ptr_def string_bytes_def upt_rec)
  obtain s' where s': "session_write (thread_system.truncate (demo_system (\<lambda>_. Inr ()))) (\<lambda>_. True) id s [97, 97] = (Inr (), s')"
    using runtime_spawn_ok [OF spawned(2)] rt enqueued
    by (auto simp: session_write_def session_ok_def WriteQueue_enqueue_bytes_def ensure_started_def WriteQueue_new_def
        new_mutex_def lock_def enqueue_bytes_atomic demo_system_def split: prod.split)
  have demo: "fy_can_reserve demo_ffi = (\<lambda>_. True)" "fy_meanwhile demo_ffi = id"
    by (simp_all add: demo_ffi_def id_def session_system.defs thread_system.defs demo_system_def)
  obtain lib' where call: "ptyx_write demo_ffi 8192 256 2 lib = Some (PTYX_STATUS_OK, (), lib')"
      "fs_sessions lib' 8192 = Some s'"
    using spawned(3) "write"(2) s'
    by (auto simp: ptyx_write_def with_session_def session_from_ptr_def demo ffi_return_def)
  then have x: "x = ?x0\<lparr>in_lib := lib', in_written := in_written ?x0 @ (if True then [[97, 97]] else [])\<rparr>"
    using "write"(1) by (simp add: x_def input_run_def written_def input_start_def)
  have "input_writer 8192 x = writer_next (input_writer 8192 ?x0) (Client_enqueue [97, 97])"
    using call_simulated(1) [of ?x0 8192 s "[97, 97]" True s' lib'] session_write_enqueues(1) [OF s'] spawned(3) call(2)
    unfolding x by (simp add: input_start_def)
  moreover have "input_writer 8192 ?x0 = writer_init (rc_write_queue_max_bytes (so_runtime opts)) (new_mutex (Some 3)) (new_mutex ())"
    using rt spawned(3) runtime_spawn_ok [OF spawned(2)]
    by (simp add: input_writer_def input_start_def Let_def shared_queue_def WriteQueue_new_def writer_init_def)
  ultimately show ?thesis
    by (simp add: x input_start_def enqueued writer_init_def queue_cut_def writer_cost_def)
      (simp add: WriteQueueShared_new_def new_mutex_def)
qed

lemma demo_buffers: "buffers_fit demo_ffi_state" "fy_fresh demo_ffi \<noteq> 0" "fy_meanwhile demo_ffi = id"
  by (simp_all add: buffers_fit_def demo_ffi_state_def vec_fits_def demo_ffi_def id_def session_system.defs
      thread_system.defs demo_system_def)

theorem input_arrives_witness:
  "\<exists>lib x. x = input_run 8192 (input_start (new_mutex (Some 3)) (new_mutex ()) lib) [Call_write demo_ffi 256 2]
     \<and> concat (in_written x) = [97, 97] \<and> prefix (w_sent (input_writer 8192 x)) [97, 97]"
proof -
  obtain out lib where
    spawned: "ptyx_spawn demo_ffi (Some demo_abi_options) (Some 7) demo_ffi_state = Some (PTYX_STATUS_OK, out, lib)"
    using demo_spawn_call by blast
  have "list_all input_fits [Call_write demo_ffi 256 2]"
    by (simp add: demo_buffers(3))
  from input_arrives [OF spawned demo_buffers(2,1) this, of "new_mutex (Some 3)" "new_mutex ()", THEN conjunct1]
    demo_input [OF spawned] show ?thesis
    by (intro exI [of _ lib]) auto
qed

text \<open>Nine steps of the thread write the two bytes one at a time.\<close>

theorem input_gets_through_witness:
  "\<exists>lib. w_sent (input_writer 8192 (input_run 8192
       (input_run 8192 (input_start (new_mutex (Some 3)) (new_mutex ()) lib) [Call_write demo_ffi 256 2])
       (map (\<lambda>(reply, poll). Writer_works reply poll) (replicate 9 (WCount 1, PTimeout))))) = [97, 97]"
proof -
  obtain out lib where
    spawned: "ptyx_spawn demo_ffi (Some demo_abi_options) (Some 7) demo_ffi_state = Some (PTYX_STATUS_OK, out, lib)"
    using demo_spawn_call by blast
  have sound: "\<not> poisoned (new_mutex a)" for a :: 'a
    by (simp add: new_mutex_def)
  from input_gets_through [OF spawned demo_buffers(2,1), of "[Call_write demo_ffi 256 2]" "new_mutex (Some 3)" "new_mutex ()"
      "replicate 9 (WCount 1, PTimeout)"] demo_input [OF spawned] show ?thesis
    by (intro exI [of _ lib]) (simp add: demo_buffers(3) sound list_all_iff)
qed

end
