(* ===== verification/Delivery.thy ===== *)
theory Delivery
  imports Reader Input
begin

text \<open>
  Output from the PTY to the client: the exported functions of \<open>lib.rs\<close>, the session's runtime and the
  reader thread put together. The counters of \<open>OutputAccounts\<close> are followed through whole runs of the
  thread, from the state \<open>start_runtime\<close> gives it and with the limits \<open>ptyx_spawn\<close> takes from its options.
\<close>

section \<open>Accounts over a run of the reader\<close>

definition keeps_account :: "OutputConfig \<Rightarrow> (nat \<Rightarrow> out_sys \<Rightarrow> bool)
    \<Rightarrow> OutputBuffer \<Rightarrow> out_sys \<Rightarrow> u8 list \<Rightarrow> OutputBuffer \<Rightarrow> out_sys \<Rightarrow> bool" where
  "keeps_account cfg I b s got b' s' \<longleftrightarrow>
     ob_config b' = ob_config b \<and> (ob_config b = cfg \<and> I 0 s \<longrightarrow> I 0 s')"

context output_account
begin

lemma flushes_keep: "flush b s = Some (r, b', s') \<Longrightarrow> flushes b s \<Longrightarrow> ob_config b = cfg \<Longrightarrow> I 0 s \<Longrightarrow> I 0 s'"
  using flush_keeps [of b s r b' s'] by (auto simp: flushes_def batch_ok_def)

lemma appends_keep:
  assumes "append_output b bs s = Some (r, b', s')" "reads_into b bs s" "ob_config b = cfg" "I 0 s"
  shows "I 0 s'"
  by (rule append_keeps [OF assms(1)])
    (use assms append_read_fits [of b s bs] in \<open>auto simp: reads_into_def limits_ok_def\<close>)

lemma account_rule: "reader_rule (keeps_account cfg I)"
proof
  fix b s b' s' got
  show "keeps_account cfg I b (interfere (ob_config b) s) got b' s' \<Longrightarrow> keeps_account cfg I b s got b' s'"
    using interfere_keeps by (auto simp: keeps_account_def)
  show "keeps_account cfg I b s got b' s' \<Longrightarrow> keeps_account cfg I b s got b' (output_post_error b' e s')" for e
    using post_error_keeps by (auto simp: keeps_account_def)
  show "keeps_account cfg I b s got b' s' \<Longrightarrow> ob_config b' = ob_config b"
    by (simp add: keeps_account_def)
  show "flush b s = Some (r, b', s') \<Longrightarrow> flushes b s \<Longrightarrow> keeps_account cfg I b s [] b' s'" for r
    using flushes_keep flushes_emits(2) by (auto simp: keeps_account_def)
  show "flush b s = Some (Inr u, b1, s1) \<Longrightarrow> flushes b s \<Longrightarrow> keeps_account cfg I b1 s1 got b' s' \<Longrightarrow>
      keeps_account cfg I b s got b' s'" for u b1 s1
    using flushes_keep flushes_emits(2) [of b s "Inr u" b1 s1] by (auto simp: keeps_account_def)
  show "append_output b bs s = Some (Inl e, b', s') \<Longrightarrow> reads_into b bs s \<Longrightarrow> keeps_account cfg I b s bs b' s'" for bs e
    using appends_keep appends_emits(2) by (auto simp: keeps_account_def)
  show "append_output b bs s = Some (Inr u, b1, s1) \<Longrightarrow> reads_into b bs s \<Longrightarrow> keeps_account cfg I b1 s1 got b' s' \<Longrightarrow>
      keeps_account cfg I b s (bs @ got) b' s'" for bs u b1 s1
    using appends_keep appends_emits(2) [of b bs s "Inr u" b1 s1] by (auto simp: keeps_account_def)
qed

end

sublocale output_account \<subseteq> run: reader_rule "keeps_account cfg I"
  by (rule account_rule)

context output_account
begin

lemma reader_keeps:
  assumes "reader_run cfg v s reads polls = Some (s', got, v')" "limits_ok cfg" "I 0 s"
  shows "I 0 s'"
proof -
  obtain b' s1 where "keeps_account cfg I (OutputBuffer_new cfg) s got b' s1" "s' = close_ports b' s1"
    using run.run_rule [OF assms(1,2)] .
  then show ?thesis
    using close_ports_keeps assms(3) by (auto simp: keeps_account_def OutputBuffer_new_def)
qed

end

text \<open>The limit of the in-flight counter, plus one batch, is an account for any receiver.\<close>

definition bound_account :: "OutputConfig \<Rightarrow> nat \<Rightarrow> out_sys \<Rightarrow> bool" where
  "bound_account cfg r s \<longleftrightarrow> inflight_ok cfg s"

lemma inflight_ok_less: "inflight_ok cfg s \<Longrightarrow> guarded (inflight s') \<le> guarded (inflight s) \<Longrightarrow> inflight_ok cfg s'"
  by (auto simp: inflight_ok_def word_le_nat_alt)

lemma post_batch_inflight:
  assumes "post_batch b s = (posted, b', s')"
  shows "guarded (inflight s') \<le> guarded (inflight s)"
proof -
  let ?cfg = "ob_config b"
  obtain ext s1 where res: "(if oc_use_external_output ?cfg
      then reserve_external_bytes ?cfg (oc_max_external_output_bytes ?cfg) (vec_len (ob_batch b)) s
      else (False, s)) = (ext, s1)"
    by fastforce
  then have "others s s1"
    using reserve_external_others by (auto split: if_splits)
  then have "others s (interfere ?cfg s1)"
    using others_trans others_interfere by blast
  moreover have "inflight s' = inflight (interfere ?cfg s1)"
    using assms res post_output_fields by (auto simp: post_batch_def Let_def split: prod.splits if_splits)
  ultimately show ?thesis
    by (simp add: others_def)
qed

interpretation inflight_bound: output_account cfg "bound_account cfg" for cfg
proof
  fix r s evs rest
  show "bound_account cfg r s \<Longrightarrow> env s = evs # rest \<Longrightarrow>
      bound_account cfg r (apply_events cfg evs (s\<lparr>env := rest\<rparr>))"
    using others_events [of "s\<lparr>env := rest\<rparr>" cfg evs] inflight_ok_less
    by (auto simp: bound_account_def others_def)
next
  fix c u s s'
  assume "reserve_inflight cfg (vec_len c) s = (Inr u, s')" "bound_account cfg 0 s" "vec_fits c"
    "oc_require_acks cfg \<Longrightarrow> guarded (inflight s) < oc_max_inflight cfg \<and> length c \<le> batch_max cfg"
  then show "bound_account cfg (length c) s'"
    using interfere_inflight [of cfg s]
    by (auto simp: bound_account_def inflight_ok_def reserve_inflight_def Let_def lock_def unat_saturating_add
        unat_vec_len word_less_nat_alt word_le_nat_alt split: if_splits)
next
  fix b s posted b' s'
  show "post_batch b s = (posted, b', s') \<Longrightarrow> bound_account cfg (length (ob_batch b)) s \<Longrightarrow>
      bound_account cfg (if posted then 0 else length (ob_batch b)) s'"
    using post_batch_inflight inflight_ok_less by (auto simp: bound_account_def)
next
  fix c res s s'
  assume "release_inflight cfg (vec_len c) s = (res, s')" "bound_account cfg (length c) s"
  then show "bound_account cfg 0 s'"
    using interfere_inflight [of cfg s]
    by (auto simp: bound_account_def inflight_ok_def release_inflight_def Let_def lock_def unat_saturating_sub
        word_le_nat_alt split: if_splits)
next
  fix r s vs port
  show "bound_account cfg r s \<Longrightarrow> bound_account cfg r (snd (post_message port vs s))"
    by (simp add: bound_account_def inflight_ok_def)
qed

section \<open>The reader of a session\<close>

text \<open>
  What \<open>start_runtime\<close> gives the reader thread: the stop flag and the in-flight counter of the runtime,
  which the client's calls see too, and a counter of external bytes of its own. Chunks posted to the
  port before are none of its business and count as acknowledged.
\<close>

definition reader_start ::
    "OutputConfig \<Rightarrow> SessionRuntime \<Rightarrow> dart_vm \<Rightarrow> env_event list list \<Rightarrow> out_sys" where
  "reader_start cfg rt vm script =
    (let s = \<lparr>msg_vm = vm, external_bytes = 0, peers = (\<lambda>_. None), next_peer = 1, inflight = rt_inflight rt,
        stop = rt_stop rt, now = 0, acked_chunks = 0, env = script\<rparr> in
     s\<lparr>acked_chunks := length (delivered_chunks (oc_output_port cfg) s)\<rparr>)"

text \<open>The reader's view of the session: its counter and its flag, and nothing but a stop without a runtime.\<close>

definition reader_sees :: "OutputConfig \<Rightarrow> ('m, 'c) Session option \<Rightarrow> out_sys \<Rightarrow> bool" where
  "reader_sees cfg session s \<longleftrightarrow>
    (case session of
       None \<Rightarrow> stop s
     | Some session \<Rightarrow>
         \<not> poisoned (ss_runtime session)
         \<and> (case guarded (ss_runtime session) of
              None \<Rightarrow> stop s
            | Some rt \<Rightarrow> rt_inflight rt = inflight s \<and> rt_stop rt = stop s \<and> rt_require_acks rt = oc_require_acks cfg))"

fun reader_events :: "('m, 'c) input_event \<Rightarrow> env_event list" where
  "reader_events (Call_ack n) = [Ack n]"
| "reader_events (Call_close sys) = [Stop_request]"
| "reader_events _ = []"

lemma parsed_output_limits:
  assumes "session_options_from_ptr m ptr = Inr opts"
  defines "cfg \<equiv> rc_output (so_runtime opts)"
  shows "limits_ok cfg" "batch_max cfg \<le> 262144" "oc_max_inflight cfg \<noteq> 0"
    "oc_require_acks cfg = rc_require_acks (so_runtime opts)"
proof -
  obtain options where opts: "so_runtime opts = runtime_config_from_options options"
    using assms(1)
    by (auto simp: session_options_from_ptr_def session_options_from_abi_def and_then_def split: if_splits sum.splits)
  note range = output_limits [of options, folded opts, folded cfg_def]
  show "limits_ok cfg" "batch_max cfg \<le> 262144" "oc_max_inflight cfg \<noteq> 0"
    "oc_require_acks cfg = rc_require_acks (so_runtime opts)"
    using range by (simp_all add: limits_ok_def batch_max_def)
qed

lemma runtime_spawn_runtime:
  assumes "runtime_spawn sys options = Some (Inr s, acts)"
  obtains rt where "guarded (ss_runtime s) = Some rt" "\<not> poisoned (ss_runtime s)" "rt_inflight rt = new_mutex 0"
    "\<not> rt_stop rt" "rt_require_acks rt = rc_require_acks (so_runtime options)"
proof -
  obtain s0 acts0 where s0: "session_spawn sys (so_spawn options) = Some (Inr s0, acts0)"
    using assms by (auto simp: runtime_spawn_def split: option.splits prod.splits sum.splits)
  note fresh = session_spawn_fresh [OF s0, THEN conjunct1]
  show thesis
    by (rule start_runtime_cases [OF fresh, of "sy_platform sys" "thread_system.truncate sys" "so_runtime options"])
      (use assms s0 fresh that in \<open>auto simp: runtime_spawn_def session_fresh_def new_mutex_def\<close>)
qed

lemma spawned_output:
  fixes sys :: "('m, 'c) ffi_system"
  assumes "ptyx_spawn sys options out lib0 = Some (PTYX_STATUS_OK, out', lib)"
    and "session_options_from_ptr (fy_memory sys) options = Inr opts"
  defines "cfg \<equiv> rc_output (so_runtime opts)"
  obtains session rt where "fs_sessions lib (fy_fresh sys) = Some session" "guarded (ss_runtime session) = Some rt"
    "\<And>vm script. reader_sees cfg (Some session) (reader_start cfg rt vm script)"
    "rt_inflight rt = new_mutex 0" "\<not> rt_stop rt"
proof -
  obtain s acts where s: "runtime_spawn (session_system.truncate sys) opts = Some (Inr s, acts)"
    "fs_sessions lib = (fs_sessions lib0)(fy_fresh sys \<mapsto> s)"
    using spawn_success [OF assms(1)] assms(2) by (metis sum.inject(2))
  obtain rt where rt: "guarded (ss_runtime s) = Some rt" "\<not> poisoned (ss_runtime s)" "rt_inflight rt = new_mutex 0"
    "\<not> rt_stop rt" "rt_require_acks rt = rc_require_acks (so_runtime opts)"
    using runtime_spawn_runtime [OF s(1)] .
  then show thesis
    using that [of s rt] s(2) parsed_output_limits(4) [OF assms(2)]
    by (simp add: reader_sees_def reader_start_def Let_def cfg_def)
qed

lemma reader_start_delivered [simp]:
  "delivered_chunks p (reader_start cfg rt vm script) = delivered_chunks p (demo_sys []\<lparr>msg_vm := vm\<rparr>)"
  by (rule output_log_vm) (simp add: reader_start_def Let_def)

lemma reader_start_accounts:
  fixes vm :: dart_vm and script :: "env_event list list"
  assumes "rt_inflight rt = new_mutex 0" "oc_max_inflight cfg \<noteq> 0"
  defines "s \<equiv> reader_start cfg rt vm script"
  shows "external_ok cfg 0 s" "bound_account cfg 0 s" "honest_script s \<Longrightarrow> credit cfg 0 s"
proof -
  show "external_ok cfg 0 s"
    by (simp add: external_ok_def peer_bytes_def peer_size_def s_def reader_start_def Let_def)
  show "bound_account cfg 0 s"
    using assms(1,2) by (simp add: bound_account_def inflight_ok_def s_def reader_start_def Let_def new_mutex_def unat_gt_0)
  have "acked_chunks s = length (delivered_chunks (oc_output_port cfg) s)"
    unfolding s_def reader_start_delivered by (simp add: reader_start_def Let_def) (rule arg_cong [where f = length], rule output_log_vm, simp)
  then show "honest_script s \<Longrightarrow> credit cfg 0 s"
    using assms(1) by (simp add: credit_def unacked_def) (simp add: s_def reader_start_def Let_def new_mutex_def)
qed

text \<open>The parts of a session that the reader shares with its calls.\<close>

definition reader_part :: "('m, 'c) Session \<Rightarrow> bool \<times> (u64 mutex \<times> bool \<times> bool) option" where
  "reader_part session =
    (poisoned (ss_runtime session),
     map_option (\<lambda>rt. (rt_inflight rt, rt_stop rt, rt_require_acks rt)) (guarded (ss_runtime session)))"

lemma reader_sees_part: "reader_part s' = reader_part s \<Longrightarrow> reader_sees cfg (Some s') t = reader_sees cfg (Some s) t"
  by (auto simp: reader_part_def reader_sees_def split: option.splits)

lemma writes_keep_part:
  "session_write ts can_reserve meanwhile s bytes = (r, s') \<Longrightarrow> reader_part s' = reader_part s"
  "session_write_owned ts s bytes = (r', s') \<Longrightarrow> reader_part s' = reader_part s"
  "session_resize sys s sz = (r, s') \<Longrightarrow> reader_part s' = reader_part s"
  "reader_part (map_runtime (map_queue f) s) = reader_part s"
  "reader_part (s\<lparr>ss_inner := inner\<rparr>) = reader_part s"
  by (auto simp: session_write_def session_write_owned_def session_resize_def reader_part_def lock_def set_runtime_def
      set_guarded_def map_runtime_def map_queue_def option.map_comp o_def split: if_splits option.splits sum.splits prod.splits)

text \<open>An acknowledgement is the event of the same name.\<close>

lemma ack_reaches_reader:
  assumes "ack_output s n = (r, s')" "reader_sees cfg (Some s) t"
  shows "reader_sees cfg (Some s') (apply_event cfg t (Ack n))"
  using assms
  by (auto simp: ack_output_def reader_sees_def ack_inflight_def lock_def split: option.splits if_splits)

lemma with_session_sees:
  assumes "with_session ptr old f lib = Some (status, out, lib')" "ptr \<noteq> 0" "reader_sees cfg (fs_sessions lib ptr) t"
    and "\<And>s r out s'. f s = (r, out, s') \<Longrightarrow> reader_sees cfg (Some s) t \<Longrightarrow> reader_sees cfg (Some s') t'"
  shows "reader_sees cfg (fs_sessions lib' ptr) t'"
  using with_session_cases [OF assms(1,2)] assms(3,4) by (metis fun_upd_same)

lemma write_owned_sees:
  assumes "ptyx_write_owned sys ptr buffer n lib = Some (status, lib')" "ptr \<noteq> 0" "reader_sees cfg (fs_sessions lib ptr) t"
  shows "reader_sees cfg (fs_sessions lib' ptr) t"
  using assms
  by (auto simp: ptyx_write_owned_def session_from_ptr_def elim!: ffi_return_cases
      dest!: writes_keep_part(2) [THEN reader_sees_part [where cfg = cfg and t = t]]
      split: option.splits sum.splits prod.splits)

lemma stopped_sees: "reader_sees cfg None t \<longleftrightarrow> stop t"
  by (simp add: reader_sees_def)

lemma input_step_reaches_reader:
  assumes "ptr \<noteq> 0" "reader_sees cfg (fs_sessions (in_lib x) ptr) t"
  shows "reader_sees cfg (fs_sessions (in_lib (input_step ptr x e)) ptr) (apply_events cfg (reader_events e) t)"
proof (cases e)
  case (Call_write sys data n)
  have "reader_sees cfg (fs_sessions lib ptr) t" if "ptyx_write sys ptr data n (in_lib x) = Some (status, out, lib)" for status out lib
    using that [unfolded ptyx_write_def] assms
    by (rule with_session_sees) (auto simp: reader_sees_part [OF writes_keep_part(1)] split: sum.splits prod.splits)
  then show ?thesis
    using Call_write assms by (auto simp: apply_events_def written_def split: option.split)
next
  case (Call_write_owned sys buffer n)
  then show ?thesis
    using write_owned_sees [OF _ assms] assms(2) by (auto simp: apply_events_def written_def split: option.split)
next
  case (Call_ack n)
  have "reader_sees cfg (fs_sessions lib ptr) (apply_event cfg t (Ack n))"
    if "ptyx_ack_output ptr n (in_lib x) = Some (status, out, lib)" for status out lib
    using that [unfolded ptyx_ack_output_def] assms
    by (rule with_session_sees) (auto dest: ack_reaches_reader split: prod.splits)
  moreover have "ptyx_ack_output ptr n (in_lib x) = None \<Longrightarrow> fs_sessions (in_lib x) ptr = None"
    using assms(1) by (auto simp: ptyx_ack_output_def with_session_def session_from_ptr_def split: option.splits prod.splits)
  ultimately show ?thesis
    using Call_ack assms(2) event_stop [of cfg t "Ack n"]
    by (auto simp: apply_events_def stopped_sees split: option.split)
next
  case (Call_resize sys sz)
  have "reader_sees cfg (fs_sessions lib ptr) t" if "ptyx_resize sys ptr sz (in_lib x) = Some (status, out, lib)" for status out lib
    using that [unfolded ptyx_resize_def] assms
    by (rule with_session_sees) (auto simp: reader_sees_part [OF writes_keep_part(3)] split: sum.splits prod.splits)
  then show ?thesis
    using Call_resize assms by (auto simp: apply_events_def split: option.split)
next
  case (Call_close sys)
  show ?thesis
  proof (cases "fs_sessions (in_lib x) ptr")
    case None
    then show ?thesis
      using Call_close assms(2) by (simp add: apply_events_def stopped_sees split: option.split)
  next
    case (Some s)
    then show ?thesis
      using Call_close assms(1) by (simp add: apply_events_def stopped_sees ptyx_close_def free_session_def)
  qed
next
  case Close_marks
  then show ?thesis
    using assms reader_sees_part [OF writes_keep_part(5)]
    by (cases "fs_sessions (in_lib x) ptr") (auto simp: apply_events_def stopped_sees)
next
  case (Writer_works reply poll)
  then show ?thesis
    using assms reader_sees_part [OF writes_keep_part(4)]
    by (cases "fs_sessions (in_lib x) ptr") (auto simp: apply_events_def stopped_sees put_writer_def)
next
  case Writer_wakes
  then show ?thesis
    using assms reader_sees_part [OF writes_keep_part(4)]
    by (cases "fs_sessions (in_lib x) ptr") (auto simp: apply_events_def stopped_sees put_writer_def)
qed (use assms in \<open>auto simp: apply_events_def ptyx_buffer_alloc_def ptyx_buffer_free_def ptyx_kill_def
    elim!: ffi_return_cases split: option.splits prod.splits sum.splits\<close>)

lemma run_reaches_reader:
  assumes "ptr \<noteq> 0" "reader_sees cfg (fs_sessions (in_lib x) ptr) s"
  shows "reader_sees cfg (fs_sessions (in_lib (input_run ptr x events)) ptr)
    (apply_events cfg (concat (map reader_events events)) s)"
  using assms(2)
proof (induction events arbitrary: x s)
  case (Cons e events)
  have "apply_events cfg (reader_events e @ es) s = apply_events cfg es (apply_events cfg (reader_events e) s)" for es
    by (simp add: apply_events_def)
  then show ?case
    using Cons.IH [OF input_step_reaches_reader [OF assms(1) Cons.prems]] by (simp add: input_run_def)
qed (simp add: input_run_def apply_events_def)


text \<open>
  C2. Output arrives, and is accounted for. Take a session that \<open>ptyx_spawn\<close> returned, with any
  options, and its reader thread, while the client calls what it wants and the Dart VM collects
  chunks when it wants. The thread starts out seeing the session's counter and stop flag. However it
  returns, it has posted chunks of at most 256 KiB and then the one end marker; the receiver has got a
  prefix of what was read, and all of it unless the thread was stopped, a post was refused or the
  counter's lock poisoned. The external memory in use is what the counter says, within the option's
  limit. The in-flight counter is below its limit plus one batch whatever is acknowledged, and equals
  the unacknowledged bytes when each chunk is acknowledged once, after its delivery, and the option
  for its limit is at most \<open>2 ^ 63\<close>.
\<close>

theorem output_arrives:
  fixes sys :: "('m, 'c) ffi_system" and vm :: dart_vm and script :: "env_event list list"
  assumes "ptyx_spawn sys options out lib0 = Some (PTYX_STATUS_OK, out', lib)"
    and "session_options_from_ptr (fy_memory sys) options = Inr opts"
    and "fs_sessions lib (fy_fresh sys) = Some session" "guarded (ss_runtime session) = Some rt"
  defines "cfg \<equiv> rc_output (so_runtime opts)"
  defines "s \<equiv> reader_start cfg rt vm script"
  assumes "reader_run cfg v s reads polls = Some (s', got, v')"
  shows "reader_sees cfg (Some session) s \<and> reader_done cfg s got s' \<and> batch_max cfg \<le> 262144
    \<and> unat (external_bytes s') = peer_bytes s' \<and> peer_bytes s' \<le> unat (oc_max_external_output_bytes cfg)
    \<and> (oc_require_acks cfg \<longrightarrow>
         unat (guarded (inflight s')) < unat (oc_max_inflight cfg) + batch_max cfg
       \<and> (unat (oc_max_inflight cfg) \<le> 2 ^ 63 \<and> list_all (list_all honest) script \<longrightarrow>
            unat (guarded (inflight s')) = bytes_of (unacked cfg s')))"
proof -
  have rt: "reader_sees cfg (Some session) s" "rt_inflight rt = new_mutex 0"
    using spawned_output [OF assms(1,2)] assms(3,4) unfolding cfg_def s_def by (metis option.inject)+
  note limits = parsed_output_limits [OF assms(2), folded cfg_def]
  note start = reader_start_accounts [OF rt(2) limits(3), of vm script, folded s_def]
  have "external_ok cfg 0 s'"
    by (rule external_account.reader_keeps [OF assms(7) limits(1) start(1)])
  moreover have "inflight_ok cfg s'"
    using inflight_bound.reader_keeps [OF assms(7) limits(1) start(2)] by (simp add: bound_account_def)
  moreover have "credit_account cfg 0 s'" if "list_all (list_all honest) script"
    by (rule inflight_account.reader_keeps [OF assms(7) limits(1)])
      (use start(3) that in \<open>simp add: credit_account_def honest_script_def s_def reader_start_def Let_def\<close>)
  ultimately show ?thesis
    using rt(1) reader_run_done [OF assms(7) limits(1)] limits(2)
    by (auto simp: inflight_ok_def external_ok_def credit_account_def credit_def)
qed

section \<open>Closing\<close>

text \<open>What the writer thread does in an event, and nobody else on its queue once the session is gone.\<close>

fun writer_events :: "('m, 'c) input_event \<Rightarrow> writer_event list" where
  "writer_events (Writer_works reply poll) = [Writer_runs reply poll]"
| "writer_events Writer_wakes = [Spurious]"
| "writer_events _ = []"

lemma gone_lib:
  assumes "fs_sessions (in_lib x) ptr = None" "fs_sessions lib = fs_sessions (in_lib x)"
  shows "input_writer ptr (x\<lparr>in_lib := lib\<rparr>) = input_writer ptr x"
  using assms by (simp add: input_writer_def Let_def)

lemma gone_step:
  fixes e :: "('m, 'c) input_event"
  assumes "fs_sessions (in_lib x) ptr = None" "ptr \<noteq> 0" "in_started x"
  defines "x' \<equiv> input_step ptr x e"
  shows "fs_sessions (in_lib x') ptr = None \<and> in_started x'
    \<and> input_writer ptr x' = writer_run (input_writer ptr x) (writer_events e)"
proof -
  have idle: "fs_sessions (in_lib x') = fs_sessions (in_lib x) \<and> x' = x\<lparr>in_lib := in_lib x'\<rparr>"
    if "writer_events e = []"
  proof (cases e)
    case (Call_alloc sys capacity out)
    then show ?thesis
      by (auto simp: x'_def ptyx_buffer_alloc_def elim!: ffi_return_cases split: prod.splits)
  next
    case Close_marks
    then show ?thesis
      using assms(1) by (auto simp: x'_def fun_upd_idem)
  qed (use that assms(1,2) in \<open>auto simp: x'_def ptyx_write_def ptyx_write_owned_def ptyx_ack_output_def ptyx_resize_def
      ptyx_kill_def ptyx_buffer_free_def with_session_def session_from_ptr_def split: option.split\<close>)
  have works: "fs_sessions (in_lib x') ptr = None \<and> in_started x' \<and> input_writer ptr x' = writer_next (input_writer ptr x) ev"
    if "x' = put_writer ptr (writer_next (input_writer ptr x) ev) x" "ev = Spurious \<or> (\<exists>reply poll. ev = Writer_runs reply poll)" for ev
  proof -
    let ?w = "writer_next (input_writer ptr x) ev"
    have "w_accepted ?w = in_written x" "w_inner_closed ?w = w_inner_closed (input_writer ptr x)"
      using that(2) by (auto simp: writer_step_frame)
    from put_writer_simulated(1) [OF this] show ?thesis
      using that(1) assms(1,3) by simp (simp add: put_writer_def)
  qed
  have running: "writer_running ptr x"
    using assms(1,3) by (simp add: writer_running_def)
  show ?thesis
  proof (cases "writer_events e = []")
    case True
    then show ?thesis
      using idle assms(1,3) gone_lib [OF assms(1), of "in_lib x'"]
      by (metis foldl_Nil input_sys.select_convs(3) input_sys.surjective input_sys.update_convs(1) writer_run_def)
  next
    case False
    then obtain ev where "x' = put_writer ptr (writer_next (input_writer ptr x) ev) x" "writer_events e = [ev]"
        "ev = Spurious \<or> (\<exists>reply poll. ev = Writer_runs reply poll)"
      using running by (cases e) (auto simp: x'_def simp del: writer_next.simps)
    with works show ?thesis
      by (simp add: writer_run_def)
  qed
qed

lemma gone_run:
  assumes "fs_sessions (in_lib x) ptr = None" "ptr \<noteq> 0" "in_started x"
  shows "input_writer ptr (input_run ptr x events) = writer_run (input_writer ptr x) (concat (map writer_events events))"
  using assms(1,3)
proof (induction events arbitrary: x)
  case (Cons e events)
  from gone_step [OF Cons.prems(1) assms(2) Cons.prems(2), of e] Cons.IH [of "input_step ptr x e"] show ?case
    by (simp add: input_run_def writer_run_def)
qed (simp add: input_run_def writer_run_def)

fun closes :: "('m, 'c) input_event \<Rightarrow> bool" where
  "closes (Call_close sys) = True"
| "closes _ = False"

lemma closes_iff: "closes e \<longleftrightarrow> Stop_request \<in> set (reader_events e)"
  by (cases e) simp_all

text \<open>Until it is closed, a spawned session has its runtime.\<close>

lemma open_session:
  fixes sys :: "('m, 'c) ffi_system"
  assumes "ptyx_spawn sys options out lib0 = Some (PTYX_STATUS_OK, out', lib)" "fy_fresh sys \<noteq> 0"
    and "list_all (\<lambda>e. \<not> closes e) events"
  obtains session rt where
    "fs_sessions (in_lib (input_run (fy_fresh sys) (input_start master stream lib) events)) (fy_fresh sys) = Some session"
    "guarded (ss_runtime session) = Some rt" "\<not> poisoned (ss_runtime session)"
proof -
  let ?x = "input_run (fy_fresh sys) (input_start master stream lib) events"
  obtain opts where opts: "session_options_from_ptr (fy_memory sys) options = Inr opts"
    using spawn_success [OF assms(1)] .
  define cfg where "cfg = rc_output (so_runtime opts)"
  obtain session rt where start: "fs_sessions lib (fy_fresh sys) = Some session" "\<not> rt_stop rt"
    "reader_sees cfg (Some session) (reader_start cfg rt (msg_vm (demo_sys [])) [])"
    using spawned_output [OF assms(1) opts] unfolding cfg_def by metis
  define s where "s = reader_start cfg rt (msg_vm (demo_sys [])) []"
  have "reader_sees cfg (fs_sessions (in_lib ?x) (fy_fresh sys)) (apply_events cfg (concat (map reader_events events)) s)"
    by (rule run_reaches_reader [OF assms(2)]) (use start in \<open>simp add: input_start_def s_def\<close>)
  moreover have "\<not> stop (apply_events cfg (concat (map reader_events events)) s)"
    using start(2) assms(3) by (auto simp: events_stop s_def reader_start_def Let_def list_all_iff closes_iff)
  ultimately show thesis
    using that by (auto simp: reader_sees_def split: option.splits)
qed


section \<open>Examples\<close>

text \<open>The output limits of a session with the default options.\<close>

lemma demo_cfg:
  assumes "session_options_from_ptr (fy_memory demo_ffi) (Some demo_abi_options) = Inr opts"
  shows "rc_output (so_runtime opts) =
    \<lparr>oc_require_acks = True, oc_max_inflight = 4194304, oc_read_buffer_size = 262144,
     oc_output_batch_max_bytes = 131072, oc_output_batch_max_delay = 1000000, oc_use_external_output = True,
     oc_max_external_output_bytes = 67108864,
     oc_output_port = 1, oc_event_port = 2\<rparr>"
proof -
  have "so_runtime opts = runtime_config_from_options demo_abi_options"
    using assms
    by (auto simp: session_options_from_ptr_def session_options_from_abi_def copy_session_options_from_ptr_def
        ok_or_def and_then_def split: if_splits sum.splits)
  then show ?thesis
    by (simp add: runtime_config_from_options_def Let_def demo_abi_options_def default_session_options_def
        abi_consts default_u32_def default_u64_def clamp_def from_micros_def)
qed

lemma demo_start:
  assumes "rt_inflight rt = new_mutex 0" "\<not> rt_stop rt"
  shows "reader_start cfg rt (msg_vm (demo_sys [])) script = demo_sys script"
proof -
  have "reader_start cfg rt (msg_vm (demo_sys [])) script =
      demo_sys script\<lparr>acked_chunks := length (delivered_chunks (oc_output_port cfg) (demo_sys script))\<rparr>"
    using assms by (simp add: reader_start_def Let_def demo_sys_def)
  then show ?thesis
    by simp (simp add: demo_sys_def)
qed

lemma demo_quiet: "interfere cfg (demo_sys []) = demo_sys []" "\<not> stop (demo_sys script)" "now (demo_sys script) = 0"
  by (simp_all add: interfere_def demo_sys_def)

text \<open>The thread reads one byte, which it posts as external memory, and then the end of file.\<close>

lemma demo_flush:
  assumes "oc_require_acks cfg" "oc_max_inflight cfg = 4194304" "oc_use_external_output cfg"
    "oc_max_external_output_bytes cfg = 67108864"
  obtains b s where "flush \<lparr>ob_config = cfg, ob_batch = [7], ob_first_pending_at = Some 0\<rparr> (demo_sys [])
      = Some (Inr (), b, s)" "ob_config b = cfg"
    "external_bytes s = 1" "inflight s = \<lparr>guarded = 1, poisoned = False\<rparr>" "env s = []"
  using assms
  by (simp add: flush_def wait_for_inflight_capacity_def Let_def lock_def interfere_def demo_sys_def
      new_mutex_def reserve_inflight_def saturating_add_def set_guarded_def vec_len_def post_batch_def
      reserve_external_bytes_def try_from_def checked_add_def post_output_external_def post_message_def post_array_def
      post_cobject_def length_fits_dart_def word_le_nat_alt word_less_nat_alt)

theorem output_arrives_witness:
  "\<exists>out lib session rt (opts :: SessionOptions) s' v'. ptyx_spawn demo_ffi (Some demo_abi_options) (Some 7) demo_ffi_state = Some (PTYX_STATUS_OK, out, lib)
   \<and> fs_sessions lib 8192 = Some session \<and> guarded (ss_runtime session) = Some rt
   \<and> reader_run (rc_output (so_runtime opts)) demo_reader
       (reader_start (rc_output (so_runtime opts)) rt (msg_vm (demo_sys [])) []) [RBytes [7], RBytes []] [] = Some (s', [7], v')
   \<and> external_bytes s' = 1 \<and> peer_bytes s' = 1
   \<and> guarded (inflight s') = 1 \<and> bytes_of (unacked (rc_output (so_runtime opts)) s') = 1"
proof -
  obtain opts where opts: "session_options_from_ptr (fy_memory demo_ffi) (Some demo_abi_options) = Inr opts"
    using demo_abi_options_parse by auto
  obtain out lib where
    spawned: "ptyx_spawn demo_ffi (Some demo_abi_options) (Some 7) demo_ffi_state = Some (PTYX_STATUS_OK, out, lib)"
    using demo_spawn_call by blast
  obtain session rt where rt: "fs_sessions lib (fy_fresh demo_ffi) = Some session" "guarded (ss_runtime session) = Some rt"
    "rt_inflight rt = new_mutex 0" "\<not> rt_stop rt"
    using spawned_output [OF spawned opts] by metis
  define cfg where "cfg = rc_output (so_runtime opts)"
  have limits: "oc_require_acks cfg" "oc_max_inflight cfg = 4194304" "oc_use_external_output cfg"
      "oc_max_external_output_bytes cfg = 67108864" "oc_read_buffer_size cfg = 262144" "oc_output_batch_max_bytes cfg = 131072"
    using demo_cfg [OF opts] by (simp_all add: cfg_def)
  let ?batch = "\<lparr>ob_config = cfg, ob_batch = [7], ob_first_pending_at = Some 0\<rparr>"
  obtain b s where flushed: "flush ?batch (demo_sys []) = Some (Inr (), b, s)"
    "ob_config b = cfg" "external_bytes s = 1" "inflight s = \<lparr>guarded = 1, poisoned = False\<rparr>" "env s = []"
    by (rule demo_flush [of cfg]) (simp_all add: limits)
  have "append_output (OutputBuffer_new cfg) [7] (demo_sys []) = Some (Inr (), ?batch, demo_sys [])"
    by (simp add: append_output.simps OutputBuffer_new_def start_batch_def demo_quiet Let_def batch_take_def batch_full_def
        limits vec_len_def saturating_sub_def word_le_nat_alt)
  then have "read_outer (OutputBuffer_new cfg) (demo_sys []) [RBytes [7], RBytes []] [] = Some (b, s, [7])"
    using flushed(1)
    by (simp add: read_outer.simps read_inner.simps read_fd_def read_fd_once_def demo_quiet Let_def flush_ok_def
        after_read_def limits) (simp add: OutputBuffer_new_def demo_quiet limits)
  then obtain v' where run: "reader_run cfg demo_reader (reader_start cfg rt (msg_vm (demo_sys [])) []) [RBytes [7], RBytes []] []
      = Some (close_ports b s, [7], v')"
    by (simp add: demo_start [OF rt(3,4)] reader_run_def demo_reader_def BusyGuard_enter_def
        read_context_for_inner_def read_unix_fd_def set_fd_nonblocking_def fcntl_setfl_def lock_def Let_def new_mutex_def)
  have closed_state: "external_bytes (close_ports b s) = 1" "inflight (close_ports b s) = inflight s"
    using flushed(3,5) by (simp_all add: close_ports_def post_output_closed_def interfere_def)
  have "unat (external_bytes (close_ports b s)) = peer_bytes (close_ports b s)
      \<and> unat (guarded (inflight (close_ports b s))) = bytes_of (unacked cfg (close_ports b s))"
    using output_arrives [OF spawned opts rt(1,2), folded cfg_def, OF run] limits(1,2) by simp
  then have "peer_bytes (close_ports b s) = 1" "bytes_of (unacked cfg (close_ports b s)) = 1"
    using closed_state flushed(4) by simp_all
  with spawned rt(1,2) run flushed(4) closed_state show ?thesis
    unfolding cfg_def demo_ffi_simps(2)
    by (intro exI [of _ out] exI [of _ lib] exI [of _ session] exI [of _ rt] exI [of _ opts]
        exI [of _ "close_ports b s"] exI [of _ v']) simp
qed



end
