(* ===== verification/Spec2Isabelle.thy ===== *)
theory Spec2Isabelle
  imports Delivery
begin

text \<open>
  A verification development of the native core of ptyx (\<open>packages/ptyx/native/src\<close>), the Rust
  library behind a Dart package for pseudo terminals.

  \<^bold>\<open>The program.\<close> A client of the C ABI (\<open>lib.rs\<close>, \<open>abi.rs\<close>) starts a session: a child process on a new
  pseudo terminal. A session runs up to five threads. The reader thread reads the PTY master and
  posts batches of output to a Dart port, holding back while too many bytes are unacknowledged
  (\<open>reader.rs\<close>, \<open>output.rs\<close>). The writer thread, started by the first write, drains a bounded queue of
  chunks into the PTY (\<open>writer.rs\<close>). The exit waiter waits for the child and stores its result in a
  shared cell (\<open>process.rs\<close>); the wait thread waits on that cell and posts the exit event, and the
  mode thread polls the terminal mode and posts its changes (\<open>runtime.rs\<close>). On Linux the child is not
  started directly: a forked monitor process starts it, waits for it and reports through a pipe
  (\<open>process_linux.rs\<close>). Messages go through a small binding of the Dart API (\<open>message.rs\<close>,
  \<open>dart_api.rs\<close>), system calls on descriptors through \<open>fd.rs\<close>.

  \<^bold>\<open>Theories.\<close>
    \<^item> \<open>Prelude\<close>: Rust integer operations on words, mutexes, results, lists. \<open>Interfaces\<close>: the locales
      (FIFO and bounded queues, ordered maps, codecs and streams over pipes, write-once cells, forward
      simulations), each interpreted in the theory of the component that provides it. Two more hold proof
      rules: \<open>output_account\<close> in \<open>OutputAccounts\<close> for invariants of the shared counters, and
      \<open>reader_rule\<close> in \<open>Reader\<close> for relations that follow a run of the reader thread.
    \<^item> \<open>Errors\<close> (\<open>error.rs\<close>), \<open>Status\<close> and \<open>Options\<close> (\<open>abi.rs\<close>, \<open>config.rs\<close>), \<open>Utf8\<close> (the standard library's
      UTF-8 validation), \<open>OwnedBuffer\<close> (\<open>owned_buffer.rs\<close> and the buffer handles of \<open>abi.rs\<close>).
    \<^item> \<open>DartApi\<close> (\<open>dart_api.rs\<close>), \<open>Message\<close> (\<open>message.rs\<close>, \<open>term_mode.rs\<close>), \<open>Fd\<close> (\<open>fd.rs\<close>).
    \<^item> \<open>WriteQueue\<close> (the queue of \<open>writer.rs\<close>, as an abstract contract and its implementation) and
      \<open>Writer\<close> (the write loops and the thread, as a step function interleaved with its clients).
    \<^item> \<open>Output\<close> and \<open>OutputAccounts\<close> (\<open>output.rs\<close>: batches and delivery, then the two counters), \<open>Reader\<close>
      (\<open>reader.rs\<close>).
    \<^item> \<open>Environment\<close> (spawn requests and environments of \<open>process_linux.rs\<close> and \<open>process.rs\<close>), \<open>Pipes\<close>
      and \<open>Monitor\<close> (\<open>process_linux.rs\<close>: the pipes, the child before \<open>exec\<close>, the monitor, the host).
    \<^item> \<open>Process\<close> (\<open>process.rs\<close>), \<open>Runtime\<close> and \<open>Loops\<close> (\<open>runtime.rs\<close>), \<open>Session\<close> (\<open>session.rs\<close>, and the steps a
      session can take), \<open>Exports\<close> (\<open>lib.rs\<close>).
    \<^item> \<open>Input\<close>: the exports, the session's runtime and the writer thread composed into one system, which
      is simulated by the writer's own runs. \<open>Delivery\<close>: the same exports and the reader thread, from the
      state \<open>start_runtime\<close> gives it to its end, and what \<open>ptyx_close\<close> does to both threads. The first
      section below composes the child's side.

  \<^bold>\<open>Correspondence.\<close> Structs are records, enums datatypes, fixed-width integers words; a Rust
  \<open>Result\<close> is a sum with the error on the left, and every early return is a branch. Functions keep
  their names, with a prefix where two modules use the same one (\<open>session_write\<close>, \<open>WriteQueue_join\<close>).
  State that Rust changes in place is passed in and returned. A lock is a value with a poison flag.

  \<^bold>\<open>The outside.\<close> The operating system, \<open>portable_pty\<close>, the allocator and the Dart VM are parameters.
  Where a function calls the system repeatedly, the replies form a script; no assumption is made on
  them beyond those a theorem states. Recursion is structural in the script, so no fuel is chosen:
  when the script ends before the function returns, the result is \<open>None\<close>, which stands for a call
  that blocks or goes on. The termination and liveness theorems say for which scripts there is a
  result. Other threads enter the same way: as the events between two actions (\<open>env\<close> in \<open>Output\<close>), as
  an interleaved run (\<open>writer_run\<close>, \<open>queue_exec\<close>, \<open>wait_act\<close>) or as steps (\<open>session_step\<close>).

  \<^bold>\<open>What is shown.\<close>
    \<^item> Input: from \<open>ptyx_spawn\<close> on, the PTY receives the bytes of the calls that succeeded and no others,
      in order, and all of them in boundedly many steps of the writer thread; accepted chunks leave the
      queue whole and in order within the byte limit; enqueuing behaves atomically although it lets go
      of the lock to copy; no wake-up is lost; direct and buffered writes are the same loop; with its
      queue closed the thread returns within three steps.
    \<^item> Output: what is read is delivered in order, in bounded batches, with one end marker, unless
      the thread was stopped; from \<open>ptyx_spawn\<close> to the end of the reader thread, the counter of external
      bytes is exact and within its option, and the in-flight counter is bounded for every receiver and
      exact for one that acknowledges what it gets; acknowledgements and closes of the client are the
      events the reader sees; after a close both threads end; once a stop is bound to
      come (\<open>stops_within n\<close>: it is requested, or the script of the other threads, of at most \<open>n\<close> entries,
      requests it), every wait, flush and read loop ends, given as many replies of the system that are
      no interruptions.
    \<^item> Child: exit codes, signals and failed starts reach the host through the monitor under any
      fragmentation and interruption of the pipes; the environment is what the mode asks for.
    \<^item> Lifecycle: sessions stay well formed under every operation; \<open>close\<close> stops and joins everything
      and is idempotent; failed starts leave nothing; results are reported once.
    \<^item> Boundary: options are validated and kept in range; statuses and errors report outcomes; events
      and objects read back as posted; handles have one owner.

  \<^bold>\<open>Not modelled.\<close> \<open>build.rs\<close> (it runs the C compiler at build time), the test modules, thread names,
  and unwinding inside an operation (\<open>ffi_status\<close> has the panic outcome, but no modelled operation
  panics). Atomics are sequentially consistent in the code and single steps here. Durations are
  natural numbers of nanoseconds. A pointer that is not null and leads to no live object is outside
  the C contract; the model then has no result. \<open>thread::sleep\<close> and condition variables are not timed:
  a sleeping thread is a state, and what wakes it is a step. The Dart packages are clients.
\<close>

section \<open>From the child to the client\<close>

text \<open>On Linux the child handle of a session is \<open>SupervisedChild\<close>; reading the code of a status is \<open>portable_pty\<close>'s.\<close>

definition linux_child ::
    "bool \<Rightarrow> (i32 \<Rightarrow> string) \<Rightarrow> (u32 \<Rightarrow> 'st) \<Rightarrow> ('st \<Rightarrow> u32) \<Rightarrow> wait_reply list
     \<Rightarrow> ('st SupervisedChild, 'st) child_trait" where
  "linux_child little strerror with_exit_code code_of waits =
     \<lparr>ct_wait = (\<lambda>child. map_option fst (child_wait little strerror with_exit_code waits child)),
      ct_process_id = child_process_id, ct_exit_code = code_of\<rparr>"

text \<open>
  C3. The exit event carries the exit code of the program. The program, the monitor, the exit waiter
  and the wait thread together: when the program ends, the session's client gets one exit event, with
  the program's exit code or 128 plus the number of the signal that killed it, however the pipes
  split and interrupt transfers; and from then on \<open>kill\<close> signals nobody.
\<close>

theorem exit_event_carries_exit_code:
  fixes with_exit_code :: "u32 \<Rightarrow> 'st" and inner :: "('m, 'st SupervisedChild) SessionInner"
  assumes "calm_run d" "SpawnRequest_new vars_os config tty_name = Inr request"
    and "snd (exec_child answer request) = None"
    and "list_all (\<lambda>r. r = Wait_fails EINTR) interruptions" "ended W status how"
    and "reap_pid waits = Some waits'" "\<And>code. code_of (with_exit_code code) = code" "linked s"
    and "run = monitor_run little W answer request child_pid (interruptions @ [Reaped status]) d"
  shows "\<exists>child inner' s' answer.
      host_spawn little strerror vars_os config tty_name monitor_pid waits (host_events run d) = Some (Inr child, waits)
    \<and> inner' = exit_waiter Linux strerror W None (linux_child little strerror with_exit_code code_of waits)
        (inner\<lparr>si_child := new_mutex (Some child), si_wait_state := WaitState_new\<rparr>)
    \<and> wait_loop (si_wait_state inner') False event_port s = Some s'
    \<and> event_log event_port s' = event_log event_port s @ [(Exited (shell_code how), answer)]
    \<and> process_kill Linux strerror kill_reply killer_reply inner' signal = (Inr False, None)"
proof -
  obtain child child' where child:
    "host_spawn little strerror vars_os config tty_name monitor_pid waits (host_events run d) = Some (Inr child, waits)"
    "sv_cached child = None"
    "read_exit_status little strerror with_exit_code waits child =
      Some (Inr (with_exit_code (shell_code how)), child', waits')"
    using monitor_delivers [OF assms(1-6,9)] by metis
  let ?inner = "exit_waiter Linux strerror W None (linux_child little strerror with_exit_code code_of waits)
      (inner\<lparr>si_child := new_mutex (Some child), si_wait_state := WaitState_new\<rparr>)"
  have waited: "si_wait_state ?inner = complete (Inr (shell_code how)) WaitState_new"
    by (simp add: exit_waiter_def wait_child_def take_child_def linux_child_def child_wait_def child(2,3)
        exit_code_def assms(7))
  have ready: "guarded (ws_result (complete r WaitState_new)) = Some r"
    "\<not> poisoned (ws_result (complete r WaitState_new))" for r
    by (simp_all add: complete_def WaitState_new_def set_guarded_def new_mutex_def lock_def)
  have "process_kill Linux strerror kill_reply killer_reply ?inner signal = (Inr False, None)"
    using ready by (simp add: process_kill_def has_cached_exit_def is_ready_def waited lock_def)
  moreover have "wait_loop (si_wait_state ?inner) False event_port s
      = Some (snd (post_exit event_port (shell_code how) s))"
    using ready by (simp add: wait_loop_def wait_pass_def waited lock_def)
  ultimately show ?thesis
    using child(1) event_log_posts(1) [OF assms(8)] by blast
qed

text \<open>A program killed by signal 9, with both pipes disturbed, posts the exit code 137.\<close>

theorem exit_event_carries_exit_code_witness:
  "\<exists>child inner' s' answer.
      host_spawn True (\<lambda>_. []) [] (demo_spawn Clear []) [47, 116] 76 [Reaped 0]
        (host_events (monitor_run True linux_macros (demo_kernel (Inr 0)) demo_request 77
          ([Wait_fails EINTR] @ [Reaped 9]) demo_disturbances) demo_disturbances) = Some (Inr child, [Reaped 0])
    \<and> inner' = exit_waiter Linux (\<lambda>_. []) linux_macros None (linux_child True (\<lambda>_. []) (\<lambda>c. c) (\<lambda>c. c) [Reaped 0])
        (\<lparr>si_master = new_mutex (), si_reader = new_mutex (), si_writer = new_mutex (), si_child = new_mutex None,
          si_killer = new_mutex (), si_exit_watcher = None, si_wait_state = WaitState_new, si_read_busy = False,
          si_write_busy = False, si_closed = False, si_child_pid = Some 77, si_tty_name = None\<rparr>
         \<lparr>si_child := new_mutex (Some child), si_wait_state := WaitState_new\<rparr>)
    \<and> wait_loop (si_wait_state inner') False 2 (demo_sys []) = Some s'
    \<and> event_log 2 s' = event_log 2 (demo_sys []) @ [(Exited (shell_code (Killed_by 9)), answer)]
    \<and> process_kill Linux (\<lambda>_. []) (Inr ()) (Inr ()) inner' 15 = (Inr False, None)"
  by (rule exit_event_carries_exit_code [OF demo_disturbances demo_request _ _ demo_ended(1) _ _ demo_linked refl])
    (simp_all add: demo_exec)

end
